(* ===== verification/Prelude.thy ===== *)
theory Prelude
  imports Main "HOL-Library.Monad_Syntax" "HOL-Library.State_Monad" "HOL-Library.Signed_Division"
    "HOL-Library.AList"
begin

text \<open>
  What every component shares: Go's fixed-width integers, the Go error values, the string and
  list helpers of the Go standard library that the source calls, and the transcript monad in
  which the reconcilers and handlers talk to the Kubernetes API server.
\<close>

named_theorems wp_intro \<open>weakest-precondition rules of the transcript monad\<close>
named_theorems go_simps \<open>unfolding rules of small Go helpers\<close>

section \<open>Go values\<close>

text \<open>
  \<open>int32\<close> and \<open>int64\<close> are HOL integers with the wrap-around written out: \<open>i32 x\<close> is the value Go
  stores when the mathematical result is \<open>x\<close>. Times are nanoseconds since the Unix epoch and
  durations are nanoseconds, both \<open>int64\<close> in Go.
\<close>

type_synonym gotime = int
type_synonym duration = int

definition i32 :: "int \<Rightarrow> int" where
  "i32 x = (x + 2 ^ 31) mod 2 ^ 32 - 2 ^ 31"

definition i64 :: "int \<Rightarrow> int" where
  "i64 x = (x + 2 ^ 63) mod 2 ^ 64 - 2 ^ 63"

definition is_i32 :: "int \<Rightarrow> bool" where
  "is_i32 x \<longleftrightarrow> - (2 ^ 31) \<le> x \<and> x < 2 ^ 31"

lemma i32_id [simp]: "is_i32 x \<Longrightarrow> i32 x = x"
  by (simp add: i32_def is_i32_def)

lemma i32_bounds: "is_i32 (i32 x)"
  using pos_mod_bound [of "2 ^ 32" "x + 2 ^ 31"] pos_mod_sign [of "2 ^ 32" "x + 2 ^ 31"]
  by (simp add: i32_def is_i32_def)

lemma i64_id: "- (2 ^ 63) \<le> x \<Longrightarrow> x < 2 ^ 63 \<Longrightarrow> i64 x = x"
  by (simp add: i64_def)

definition second :: duration where
  "second = 1000000000"

text \<open>
  Go errors: the source tells \<open>NotFound\<close> and \<open>AlreadyExists\<close> apart
  (\<open>apierrors.IsNotFound\<close>, \<open>apierrors.IsAlreadyExists\<close>) and passes every other error on.
\<close>

datatype go_error = NotFound | AlreadyExists | Err string

type_synonym 'a result = "go_error + 'a"

text \<open>\<open>ctrl.Result\<close> and the error of a reconcile: \<open>(RequeueAfter, err)\<close>.\<close>

type_synonym reconcile_result = "duration \<times> go_error option"

definition ignoreNotFound :: "go_error \<Rightarrow> go_error option" where
  "ignoreNotFound e = (if e = NotFound then None else Some e)"

text \<open>The guard \<open>err != nil && !apierrors.IsX(err)\<close>: the error to return, if any.\<close>

fun errUnless :: "go_error \<Rightarrow> 'a result \<Rightarrow> go_error option" where
  "errUnless allowed (Inl err) = (if err = allowed then None else Some err)"
| "errUnless allowed (Inr x) = None"

lemma errUnless_Some: "errUnless allowed r = Some err \<longleftrightarrow> r = Inl err \<and> err \<noteq> allowed"
  by (cases r) auto

lemma errUnless_None: "errUnless allowed r = None \<longleftrightarrow> r = Inl allowed \<or> (\<exists>x. r = Inr x)"
  by (cases r) auto

text \<open>The error of a call whose answer is not used.\<close>

fun errOf :: "'a result \<Rightarrow> go_error option" where
  "errOf (Inl err) = Some err"
| "errOf (Inr x) = None"

lemma errOf_Some: "errOf r = Some err \<longleftrightarrow> r = Inl err"
  by (cases r) auto

lemma errOf_None: "errOf r = None \<longleftrightarrow> (\<exists>x. r = Inr x)"
  by (cases r) auto

subsection \<open>Strings and lists\<close>

text \<open>Go strings are byte strings; \<open>string\<close> is a list of bytes.\<close>

fun firstNonEmpty :: "string list \<Rightarrow> string" where
  "firstNonEmpty [] = ''''"
| "firstNonEmpty (v # vs) = (if v \<noteq> '''' then v else firstNonEmpty vs)"

text \<open>\<open>strings.Cut\<close> at a one-byte separator.\<close>

fun cut :: "char \<Rightarrow> string \<Rightarrow> (string \<times> string) option" where
  "cut sep [] = None"
| "cut sep (c # cs) = (if c = sep then Some ([], cs) else map_option (map_prod (Cons c) id) (cut sep cs))"

lemma cut_append: "sep \<notin> set xs \<Longrightarrow> cut sep (xs @ sep # ys) = Some (xs, ys)"
  by (induction xs) auto

lemma cut_Some: "cut sep s = Some (a, b) \<Longrightarrow> s = a @ sep # b \<and> sep \<notin> set a"
  by (induction s arbitrary: a) (auto split: if_splits)

subsection \<open>Maps and lists\<close>

text \<open>
  A Go map the source ranges over is an association list with distinct keys: \<open>map_of\<close> looks a key
  up, \<open>AList.update\<close> stores one. \<open>index_by f xs\<close> is the index built by ranging over a slice: a later
  element with the same key overwrites an earlier one.
\<close>

type_synonym 'v gomap = "(string \<times> 'v) list"

definition index_by :: "('a \<Rightarrow> string) \<Rightarrow> 'a list \<Rightarrow> 'a gomap" where
  "index_by f xs = foldl (\<lambda>m x. AList.update (f x) x m) [] xs"

lemma index_by_Nil [simp]: "index_by f [] = []"
  by (simp add: index_by_def)

lemma index_by_snoc: "index_by f (xs @ [x]) = AList.update (f x) x (index_by f xs)"
  by (simp add: index_by_def)

lemma distinct_index_by: "distinct (map fst (index_by f xs))"
  by (induction xs rule: rev_induct) (simp_all add: index_by_snoc distinct_update)

lemma index_by_SomeD: "map_of (index_by f xs) k = Some x \<Longrightarrow> x \<in> set xs \<and> f x = k"
  by (induction xs rule: rev_induct) (auto simp: index_by_snoc update_conv' split: if_splits)

lemma index_by_None_iff: "map_of (index_by f xs) k = None \<longleftrightarrow> (\<forall>x\<in>set xs. f x \<noteq> k)"
  by (induction xs rule: rev_induct) (auto simp: index_by_snoc update_conv' simp del: map_of_eq_None_iff)

lemma index_by_distinct:
  "distinct (map f xs) \<Longrightarrow> x \<in> set xs \<Longrightarrow> map_of (index_by f xs) (f x) = Some x"
proof (induction xs rule: rev_induct)
  case Nil
  then show ?case by simp
next
  case (snoc y xs)
  then show ?case
    by (auto simp: index_by_snoc update_conv') (metis image_eqI)
qed

lemma index_by_mem: "(k, x) \<in> set (index_by f xs) \<Longrightarrow> x \<in> set xs \<and> f x = k"
  using index_by_SomeD [of f xs k x] distinct_index_by [of f xs] by simp

section \<open>The transcript monad\<close>

text \<open>
  A handler runs against a cluster of an arbitrary type \<open>'c\<close> through the client calls of the
  parameter record (theory \<open>Kube\<close>). Every call and every other effect (a status frame handed to
  the connector, a metric) is appended to a transcript together with the response it got, so that
  a theorem can speak about what a handler requested whatever the API server answers.
\<close>

record ('c, 'e) world =
  cluster :: 'c
  trace :: "'e list"

type_synonym ('c, 'e, 'a) io = "(('c, 'e) world, 'a) state"

abbreviation ret :: "'a \<Rightarrow> ('s, 'a) state" where
  "ret \<equiv> State_Monad.return"

definition call :: "('a \<Rightarrow> 'e) \<Rightarrow> ('c, 'a) state \<Rightarrow> ('c, 'e, 'a) io" where
  "call ev m = State (\<lambda>w. case run_state m (cluster w) of
     (r, c) \<Rightarrow> (r, \<lparr>cluster = c, trace = trace w @ [ev r]\<rparr>))"

definition emit :: "'e \<Rightarrow> ('c, 'e, unit) io" where
  "emit e = State (\<lambda>w. ((), w\<lparr>trace := trace w @ [e]\<rparr>))"

lemma run_call:
  "run_state (call ev m) w =
     (let (r, c) = run_state m (cluster w) in (r, \<lparr>cluster = c, trace = trace w @ [ev r]\<rparr>))"
  by (simp add: call_def Let_def split: prod.splits)

lemma run_emit [simp]: "run_state (emit e) w = ((), w\<lparr>trace := trace w @ [e]\<rparr>)"
  by (simp add: emit_def)

text \<open>A run from an empty transcript: the result, the cluster after it and the transcript.\<close>

definition exec :: "('c, 'e, 'a) io \<Rightarrow> 'c \<Rightarrow> 'a \<times> 'c \<times> 'e list" where
  "exec m c = (let (r, w) = run_state m \<lparr>cluster = c, trace = []\<rparr> in (r, cluster w, trace w))"

text \<open>
  \<open>wp m Q es\<close>: whatever the cluster answers, running \<open>m\<close> after the transcript \<open>es\<close> ends with a
  result and a transcript that satisfy \<open>Q\<close>.
\<close>

definition wp :: "('c, 'e, 'a) io \<Rightarrow> ('a \<Rightarrow> 'e list \<Rightarrow> bool) \<Rightarrow> 'e list \<Rightarrow> bool" where
  "wp m Q es \<longleftrightarrow> (\<forall>c. let (r, w) = run_state m \<lparr>cluster = c, trace = es\<rparr> in Q r (trace w))"

lemma wp_exec: "wp m Q [] \<Longrightarrow> exec m c = (r, c', es) \<Longrightarrow> Q r es"
  by (auto simp: wp_def exec_def Let_def split: prod.splits)

lemma wp_return [wp_intro]: "Q x es \<Longrightarrow> wp (ret x) Q es"
  by (simp add: wp_def)

lemma wp_bind [wp_intro]: "wp m (\<lambda>r. wp (f r) Q) es \<Longrightarrow> wp (State_Monad.bind m f) Q es"
proof -
  assume a: "wp m (\<lambda>r. wp (f r) Q) es"
  have "let (r, w) = run_state (State_Monad.bind m f) \<lparr>cluster = c, trace = es\<rparr> in Q r (trace w)" for c
  proof -
    obtain r w where rw: "run_state m \<lparr>cluster = c, trace = es\<rparr> = (r, w)"
      by fastforce
    with a have "wp (f r) Q (trace w)"
      unfolding wp_def by (metis (mono_tags, lifting) case_prod_conv)
    then have "let (r', w') = run_state (f r) \<lparr>cluster = cluster w, trace = trace w\<rparr> in Q r' (trace w')"
      by (simp add: wp_def)
    with rw show ?thesis by (cases w) simp
  qed
  then show ?thesis by (simp add: wp_def)
qed

lemma wp_call [wp_intro]: "(\<And>r. Q r (es @ [ev r])) \<Longrightarrow> wp (call ev m) Q es"
  by (simp add: wp_def run_call Let_def split: prod.splits)

lemma wp_emit [wp_intro]: "Q () (es @ [e]) \<Longrightarrow> wp (emit e) Q es"
  by (simp add: wp_def)

lemma wp_if [wp_intro]: "(b \<Longrightarrow> wp m Q es) \<Longrightarrow> (\<not> b \<Longrightarrow> wp n Q es) \<Longrightarrow> wp (if b then m else n) Q es"
  by simp

lemma wp_case_sum [wp_intro]:
  "(\<And>e. r = Inl e \<Longrightarrow> wp (f e) Q es) \<Longrightarrow> (\<And>x. r = Inr x \<Longrightarrow> wp (g x) Q es) \<Longrightarrow>
    wp (case r of Inl e \<Rightarrow> f e | Inr x \<Rightarrow> g x) Q es"
  by (cases r) auto

lemma wp_case_option [wp_intro]:
  "(r = None \<Longrightarrow> wp f Q es) \<Longrightarrow> (\<And>x. r = Some x \<Longrightarrow> wp (g x) Q es) \<Longrightarrow>
    wp (case r of None \<Rightarrow> f | Some x \<Rightarrow> g x) Q es"
  by (cases r) auto

lemma wp_case_list [wp_intro]:
  "(r = [] \<Longrightarrow> wp f Q es) \<Longrightarrow> (\<And>x xs. r = x # xs \<Longrightarrow> wp (g x xs) Q es) \<Longrightarrow>
    wp (case r of [] \<Rightarrow> f | x # xs \<Rightarrow> g x xs) Q es"
  by (cases r) auto

lemma wp_case_prod [wp_intro]:
  "(\<And>a b. r = (a, b) \<Longrightarrow> wp (f a b) Q es) \<Longrightarrow> wp (case r of (a, b) \<Rightarrow> f a b) Q es"
  by (cases r) auto

lemma wp_Let [wp_intro]: "wp (f x) Q es \<Longrightarrow> wp (let y = x in f y) Q es"
  by simp

lemma wp_mono: "wp m Q es \<Longrightarrow> (\<And>r es'. Q r es' \<Longrightarrow> Q' r es') \<Longrightarrow> wp m Q' es"
  by (auto simp: wp_def Let_def split: prod.splits)

lemma wp_conj: "wp m Q es \<Longrightarrow> wp m Q' es \<Longrightarrow> wp m (\<lambda>r es'. Q r es' \<and> Q' r es') es"
  by (auto simp: wp_def Let_def split: prod.splits)

text \<open>
  \<open>emits m P\<close>: whatever the cluster answers, \<open>m\<close> extends the transcript by some \<open>new\<close> with
  \<open>P result new\<close>. It is how the lemmas of a component describe one of its operations to the
  operations that call it.
\<close>

definition emits :: "('c, 'e, 'a) io \<Rightarrow> ('a \<Rightarrow> 'e list \<Rightarrow> bool) \<Rightarrow> bool" where
  "emits m P \<longleftrightarrow> (\<forall>es. wp m (\<lambda>r es'. \<exists>new. es' = es @ new \<and> P r new) es)"

lemma emitsI: "(\<And>es. wp m (\<lambda>r es'. \<exists>new. es' = es @ new \<and> P r new) es) \<Longrightarrow> emits m P"
  by (simp add: emits_def)

lemma wp_emits:
  assumes "emits m P" and "\<And>r new. P r new \<Longrightarrow> Q r (es @ new)"
  shows "wp m Q es"
proof (rule wp_mono)
  show "wp m (\<lambda>r es'. \<exists>new. es' = es @ new \<and> P r new) es"
    using assms(1) by (simp add: emits_def)
qed (use assms(2) in auto)

lemma emits_exec:
  assumes "emits m P" "exec m c = (r, c', es)"
  shows "P r es"
proof (rule wp_exec [OF _ assms(2)])
  show "wp m P []" by (rule wp_emits [OF assms(1)]) simp
qed

lemma emits_mono:
  assumes "emits m P" and "\<And>r new. P r new \<Longrightarrow> P' r new"
  shows "emits m P'"
  by (rule emitsI, rule wp_emits [OF assms(1)]) (use assms(2) in auto)

lemma emits_conj:
  assumes "emits m P" "emits m P'"
  shows "emits m (\<lambda>r new. P r new \<and> P' r new)"
proof (rule emitsI, rule wp_mono)
  fix es
  show "wp m (\<lambda>r es'. (\<exists>new. es' = es @ new \<and> P r new) \<and> (\<exists>new. es' = es @ new \<and> P' r new)) es"
    by (rule wp_conj) (use assms in \<open>simp_all add: emits_def\<close>)
qed auto

end
