(* ===== verification/Api_Types.thy ===== *)
theory Api_Types
  imports Prelude
begin

text \<open>
  The data model of \<open>src/api/v1alpha1\<close>: the specs and statuses of \<open>PipelineRun\<close>, \<open>TaskRun\<close> and
  \<open>Rollout\<close> and the payloads exchanged with the hub, one record per Go struct and one datatype per
  Go string enumeration. A pointer field is an \<open>option\<close>, a slice a list, a map a partial function;
  the empty string of a validated enumeration (the zero value of a fresh status) is a constructor
  of its own. \<open>TypeMeta\<close>, \<open>Conditions\<close> and \<open>ObservedGeneration\<close>, which no code of the
  repository reads or writes, are left out.
\<close>

section \<open>Object metadata\<close>

text \<open>
  The part of \<open>metav1.ObjectMeta\<close> the source uses. A nil map and an empty one are both the empty
  partial function: the source allocates a nil annotation map before every write.
\<close>

record ObjectMeta =
  om_Name :: string
  om_GenerateName :: string
  om_Namespace :: string
  om_Labels :: "string \<rightharpoonup> string"
  om_Annotations :: "string \<rightharpoonup> string"
  om_OwnerReferences :: "string list"

definition meta0 :: ObjectMeta where
  "meta0 = \<lparr>om_Name = '''', om_GenerateName = '''', om_Namespace = '''', om_Labels = Map.empty,
            om_Annotations = Map.empty, om_OwnerReferences = []\<rparr>"

text \<open>A missing key of a Go string map reads as the empty string.\<close>

definition map_get :: "(string \<rightharpoonup> string) \<Rightarrow> string \<Rightarrow> string" where
  "map_get m k = (case m k of None \<Rightarrow> '''' | Some v \<Rightarrow> v)"

section \<open>Pipeline runs\<close>

datatype PipelineTaskType =
    TaskTypeBuild | TaskTypeRelease | TaskTypeApproval | TaskTypeTest | TaskTypeOther string

fun task_type_string :: "PipelineTaskType \<Rightarrow> string" where
  "task_type_string TaskTypeBuild = ''Build''"
| "task_type_string TaskTypeRelease = ''Release''"
| "task_type_string TaskTypeApproval = ''Approval''"
| "task_type_string TaskTypeTest = ''Test''"
| "task_type_string (TaskTypeOther s) = s"

datatype ExecutionMode = ExecutionModeParallel | ExecutionModeSerial | ExecutionModeOther string

fun execution_mode_string :: "ExecutionMode \<Rightarrow> string" where
  "execution_mode_string ExecutionModeParallel = ''Parallel''"
| "execution_mode_string ExecutionModeSerial = ''Serial''"
| "execution_mode_string (ExecutionModeOther s) = s"

definition IsValidEnvironment :: "string \<Rightarrow> bool" where
  "IsValidEnvironment s \<longleftrightarrow>
     s \<in> set [''dev'', ''test'', ''staging'', ''prod'', ''canary'', ''bluegreen'']"

datatype PipelineRunPhase =
    PipelineRunUnset | PipelineRunPending | PipelineRunRunning | PipelineRunWaitingApproval
  | PipelineRunSucceeded | PipelineRunFailed | PipelineRunCancelled

record Param =
  param_Name :: string
  param_Value :: string

record RepoSource =
  repo_URL :: string
  repo_Ref :: string
  repo_Path :: string
  repo_SecretRef :: string

record RetryPolicy =
  rp_MaxRetries :: int
  rp_Backoff :: duration

record ApprovalConfig =
  ac_RequiredApprovals :: int
  ac_AllowedApprovers :: "string list"
  ac_TimeoutSeconds :: int

datatype ReleaseSourceType = ReleaseSourceChart | ReleaseSourceManifest | ReleaseSourceOther string

record ChartSource =
  chart_RepoURL :: string
  chart_Name :: string
  chart_Version :: string

record ManifestSource =
  manifest_Content :: string

subsection \<open>Rollout specs\<close>

datatype RolloutPhase =
    RolloutUnset | RolloutProgressing | RolloutPaused | RolloutHealthy | RolloutDegraded
  | RolloutRollingBack | RolloutFailed | RolloutRolledBack

fun rollout_phase_string :: "RolloutPhase \<Rightarrow> string" where
  "rollout_phase_string RolloutUnset = ''''"
| "rollout_phase_string RolloutProgressing = ''Progressing''"
| "rollout_phase_string RolloutPaused = ''Paused''"
| "rollout_phase_string RolloutHealthy = ''Healthy''"
| "rollout_phase_string RolloutDegraded = ''Degraded''"
| "rollout_phase_string RolloutRollingBack = ''RollingBack''"
| "rollout_phase_string RolloutFailed = ''Failed''"
| "rollout_phase_string RolloutRolledBack = ''RolledBack''"

datatype TrafficRoutingType =
    TrafficRoutingDeploymentWeight | TrafficRoutingIngressCanary | TrafficRoutingOther string

record PauseStep =
  pause_Duration :: "duration option"

record CanaryStep =
  step_SetWeight :: "int option"
  step_Pause :: "PauseStep option"

datatype HealthCheckType =
    HealthCheckPodReady | HealthCheckHTTPProbe | HealthCheckPrometheusQuery | HealthCheckOther string

record HealthCheckSpec =
  hc_Type :: HealthCheckType
  hc_IntervalSeconds :: int
  hc_FailureThreshold :: int
  hc_HTTPPath :: string
  hc_PrometheusQueryExpr :: string
  hc_PrometheusThreshold :: string

record TrafficRoutingSpec =
  tf_Type :: TrafficRoutingType
  tf_IngressRef :: string

record RolloutSpec =
  ros_WorkloadRef :: string
  ros_Replicas :: "int option"
  ros_StableImage :: string
  ros_CanaryImage :: string
  ros_Steps :: "CanaryStep list"
  ros_HealthCheck :: HealthCheckSpec
  ros_TrafficRouting :: TrafficRoutingSpec
  ros_AutoRollback :: bool

record RolloutStatus =
  rst_Phase :: RolloutPhase
  rst_CurrentStepIndex :: int
  rst_CurrentWeight :: int
  rst_StableReplicas :: int
  rst_CanaryReplicas :: int
  rst_ConsecutiveFailures :: int
  rst_LastHealthCheckTime :: "gotime option"
  rst_StartTime :: "gotime option"
  rst_CompletionTime :: "gotime option"
  rst_Message :: string

record Rollout =
  ro_Meta :: ObjectMeta
  ro_Spec :: RolloutSpec
  ro_Status :: RolloutStatus

record ReleaseSpec =
  rel_Source :: ReleaseSourceType
  rel_Chart :: "ChartSource option"
  rel_Manifest :: "ManifestSource option"
  rel_Values :: "(string \<times> string) list"
  rel_TargetNamespace :: string
  rel_Canary :: "RolloutSpec option"

subsection \<open>Tasks, specs and statuses\<close>

record PipelineTaskSpec =
  pt_Name :: string
  pt_Type :: PipelineTaskType
  pt_Stage :: string
  pt_ExecutionMode :: ExecutionMode
  pt_Image :: string
  pt_ScriptPath :: string
  pt_ScriptArgs :: "string list"
  pt_Command :: "string list"
  pt_Args :: "string list"
  pt_Repo :: "RepoSource option"
  pt_Produces :: "string list"
  pt_Consumes :: "string list"
  pt_DependsOn :: "string list"
  pt_Privileged :: bool
  pt_RetryPolicy :: "RetryPolicy option"
  pt_TimeoutSeconds :: int
  pt_ApprovalConfig :: "ApprovalConfig option"
  pt_RolloutSpec :: "RolloutSpec option"
  pt_ReleaseSpec :: "ReleaseSpec option"

record PipelineRunSpec =
  prs_PipelineRef :: string
  prs_Tasks :: "PipelineTaskSpec list"
  prs_Repo :: "RepoSource option"
  prs_Params :: "Param list"
  prs_TenantID :: string
  prs_ProjectID :: string
  prs_EnvironmentID :: string
  prs_TargetNamespace :: string
  prs_ServiceAccountName :: string
  prs_TimeoutSeconds :: int
  prs_TriggeredBy :: string

record ApprovalStatus =
  as_TaskName :: string
  as_RequestedAt :: gotime
  as_RequiredCount :: int
  as_ApprovedBy :: "string list"
  as_RejectedBy :: string

datatype TaskRunPhase =
    TaskRunUnset | TaskRunPending | TaskRunRunning | TaskRunSucceeded | TaskRunFailed | TaskRunSkipped

fun task_phase_string :: "TaskRunPhase \<Rightarrow> string" where
  "task_phase_string TaskRunUnset = ''''"
| "task_phase_string TaskRunPending = ''Pending''"
| "task_phase_string TaskRunRunning = ''Running''"
| "task_phase_string TaskRunSucceeded = ''Succeeded''"
| "task_phase_string TaskRunFailed = ''Failed''"
| "task_phase_string TaskRunSkipped = ''Skipped''"

record RolloutStatusSummary =
  rss_Phase :: RolloutPhase
  rss_CurrentStepIndex :: int
  rss_CurrentWeight :: int
  rss_WorkloadRef :: string
  rss_Message :: string

record TaskRunStatusSummary =
  ts_Name :: string
  ts_TaskRunRef :: string
  ts_Phase :: TaskRunPhase
  ts_RetryCount :: int
  ts_StartTime :: "gotime option"
  ts_CompletionTime :: "gotime option"
  ts_Message :: string
  ts_Rollout :: "RolloutStatusSummary option"

record PipelineRunStatus =
  pst_Phase :: PipelineRunPhase
  pst_StartTime :: "gotime option"
  pst_CompletionTime :: "gotime option"
  pst_Tasks :: "TaskRunStatusSummary list"
  pst_CurrentApproval :: "ApprovalStatus option"
  pst_Message :: string

record PipelineRun =
  pr_Meta :: ObjectMeta
  pr_Spec :: PipelineRunSpec
  pr_Status :: PipelineRunStatus

section \<open>Task runs\<close>

record EnvVar =
  env_Name :: string
  env_Value :: string

record ResourceRequirements =
  res_Limits :: "(string \<times> string) list"
  res_Requests :: "(string \<times> string) list"

definition no_resources :: ResourceRequirements where
  "no_resources = \<lparr>res_Limits = [], res_Requests = []\<rparr>"

record TaskRunSpec =
  trs_PipelineRunRef :: string
  trs_TaskName :: string
  trs_Type :: PipelineTaskType
  trs_Image :: string
  trs_ScriptPath :: string
  trs_ScriptArgs :: "string list"
  trs_Command :: "string list"
  trs_Args :: "string list"
  trs_Repo :: "RepoSource option"
  trs_Produces :: "string list"
  trs_Consumes :: "string list"
  trs_Env :: "EnvVar list"
  trs_Resources :: ResourceRequirements
  trs_Namespace :: string
  trs_ServiceAccountName :: string
  trs_RetryPolicy :: "RetryPolicy option"
  trs_TimeoutSeconds :: int
  trs_ApprovalConfig :: "ApprovalConfig option"
  trs_RolloutSpec :: "RolloutSpec option"
  trs_ReleaseSpec :: "ReleaseSpec option"
  trs_Params :: "Param list"
  trs_Privileged :: bool

record TaskRunStatus =
  tst_Phase :: TaskRunPhase
  tst_JobRef :: string
  tst_RolloutRef :: string
  tst_PodName :: string
  tst_StartTime :: "gotime option"
  tst_CompletionTime :: "gotime option"
  tst_RetryCount :: int
  tst_ExitCode :: "int option"
  tst_Message :: string
  tst_LogsRef :: string
  tst_Approval :: "ApprovalStatus option"

record TaskRun =
  tr_Meta :: ObjectMeta
  tr_Spec :: TaskRunSpec
  tr_Status :: TaskRunStatus

definition task_status0 :: TaskRunStatus where
  "task_status0 = \<lparr>tst_Phase = TaskRunUnset, tst_JobRef = '''', tst_RolloutRef = '''',
     tst_PodName = '''', tst_StartTime = None, tst_CompletionTime = None, tst_RetryCount = 0,
     tst_ExitCode = None, tst_Message = '''', tst_LogsRef = '''', tst_Approval = None\<rparr>"

definition rollout_status0 :: RolloutStatus where
  "rollout_status0 = \<lparr>rst_Phase = RolloutUnset, rst_CurrentStepIndex = 0, rst_CurrentWeight = 0,
     rst_StableReplicas = 0, rst_CanaryReplicas = 0, rst_ConsecutiveFailures = 0,
     rst_LastHealthCheckTime = None, rst_StartTime = None, rst_CompletionTime = None,
     rst_Message = ''''\<rparr>"

definition run_status0 :: PipelineRunStatus where
  "run_status0 = \<lparr>pst_Phase = PipelineRunUnset, pst_StartTime = None, pst_CompletionTime = None,
     pst_Tasks = [], pst_CurrentApproval = None, pst_Message = ''''\<rparr>"

section \<open>Payloads of the hub connection\<close>

record StatusUpdatePayload =
  su_TargetID :: string
  su_PipelineRunName :: string
  su_PipelineRunNamespace :: string
  su_Phase :: PipelineRunPhase
  su_Message :: string
  su_StartTime :: "gotime option"
  su_CompletionTime :: "gotime option"
  su_Tasks :: "TaskRunStatusSummary list"

record LogChunkPayload =
  lc_TargetID :: string
  lc_PipelineRunName :: string
  lc_TaskName :: string
  lc_Stream :: string
  lc_Chunk :: string

record ApplyPipelineRunPayload =
  ap_Name :: string
  ap_Namespace :: string
  ap_Spec :: PipelineRunSpec
  ap_PublishVersion :: string

definition RolloutActionPause :: string where "RolloutActionPause = ''pause''"
definition RolloutActionPromote :: string where "RolloutActionPromote = ''promote''"
definition RolloutActionRollback :: string where "RolloutActionRollback = ''rollback''"

lemmas rollout_actions [go_simps] =
  RolloutActionPause_def RolloutActionPromote_def RolloutActionRollback_def

record RolloutControlPayload =
  rc_PipelineRunName :: string
  rc_TaskName :: string
  rc_Action :: string
  rc_Operator :: string

record ApproveTaskPayload =
  at_PipelineRunName :: string
  at_TaskName :: string
  at_Approver :: string
  at_Rejected :: bool

record RerunTaskPayload =
  rr_PipelineRunName :: string
  rr_TaskName :: string
  rr_Operator :: string

record CancelPipelineRunPayload =
  cp_PipelineRunName :: string
  cp_Namespace :: string
  cp_Operator :: string

definition AnnCancelRequested :: string where "AnnCancelRequested = ''sdp.io/cancel-requested''"
definition AnnCancelOperator :: string where "AnnCancelOperator = ''sdp.io/cancel-operator''"

lemma cancel_annotations_distinct [simp]: "AnnCancelRequested \<noteq> AnnCancelOperator"
  by (simp add: AnnCancelRequested_def AnnCancelOperator_def)

record AgentOpDispatchPayload =
  ao_OpID :: string
  ao_TargetID :: string
  ao_EnvID :: string
  ao_OpType :: string
  ao_Detail :: string
  ao_Namespace :: string
  ao_Kubeconfig :: string

record AgentOpStatusPayload =
  aos_OpID :: string
  aos_Status :: string
  aos_Message :: string

record AgentOpLogPayload =
  aol_OpID :: string
  aol_Stream :: string
  aol_Chunk :: string

record AgentInfoPayload =
  ai_AgentVersion :: string
  ai_OS :: string
  ai_Arch :: string
  ai_Capabilities :: "string list"
  ai_TargetName :: string
  ai_GoVersion :: string

end
