(* ===== verification/Kube.thy ===== *)
theory Kube
  imports Api_Types
begin

text \<open>
  The Kubernetes side of the model: the fields the source uses of the cluster objects it builds
  and reads, and the API client as a parameter. The client (controller-runtime and the API server
  behind it) is not code of the repository: \<open>kclient\<close> is a record of state transformers over an
  arbitrary cluster type \<open>'c\<close>, an argument of every reconciler and handler, and nothing is assumed
  of it here. The wrappers below are the calls the source makes; each appends itself and the answer
  to the transcript.
\<close>

section \<open>Cluster objects\<close>

record ObjectKey =
  key_Namespace :: string
  key_Name :: string

abbreviation okey :: "string \<Rightarrow> string \<Rightarrow> ObjectKey" where
  "okey ns n \<equiv> \<lparr>key_Namespace = ns, key_Name = n\<rparr>"

definition meta_key :: "ObjectMeta \<Rightarrow> ObjectKey" where
  "meta_key m = okey (om_Namespace m) (om_Name m)"

text \<open>
  List options: \<open>client.InNamespace\<close> (\<open>None\<close> lists all namespaces) and \<open>client.MatchingLabels\<close>.
\<close>

record ListOptions =
  lo_Namespace :: "string option"
  lo_Labels :: "(string \<times> string) list"

definition list_matches :: "ListOptions \<Rightarrow> ObjectMeta \<Rightarrow> bool" where
  "list_matches lo m \<longleftrightarrow>
     (case lo_Namespace lo of None \<Rightarrow> True | Some ns \<Rightarrow> om_Namespace m = ns) \<and>
     list_all (\<lambda>(k, v). om_Labels m k = Some v) (lo_Labels lo)"

datatype VolumeSource = EmptyDirVolume | ConfigMapVolume string "(string \<times> string) list"

record Volume =
  vol_Name :: string
  vol_Source :: VolumeSource

record VolumeMount =
  vm_Name :: string
  vm_MountPath :: string
  vm_ReadOnly :: bool

record Container =
  con_Name :: string
  con_Image :: string
  con_Command :: "string list"
  con_Args :: "string list"
  con_Env :: "EnvVar list"
  con_EnvFromSecrets :: "string list"
  con_Resources :: ResourceRequirements
  con_WorkingDir :: string
  con_VolumeMounts :: "VolumeMount list"
  con_Privileged :: "bool option"
  con_Ports :: "int list"

definition container0 :: Container where
  "container0 = \<lparr>con_Name = '''', con_Image = '''', con_Command = [], con_Args = [], con_Env = [],
     con_EnvFromSecrets = [], con_Resources = no_resources, con_WorkingDir = '''',
     con_VolumeMounts = [], con_Privileged = None, con_Ports = []\<rparr>"

record PodSpec =
  ps_RestartPolicy :: string
  ps_ServiceAccountName :: string
  ps_InitContainers :: "Container list"
  ps_Containers :: "Container list"
  ps_Volumes :: "Volume list"

record Condition =
  cond_Type :: string
  cond_Status :: string
  cond_Message :: string

record Job =
  job_Meta :: ObjectMeta
  job_BackoffLimit :: "int option"
  job_TTLSecondsAfterFinished :: "int option"
  job_ActiveDeadlineSeconds :: "int option"
  job_Pod :: PodSpec
  job_Succeeded :: int
  job_Failed :: int
  job_Conditions :: "Condition list"

record Deployment =
  dep_Meta :: ObjectMeta
  dep_Replicas :: "int option"
  dep_Selector :: "string \<rightharpoonup> string"
  dep_PodLabels :: "string \<rightharpoonup> string"
  dep_Containers :: "Container list"
  dep_AvailableReplicas :: int
  dep_Conditions :: "Condition list"

record ServicePort =
  sp_Name :: string
  sp_Port :: int
  sp_TargetPort :: int

record Service =
  svc_Meta :: ObjectMeta
  svc_Type :: string
  svc_Selector :: "string \<rightharpoonup> string"
  svc_Ports :: "ServicePort list"

record IngressSpec =
  ing_Host :: string
  ing_Path :: string
  ing_PathType :: string
  ing_ServiceName :: string
  ing_ServicePort :: int

record Ingress =
  ing_Meta :: ObjectMeta
  ing_Spec :: IngressSpec

record Namespace =
  ns_Meta :: ObjectMeta

record ConfigMap =
  cm_Meta :: ObjectMeta
  cm_Data :: "string \<rightharpoonup> string"

record ServiceAccount =
  sa_Meta :: ObjectMeta

record PolicyRule =
  rule_APIGroups :: "string list"
  rule_Resources :: "string list"
  rule_Verbs :: "string list"

record Role =
  role_Meta :: ObjectMeta
  role_Rules :: "PolicyRule list"

record RoleBinding =
  rb_Meta :: ObjectMeta
  rb_RoleRef :: "string \<times> string \<times> string"
  rb_Subjects :: "(string \<times> string \<times> string) list"

section \<open>The client\<close>

text \<open>
  One group of verbs per resource: \<open>Get\<close>, \<open>List\<close>, \<open>Create\<close>, \<open>Update\<close>, \<open>Status().Update\<close>,
  \<open>Patch\<close> with \<open>client.MergeFrom base\<close>, and \<open>Delete\<close>. The writing verbs answer with the object as
  the server stored it, as the client decodes it into its argument.
\<close>

record ('c, 'o) resource =
  r_get :: "ObjectKey \<Rightarrow> ('c, 'o result) state"
  r_list :: "ListOptions \<Rightarrow> ('c, 'o list result) state"
  r_create :: "'o \<Rightarrow> ('c, 'o result) state"
  r_update :: "'o \<Rightarrow> ('c, 'o result) state"
  r_status :: "'o \<Rightarrow> ('c, 'o result) state"
  r_patch :: "'o \<Rightarrow> 'o \<Rightarrow> ('c, 'o result) state"
  r_delete :: "ObjectKey \<Rightarrow> ('c, unit result) state"

text \<open>
  \<open>setControllerReference kind owner obj\<close> is \<open>controllerutil.SetControllerReference\<close>: it answers
  the metadata of the object with the owner reference added, or an error.
\<close>

record 'c kclient =
  pipelineRuns :: "('c, PipelineRun) resource"
  taskRuns :: "('c, TaskRun) resource"
  rollouts :: "('c, Rollout) resource"
  jobs :: "('c, Job) resource"
  deployments :: "('c, Deployment) resource"
  services :: "('c, Service) resource"
  ingresses :: "('c, Ingress) resource"
  namespaces :: "('c, Namespace) resource"
  configMaps :: "('c, ConfigMap) resource"
  serviceAccounts :: "('c, ServiceAccount) resource"
  roles :: "('c, Role) resource"
  roleBindings :: "('c, RoleBinding) resource"
  setControllerReference :: "string \<Rightarrow> ObjectMeta \<Rightarrow> ObjectMeta \<Rightarrow> ObjectMeta result"

section \<open>The transcript\<close>

text \<open>
  One constructor per call of the source, with its request and the answer, and one per effect
  outside the cluster: a status frame handed to the connector, a metric, an alert, the start of a
  log streamer.
\<close>

datatype (plugins only: size) effect =
    GetPR ObjectKey "PipelineRun result"
  | ListPR ListOptions "PipelineRun list result"
  | CreatePR PipelineRun "PipelineRun result"
  | StatusPR PipelineRun "PipelineRun result"
  | PatchPR PipelineRun PipelineRun "PipelineRun result"
  | GetTR ObjectKey "TaskRun result"
  | ListTR ListOptions "TaskRun list result"
  | CreateTR TaskRun "TaskRun result"
  | StatusTR TaskRun "TaskRun result"
  | DeleteTR ObjectKey "unit result"
  | GetRO ObjectKey "Rollout result"
  | ListRO ListOptions "Rollout list result"
  | CreateRO Rollout "Rollout result"
  | StatusRO Rollout "Rollout result"
  | PatchRO Rollout Rollout "Rollout result"
  | DeleteRO ObjectKey "unit result"
  | GetJob ObjectKey "Job result"
  | CreateJob Job "Job result"
  | DeleteJob ObjectKey "unit result"
  | GetDep ObjectKey "Deployment result"
  | CreateDep Deployment "Deployment result"
  | PatchDep Deployment Deployment "Deployment result"
  | GetSvc ObjectKey "Service result"
  | CreateSvc Service "Service result"
  | GetIng ObjectKey "Ingress result"
  | CreateIng Ingress "Ingress result"
  | PatchIng Ingress Ingress "Ingress result"
  | GetNs ObjectKey "Namespace result"
  | CreateNs Namespace "Namespace result"
  | GetCM ObjectKey "ConfigMap result"
  | CreateCM ConfigMap "ConfigMap result"
  | UpdateCM ConfigMap "ConfigMap result"
  | CreateSA ServiceAccount "ServiceAccount result"
  | CreateRole Role "Role result"
  | CreateRB RoleBinding "RoleBinding result"
  | ReportStatus StatusUpdatePayload
  | PhaseMetric string string
  | WeightMetric int
  | AlertEvent string string string
  | StreamLogsFor string

type_synonym ('c, 'a) kio = "('c, effect, 'a) io"

section \<open>The calls\<close>

definition getPR :: "'c kclient \<Rightarrow> ObjectKey \<Rightarrow> ('c, PipelineRun result) kio" where
  "getPR k key = call (GetPR key) (r_get (pipelineRuns k) key)"

definition listPR :: "'c kclient \<Rightarrow> ListOptions \<Rightarrow> ('c, PipelineRun list result) kio" where
  "listPR k lo = call (ListPR lo) (r_list (pipelineRuns k) lo)"

definition createPR :: "'c kclient \<Rightarrow> PipelineRun \<Rightarrow> ('c, PipelineRun result) kio" where
  "createPR k o1 = call (CreatePR o1) (r_create (pipelineRuns k) o1)"

definition statusPR :: "'c kclient \<Rightarrow> PipelineRun \<Rightarrow> ('c, PipelineRun result) kio" where
  "statusPR k o1 = call (StatusPR o1) (r_status (pipelineRuns k) o1)"

definition patchPR :: "'c kclient \<Rightarrow> PipelineRun \<Rightarrow> PipelineRun \<Rightarrow> ('c, PipelineRun result) kio" where
  "patchPR k base o1 = call (PatchPR base o1) (r_patch (pipelineRuns k) base o1)"

definition getTR :: "'c kclient \<Rightarrow> ObjectKey \<Rightarrow> ('c, TaskRun result) kio" where
  "getTR k key = call (GetTR key) (r_get (taskRuns k) key)"

definition listTR :: "'c kclient \<Rightarrow> ListOptions \<Rightarrow> ('c, TaskRun list result) kio" where
  "listTR k lo = call (ListTR lo) (r_list (taskRuns k) lo)"

definition createTR :: "'c kclient \<Rightarrow> TaskRun \<Rightarrow> ('c, TaskRun result) kio" where
  "createTR k o1 = call (CreateTR o1) (r_create (taskRuns k) o1)"

definition statusTR :: "'c kclient \<Rightarrow> TaskRun \<Rightarrow> ('c, TaskRun result) kio" where
  "statusTR k o1 = call (StatusTR o1) (r_status (taskRuns k) o1)"

definition deleteTR :: "'c kclient \<Rightarrow> ObjectKey \<Rightarrow> ('c, unit result) kio" where
  "deleteTR k key = call (DeleteTR key) (r_delete (taskRuns k) key)"

definition getRO :: "'c kclient \<Rightarrow> ObjectKey \<Rightarrow> ('c, Rollout result) kio" where
  "getRO k key = call (GetRO key) (r_get (rollouts k) key)"

definition listRO :: "'c kclient \<Rightarrow> ListOptions \<Rightarrow> ('c, Rollout list result) kio" where
  "listRO k lo = call (ListRO lo) (r_list (rollouts k) lo)"

definition createRO :: "'c kclient \<Rightarrow> Rollout \<Rightarrow> ('c, Rollout result) kio" where
  "createRO k o1 = call (CreateRO o1) (r_create (rollouts k) o1)"

definition statusRO :: "'c kclient \<Rightarrow> Rollout \<Rightarrow> ('c, Rollout result) kio" where
  "statusRO k o1 = call (StatusRO o1) (r_status (rollouts k) o1)"

definition patchRO :: "'c kclient \<Rightarrow> Rollout \<Rightarrow> Rollout \<Rightarrow> ('c, Rollout result) kio" where
  "patchRO k base o1 = call (PatchRO base o1) (r_patch (rollouts k) base o1)"

definition deleteRO :: "'c kclient \<Rightarrow> ObjectKey \<Rightarrow> ('c, unit result) kio" where
  "deleteRO k key = call (DeleteRO key) (r_delete (rollouts k) key)"

definition getJob :: "'c kclient \<Rightarrow> ObjectKey \<Rightarrow> ('c, Job result) kio" where
  "getJob k key = call (GetJob key) (r_get (jobs k) key)"

definition createJob :: "'c kclient \<Rightarrow> Job \<Rightarrow> ('c, Job result) kio" where
  "createJob k o1 = call (CreateJob o1) (r_create (jobs k) o1)"

definition deleteJob :: "'c kclient \<Rightarrow> ObjectKey \<Rightarrow> ('c, unit result) kio" where
  "deleteJob k key = call (DeleteJob key) (r_delete (jobs k) key)"

definition getDep :: "'c kclient \<Rightarrow> ObjectKey \<Rightarrow> ('c, Deployment result) kio" where
  "getDep k key = call (GetDep key) (r_get (deployments k) key)"

definition createDep :: "'c kclient \<Rightarrow> Deployment \<Rightarrow> ('c, Deployment result) kio" where
  "createDep k o1 = call (CreateDep o1) (r_create (deployments k) o1)"

definition patchDep :: "'c kclient \<Rightarrow> Deployment \<Rightarrow> Deployment \<Rightarrow> ('c, Deployment result) kio" where
  "patchDep k base o1 = call (PatchDep base o1) (r_patch (deployments k) base o1)"

definition getSvc :: "'c kclient \<Rightarrow> ObjectKey \<Rightarrow> ('c, Service result) kio" where
  "getSvc k key = call (GetSvc key) (r_get (services k) key)"

definition createSvc :: "'c kclient \<Rightarrow> Service \<Rightarrow> ('c, Service result) kio" where
  "createSvc k o1 = call (CreateSvc o1) (r_create (services k) o1)"

definition getIng :: "'c kclient \<Rightarrow> ObjectKey \<Rightarrow> ('c, Ingress result) kio" where
  "getIng k key = call (GetIng key) (r_get (ingresses k) key)"

definition createIng :: "'c kclient \<Rightarrow> Ingress \<Rightarrow> ('c, Ingress result) kio" where
  "createIng k o1 = call (CreateIng o1) (r_create (ingresses k) o1)"

definition patchIng :: "'c kclient \<Rightarrow> Ingress \<Rightarrow> Ingress \<Rightarrow> ('c, Ingress result) kio" where
  "patchIng k base o1 = call (PatchIng base o1) (r_patch (ingresses k) base o1)"

definition getNs :: "'c kclient \<Rightarrow> ObjectKey \<Rightarrow> ('c, Namespace result) kio" where
  "getNs k key = call (GetNs key) (r_get (namespaces k) key)"

definition createNs :: "'c kclient \<Rightarrow> Namespace \<Rightarrow> ('c, Namespace result) kio" where
  "createNs k o1 = call (CreateNs o1) (r_create (namespaces k) o1)"

definition getCM :: "'c kclient \<Rightarrow> ObjectKey \<Rightarrow> ('c, ConfigMap result) kio" where
  "getCM k key = call (GetCM key) (r_get (configMaps k) key)"

definition createCM :: "'c kclient \<Rightarrow> ConfigMap \<Rightarrow> ('c, ConfigMap result) kio" where
  "createCM k o1 = call (CreateCM o1) (r_create (configMaps k) o1)"

definition updateCM :: "'c kclient \<Rightarrow> ConfigMap \<Rightarrow> ('c, ConfigMap result) kio" where
  "updateCM k o1 = call (UpdateCM o1) (r_update (configMaps k) o1)"

definition createSA :: "'c kclient \<Rightarrow> ServiceAccount \<Rightarrow> ('c, ServiceAccount result) kio" where
  "createSA k o1 = call (CreateSA o1) (r_create (serviceAccounts k) o1)"

definition createRole :: "'c kclient \<Rightarrow> Role \<Rightarrow> ('c, Role result) kio" where
  "createRole k o1 = call (CreateRole o1) (r_create (roles k) o1)"

definition createRB :: "'c kclient \<Rightarrow> RoleBinding \<Rightarrow> ('c, RoleBinding result) kio" where
  "createRB k o1 = call (CreateRB o1) (r_create (roleBindings k) o1)"

lemmas kube_calls =
  getPR_def listPR_def createPR_def statusPR_def patchPR_def
  getTR_def listTR_def createTR_def statusTR_def deleteTR_def
  getRO_def listRO_def createRO_def statusRO_def patchRO_def deleteRO_def
  getJob_def createJob_def deleteJob_def getDep_def createDep_def patchDep_def
  getSvc_def createSvc_def getIng_def createIng_def patchIng_def getNs_def createNs_def
  getCM_def createCM_def updateCM_def createSA_def createRole_def createRB_def

text \<open>
  Weakest preconditions of the calls: whatever the server answers, the postcondition holds of the
  transcript with that answer appended.
\<close>

lemma wp_reads [wp_intro]:
  "(\<And>r. Q1 r (es @ [GetPR key r])) \<Longrightarrow> wp (getPR k key) Q1 es"
  "(\<And>r. Q2 r (es @ [ListPR lo r])) \<Longrightarrow> wp (listPR k lo) Q2 es"
  "(\<And>r. Q3 r (es @ [GetTR key r])) \<Longrightarrow> wp (getTR k key) Q3 es"
  "(\<And>r. Q4 r (es @ [ListTR lo r])) \<Longrightarrow> wp (listTR k lo) Q4 es"
  "(\<And>r. Q5 r (es @ [GetRO key r])) \<Longrightarrow> wp (getRO k key) Q5 es"
  "(\<And>r. Q6 r (es @ [ListRO lo r])) \<Longrightarrow> wp (listRO k lo) Q6 es"
  "(\<And>r. Q7 r (es @ [GetJob key r])) \<Longrightarrow> wp (getJob k key) Q7 es"
  "(\<And>r. Q8 r (es @ [GetDep key r])) \<Longrightarrow> wp (getDep k key) Q8 es"
  "(\<And>r. Q9 r (es @ [GetSvc key r])) \<Longrightarrow> wp (getSvc k key) Q9 es"
  "(\<And>r. Q10 r (es @ [GetIng key r])) \<Longrightarrow> wp (getIng k key) Q10 es"
  "(\<And>r. Q11 r (es @ [GetNs key r])) \<Longrightarrow> wp (getNs k key) Q11 es"
  "(\<And>r. Q12 r (es @ [GetCM key r])) \<Longrightarrow> wp (getCM k key) Q12 es"
  by (simp_all add: kube_calls wp_call)

lemma wp_writes [wp_intro]:
  "(\<And>r. Q1 r (es @ [CreatePR pr r])) \<Longrightarrow> wp (createPR k pr) Q1 es"
  "(\<And>r. Q2 r (es @ [StatusPR pr r])) \<Longrightarrow> wp (statusPR k pr) Q2 es"
  "(\<And>r. Q3 r (es @ [PatchPR pr0 pr r])) \<Longrightarrow> wp (patchPR k pr0 pr) Q3 es"
  "(\<And>r. Q4 r (es @ [CreateTR tr r])) \<Longrightarrow> wp (createTR k tr) Q4 es"
  "(\<And>r. Q5 r (es @ [StatusTR tr r])) \<Longrightarrow> wp (statusTR k tr) Q5 es"
  "(\<And>r. Q6 r (es @ [DeleteTR key r])) \<Longrightarrow> wp (deleteTR k key) Q6 es"
  "(\<And>r. Q7 r (es @ [CreateRO ro r])) \<Longrightarrow> wp (createRO k ro) Q7 es"
  "(\<And>r. Q8 r (es @ [StatusRO ro r])) \<Longrightarrow> wp (statusRO k ro) Q8 es"
  "(\<And>r. Q9 r (es @ [PatchRO ro0 ro r])) \<Longrightarrow> wp (patchRO k ro0 ro) Q9 es"
  "(\<And>r. Q10 r (es @ [DeleteRO key r])) \<Longrightarrow> wp (deleteRO k key) Q10 es"
  "(\<And>r. Q11 r (es @ [CreateJob j r])) \<Longrightarrow> wp (createJob k j) Q11 es"
  "(\<And>r. Q12 r (es @ [DeleteJob key r])) \<Longrightarrow> wp (deleteJob k key) Q12 es"
  "(\<And>r. Q13 r (es @ [CreateDep d r])) \<Longrightarrow> wp (createDep k d) Q13 es"
  "(\<And>r. Q14 r (es @ [PatchDep d0 d r])) \<Longrightarrow> wp (patchDep k d0 d) Q14 es"
  "(\<And>r. Q15 r (es @ [CreateSvc svc r])) \<Longrightarrow> wp (createSvc k svc) Q15 es"
  "(\<And>r. Q16 r (es @ [CreateIng ing r])) \<Longrightarrow> wp (createIng k ing) Q16 es"
  "(\<And>r. Q17 r (es @ [PatchIng ing0 ing r])) \<Longrightarrow> wp (patchIng k ing0 ing) Q17 es"
  "(\<And>r. Q18 r (es @ [CreateNs n r])) \<Longrightarrow> wp (createNs k n) Q18 es"
  "(\<And>r. Q19 r (es @ [CreateCM cm r])) \<Longrightarrow> wp (createCM k cm) Q19 es"
  "(\<And>r. Q20 r (es @ [UpdateCM cm r])) \<Longrightarrow> wp (updateCM k cm) Q20 es"
  "(\<And>r. Q21 r (es @ [CreateSA sa r])) \<Longrightarrow> wp (createSA k sa) Q21 es"
  "(\<And>r. Q22 r (es @ [CreateRole ro1 r])) \<Longrightarrow> wp (createRole k ro1) Q22 es"
  "(\<And>r. Q23 r (es @ [CreateRB rb r])) \<Longrightarrow> wp (createRB k rb) Q23 es"
  by (simp_all add: kube_calls wp_call)

end
