(* ===== verification/Dag.thy ===== *)
theory Dag
  imports Kube
begin

text \<open>
  The pure DAG-scheduling half of \<open>src/internal/controller/pipelinerun_controller.go\<close>: which tasks
  of a pipeline are runnable given the task runs that exist. The contract a scheduler owes the
  controller is the locale \<open>dag_scheduler\<close>; \<open>findRunnableTasks\<close> is its interpretation.
\<close>

section \<open>The scheduling functions\<close>

abbreviation tr_Phase :: "TaskRun \<Rightarrow> TaskRunPhase" where
  "tr_Phase tr \<equiv> tst_Phase (tr_Status tr)"

fun dependenciesSatisfied :: "string list \<Rightarrow> TaskRun gomap \<Rightarrow> bool" where
  "dependenciesSatisfied [] existing = True"
| "dependenciesSatisfied (dep # deps) existing =
     (case map_of existing dep of
        None \<Rightarrow> False
      | Some tr \<Rightarrow> if tr_Phase tr \<noteq> TaskRunSucceeded then False
                   else dependenciesSatisfied deps existing)"

fun allTasksSucceeded :: "PipelineTaskSpec list \<Rightarrow> TaskRun gomap \<Rightarrow> bool" where
  "allTasksSucceeded [] existing = True"
| "allTasksSucceeded (t # ts) existing =
     (case map_of existing (pt_Name t) of
        None \<Rightarrow> False
      | Some tr \<Rightarrow> if tr_Phase tr \<noteq> TaskRunSucceeded then False
                   else allTasksSucceeded ts existing)"

fun hasFailedTask :: "TaskRun gomap \<Rightarrow> bool" where
  "hasFailedTask [] = False"
| "hasFailedTask ((_, tr) # rest) = (if tr_Phase tr = TaskRunFailed then True else hasFailedTask rest)"

fun orderIndexFrom :: "int \<Rightarrow> PipelineTaskSpec list \<Rightarrow> string \<Rightarrow> int" where
  "orderIndexFrom i [] name = -1"
| "orderIndexFrom i (t # ts) name = (if pt_Name t = name then i else orderIndexFrom (i + 1) ts name)"

definition orderIndex :: "PipelineTaskSpec list \<Rightarrow> string \<Rightarrow> int" where
  "orderIndex tasks name = orderIndexFrom 0 tasks name"

text \<open>The loop of \<open>serialBlocked\<close> over the tasks; \<open>continue\<close> goes on with the rest.\<close>

fun serialBlockedLoop ::
  "PipelineTaskSpec \<Rightarrow> PipelineTaskSpec list \<Rightarrow> PipelineTaskSpec list \<Rightarrow> TaskRun gomap \<Rightarrow> bool" where
  "serialBlockedLoop t tasks [] existing = False"
| "serialBlockedLoop t tasks (other # rest) existing =
     (if pt_Stage other \<noteq> pt_Stage t \<or> pt_ExecutionMode other \<noteq> ExecutionModeSerial
      then serialBlockedLoop t tasks rest existing
      else if orderIndex tasks (pt_Name other) \<ge> orderIndex tasks (pt_Name t)
      then serialBlockedLoop t tasks rest existing
      else case map_of existing (pt_Name other) of
             None \<Rightarrow> True
           | Some tr \<Rightarrow> if tr_Phase tr \<noteq> TaskRunSucceeded then True
                        else serialBlockedLoop t tasks rest existing)"

definition serialBlocked ::
  "PipelineTaskSpec \<Rightarrow> PipelineTaskSpec list \<Rightarrow> TaskRun gomap \<Rightarrow> bool" where
  "serialBlocked t tasks existing =
     (if pt_Stage t = '''' \<or> pt_ExecutionMode t \<noteq> ExecutionModeSerial then False
      else serialBlockedLoop t tasks tasks existing)"

fun findRunnableLoop ::
  "PipelineTaskSpec list \<Rightarrow> PipelineTaskSpec list \<Rightarrow> TaskRun gomap \<Rightarrow> PipelineTaskSpec list" where
  "findRunnableLoop tasks [] existing = []"
| "findRunnableLoop tasks (t # rest) existing =
     (if map_of existing (pt_Name t) \<noteq> None then findRunnableLoop tasks rest existing
      else if \<not> dependenciesSatisfied (pt_DependsOn t) existing then findRunnableLoop tasks rest existing
      else if serialBlocked t tasks existing then findRunnableLoop tasks rest existing
      else t # findRunnableLoop tasks rest existing)"

definition findRunnableTasks ::
  "PipelineTaskSpec list \<Rightarrow> TaskRun gomap \<Rightarrow> PipelineTaskSpec list" where
  "findRunnableTasks tasks existing = findRunnableLoop tasks tasks existing"

fun findPendingApproval ::
  "PipelineTaskSpec list \<Rightarrow> TaskRun gomap \<Rightarrow> ApprovalStatus option" where
  "findPendingApproval [] existing = None"
| "findPendingApproval (t # ts) existing =
     (if pt_Type t \<noteq> TaskTypeApproval then findPendingApproval ts existing
      else case map_of existing (pt_Name t) of
             None \<Rightarrow> findPendingApproval ts existing
           | Some tr \<Rightarrow>
               if tr_Phase tr \<noteq> TaskRunPending then findPendingApproval ts existing
               else case tst_Approval (tr_Status tr) of
                      Some a \<Rightarrow> Some a
                    | None \<Rightarrow> findPendingApproval ts existing)"

section \<open>What the functions compute\<close>

text \<open>The specification vocabulary: a task name has Succeeded, a task precedes another in its stage.\<close>

definition succeeded :: "TaskRun gomap \<Rightarrow> string \<Rightarrow> bool" where
  "succeeded existing n \<longleftrightarrow>
     (case map_of existing n of None \<Rightarrow> False | Some tr \<Rightarrow> tr_Phase tr = TaskRunSucceeded)"

definition started :: "TaskRun gomap \<Rightarrow> string \<Rightarrow> bool" where
  "started existing n \<longleftrightarrow> map_of existing n \<noteq> None"

definition serial_before ::
  "PipelineTaskSpec list \<Rightarrow> PipelineTaskSpec \<Rightarrow> PipelineTaskSpec \<Rightarrow> bool" where
  "serial_before tasks s t \<longleftrightarrow>
     s \<in> set tasks \<and> pt_Stage t \<noteq> '''' \<and> pt_Stage s = pt_Stage t \<and>
     pt_ExecutionMode s = ExecutionModeSerial \<and> pt_ExecutionMode t = ExecutionModeSerial \<and>
     orderIndex tasks (pt_Name s) < orderIndex tasks (pt_Name t)"

lemma succeeded_started: "succeeded existing n \<Longrightarrow> started existing n"
  by (auto simp: succeeded_def started_def split: option.splits)

lemma dependenciesSatisfied_iff:
  "dependenciesSatisfied deps existing \<longleftrightarrow> (\<forall>d\<in>set deps. succeeded existing d)"
  by (induction deps existing rule: dependenciesSatisfied.induct)
    (auto simp: succeeded_def split: option.splits)

lemma allTasksSucceeded_iff:
  "allTasksSucceeded tasks existing \<longleftrightarrow> (\<forall>t\<in>set tasks. succeeded existing (pt_Name t))"
  by (induction tasks existing rule: allTasksSucceeded.induct)
    (auto simp: succeeded_def split: option.splits)

lemma hasFailedTask_iff: "hasFailedTask existing \<longleftrightarrow> (\<exists>(n, tr)\<in>set existing. tr_Phase tr = TaskRunFailed)"
  by (induction existing rule: hasFailedTask.induct) auto

lemma serialBlockedLoop_iff:
  "serialBlockedLoop t tasks rest existing \<longleftrightarrow>
     (\<exists>s\<in>set rest. pt_Stage s = pt_Stage t \<and> pt_ExecutionMode s = ExecutionModeSerial \<and>
        orderIndex tasks (pt_Name s) < orderIndex tasks (pt_Name t) \<and> \<not> succeeded existing (pt_Name s))"
  by (induction t tasks rest existing rule: serialBlockedLoop.induct)
    (auto simp: succeeded_def split: option.splits)

lemma serialBlocked_iff:
  "serialBlocked t tasks existing \<longleftrightarrow>
     (\<exists>s. serial_before tasks s t \<and> \<not> succeeded existing (pt_Name s))"
  by (auto simp: serialBlocked_def serialBlockedLoop_iff serial_before_def)

lemma findRunnableLoop_filter:
  "findRunnableLoop tasks rest existing =
     filter (\<lambda>t. \<not> started existing (pt_Name t) \<and> dependenciesSatisfied (pt_DependsOn t) existing \<and>
       \<not> serialBlocked t tasks existing) rest"
  by (induction tasks rest existing rule: findRunnableLoop.induct) (auto simp: started_def)

lemma findPendingApproval_SomeD:
  "findPendingApproval tasks existing = Some a \<Longrightarrow>
     \<exists>t tr. t \<in> set tasks \<and> pt_Type t = TaskTypeApproval \<and> map_of existing (pt_Name t) = Some tr \<and>
       tr_Phase tr = TaskRunPending \<and> tst_Approval (tr_Status tr) = Some a"
  by (induction tasks existing rule: findPendingApproval.induct)
    (auto split: if_splits option.splits)

lemma findPendingApproval_NoneD:
  "findPendingApproval tasks existing = None \<Longrightarrow> t \<in> set tasks \<Longrightarrow> pt_Type t = TaskTypeApproval \<Longrightarrow>
     map_of existing (pt_Name t) = Some tr \<Longrightarrow> tr_Phase tr = TaskRunPending \<Longrightarrow>
     tst_Approval (tr_Status tr) = None"
  by (induction tasks existing rule: findPendingApproval.induct)
    (auto split: if_splits option.splits)

subsection \<open>Declaration order\<close>

lemma orderIndexFrom_ge: "orderIndexFrom i tasks n = -1 \<or> orderIndexFrom i tasks n \<ge> i"
proof (induction i tasks n rule: orderIndexFrom.induct)
  case (2 i t ts name)
  then show ?case by auto
qed simp

lemma orderIndexFrom_mem: "0 \<le> i \<Longrightarrow> orderIndexFrom i tasks n \<noteq> -1 \<longleftrightarrow> n \<in> pt_Name ` set tasks"
  by (induction i tasks n rule: orderIndexFrom.induct) auto

lemma orderIndexFrom_inj:
  "0 \<le> i \<Longrightarrow> n \<in> pt_Name ` set tasks \<Longrightarrow> orderIndexFrom i tasks n = orderIndexFrom i tasks m \<Longrightarrow> n = m"
proof (induction i tasks n rule: orderIndexFrom.induct)
  case (1 i name)
  then show ?case by simp
next
  case (2 i t ts name)
  have ge: "orderIndexFrom (i + 1) ts k = -1 \<or> orderIndexFrom (i + 1) ts k \<ge> i + 1" for k
    by (rule orderIndexFrom_ge)
  show ?case
  proof (cases "pt_Name t = name \<or> pt_Name t = m")
    case True
    with "2.prems" ge [of name] ge [of m] show ?thesis by (auto split: if_splits)
  next
    case False
    with "2.prems" "2.IH" show ?thesis by auto
  qed
qed

lemma orderIndex_inj:
  "t \<in> set tasks \<Longrightarrow> orderIndex tasks (pt_Name t) = orderIndex tasks m \<Longrightarrow> pt_Name t = m"
  unfolding orderIndex_def by (rule orderIndexFrom_inj [of 0 _ tasks]) auto

lemma serial_before_total:
  assumes "s \<in> set tasks" "t \<in> set tasks" "pt_Name s \<noteq> pt_Name t" "pt_Stage s = pt_Stage t"
    "pt_Stage t \<noteq> ''''" "pt_ExecutionMode s = ExecutionModeSerial" "pt_ExecutionMode t = ExecutionModeSerial"
  shows "serial_before tasks s t \<or> serial_before tasks t s"
  using assms orderIndex_inj [of s tasks "pt_Name t"]
    linorder_cases [of "orderIndex tasks (pt_Name s)" "orderIndex tasks (pt_Name t)"]
  by (auto simp: serial_before_def)

section \<open>The contract of a scheduler\<close>

text \<open>
  What the controller relies on: a pick is a task of the pipeline that has no task run, whose
  dependencies have Succeeded and that no earlier Serial sibling holds back; and every such task
  is picked.
\<close>

locale dag_scheduler =
  fixes pick :: "PipelineTaskSpec list \<Rightarrow> TaskRun gomap \<Rightarrow> PipelineTaskSpec list"
  assumes pick_task: "t \<in> set (pick tasks ex) \<Longrightarrow> t \<in> set tasks"
    and pick_fresh: "t \<in> set (pick tasks ex) \<Longrightarrow> \<not> started ex (pt_Name t)"
    and pick_deps: "t \<in> set (pick tasks ex) \<Longrightarrow> d \<in> set (pt_DependsOn t) \<Longrightarrow> succeeded ex d"
    and pick_serial: "t \<in> set (pick tasks ex) \<Longrightarrow> serial_before tasks s t \<Longrightarrow> succeeded ex (pt_Name s)"
    and pick_complete:
      "t \<in> set tasks \<Longrightarrow> \<not> started ex (pt_Name t) \<Longrightarrow> \<forall>d\<in>set (pt_DependsOn t). succeeded ex d \<Longrightarrow>
       \<forall>s. serial_before tasks s t \<longrightarrow> succeeded ex (pt_Name s) \<Longrightarrow> t \<in> set (pick tasks ex)"

text \<open>
  A step: the scheduler creates a task run for a pick; a task run changes, whatever phase it was in (its reconciler, the hub's
  decisions, reruns, of tasks that have Succeeded too); or it is deleted.
\<close>

inductive dag_step ::
  "(PipelineTaskSpec list \<Rightarrow> TaskRun gomap \<Rightarrow> PipelineTaskSpec list) \<Rightarrow> PipelineTaskSpec list \<Rightarrow>
   TaskRun gomap \<Rightarrow> TaskRun gomap \<Rightarrow> bool"
  for pick tasks where
  dag_create: "t \<in> set (pick tasks ex) \<Longrightarrow> tr_Phase tr = TaskRunUnset \<Longrightarrow>
     dag_step pick tasks ex (AList.update (pt_Name t) tr ex)"
| dag_change: "started ex n \<Longrightarrow> dag_step pick tasks ex (AList.update n tr ex)"
| dag_remove: "started ex n \<Longrightarrow> dag_step pick tasks ex (AList.delete n ex)"

text \<open>
  An execution is the list of the maps it went through, newest first. The scheduler may work on a map that is
  not the newest: then it picks on the old one, and the creation only takes place when the name is free now.
\<close>

inductive dag_execution ::
  "(PipelineTaskSpec list \<Rightarrow> TaskRun gomap \<Rightarrow> PipelineTaskSpec list) \<Rightarrow> PipelineTaskSpec list \<Rightarrow>
   TaskRun gomap list \<Rightarrow> bool"
  for pick tasks where
  dag_init: "dag_execution pick tasks [[]]"
| dag_next: "dag_execution pick tasks (ex # past) \<Longrightarrow> dag_step pick tasks ex ex' \<Longrightarrow> dag_execution pick tasks (ex' # ex # past)"
| dag_stale: "dag_execution pick tasks (ex # past) \<Longrightarrow> seen \<in> set past \<Longrightarrow> t \<in> set (pick tasks seen) \<Longrightarrow>
     \<not> started ex (pt_Name t) \<Longrightarrow> tr_Phase tr = TaskRunUnset \<Longrightarrow>
     dag_execution pick tasks (AList.update (pt_Name t) tr ex # ex # past)"

text \<open>The map a task run was created on: the task had none, its dependencies and its earlier Serial siblings had Succeeded.\<close>

definition dag_ready :: "PipelineTaskSpec list \<Rightarrow> TaskRun gomap \<Rightarrow> PipelineTaskSpec \<Rightarrow> bool" where
  "dag_ready tasks ex t \<longleftrightarrow> \<not> started ex (pt_Name t) \<and> (\<forall>d\<in>set (pt_DependsOn t). succeeded ex d) \<and>
     (\<forall>s. serial_before tasks s t \<longrightarrow> succeeded ex (pt_Name s))"

text \<open>One round of an ideal environment: every pick is created and runs to success.\<close>

definition dag_round ::
  "(PipelineTaskSpec list \<Rightarrow> TaskRun gomap \<Rightarrow> PipelineTaskSpec list) \<Rightarrow> (PipelineTaskSpec \<Rightarrow> TaskRun) \<Rightarrow>
   PipelineTaskSpec list \<Rightarrow> TaskRun gomap \<Rightarrow> TaskRun gomap" where
  "dag_round pick fin tasks ex = foldl (\<lambda>e t. AList.update (pt_Name t) (fin t) e) ex (pick tasks ex)"

fun dag_rounds ::
  "nat \<Rightarrow> (PipelineTaskSpec list \<Rightarrow> TaskRun gomap \<Rightarrow> PipelineTaskSpec list) \<Rightarrow>
   (PipelineTaskSpec \<Rightarrow> TaskRun) \<Rightarrow> PipelineTaskSpec list \<Rightarrow> TaskRun gomap \<Rightarrow> TaskRun gomap" where
  "dag_rounds 0 pick fin tasks ex = ex"
| "dag_rounds (Suc n) pick fin tasks ex = dag_rounds n pick fin tasks (dag_round pick fin tasks ex)"

text \<open>
  A pipeline is ranked when some numbering of its tasks increases along every dependency and along
  every Serial stage; the dependencies name tasks of the pipeline.
\<close>

definition dag_ranked :: "(string \<Rightarrow> nat) \<Rightarrow> PipelineTaskSpec list \<Rightarrow> bool" where
  "dag_ranked rank tasks \<longleftrightarrow>
     (\<forall>t\<in>set tasks. (\<forall>d\<in>set (pt_DependsOn t). d \<in> pt_Name ` set tasks \<and> rank d < rank (pt_Name t)) \<and>
        (\<forall>s. serial_before tasks s t \<longrightarrow> rank (pt_Name s) < rank (pt_Name t)))"

text \<open>Everything started has Succeeded, and the tasks that have not.\<close>

definition dag_settled :: "PipelineTaskSpec list \<Rightarrow> TaskRun gomap \<Rightarrow> bool" where
  "dag_settled tasks ex \<longleftrightarrow> (\<forall>t\<in>set tasks. started ex (pt_Name t) \<longrightarrow> succeeded ex (pt_Name t))"

definition dag_todo :: "PipelineTaskSpec list \<Rightarrow> TaskRun gomap \<Rightarrow> PipelineTaskSpec set" where
  "dag_todo tasks ex = {t \<in> set tasks. \<not> succeeded ex (pt_Name t)}"

lemma started_map_of: "map_of ex n = Some tr \<Longrightarrow> started ex n"
  by (simp add: started_def)

lemma succeeded_map_of: "map_of ex n = Some tr \<Longrightarrow> succeeded ex n \<longleftrightarrow> tr_Phase tr = TaskRunSucceeded"
  by (simp add: succeeded_def)

lemma succeeded_update:
  "succeeded (AList.update n tr ex) m \<longleftrightarrow>
     (if m = n then tr_Phase tr = TaskRunSucceeded else succeeded ex m)"
  by (simp add: succeeded_def update_conv')

lemma started_update: "started (AList.update n tr ex) m \<longleftrightarrow> m = n \<or> started ex m"
  by (simp add: started_def update_conv')

lemma succeeded_delete: "succeeded (AList.delete n ex) m \<longleftrightarrow> m \<noteq> n \<and> succeeded ex m"
  by (simp add: succeeded_def delete_conv')

lemma started_delete: "started (AList.delete n ex) m \<longleftrightarrow> m \<noteq> n \<and> started ex m"
  by (simp add: started_def delete_conv')

text \<open>What held of an element of a history and does not hold of the newest one stopped holding somewhere in between.\<close>

lemma stopped_between:
  "seen \<in> set hist \<Longrightarrow> P seen \<Longrightarrow> \<not> P (hd hist) \<Longrightarrow>
   \<exists>xs new old ys. hist = xs @ new # old # ys \<and> seen \<in> set (old # ys) \<and> P old \<and> \<not> P new"
proof (induction hist)
  case (Cons x hs)
  then have "seen \<in> set hs" "hs \<noteq> []" by auto
  show ?case
  proof (cases "P (hd hs)")
    case True
    have hs: "x # hs = [] @ x # hd hs # tl hs" using \<open>hs \<noteq> []\<close> by simp
    have "seen \<in> set (hd hs # tl hs)" using \<open>seen \<in> set hs\<close> \<open>hs \<noteq> []\<close> by simp
    with hs True Cons.prems(3) show ?thesis by (metis list.sel(1))
  next
    case False
    with Cons.IH \<open>seen \<in> set hs\<close> Cons.prems(2) obtain xs new old ys
      where "hs = xs @ new # old # ys" "seen \<in> set (old # ys)" "P old" "\<not> P new" by blast
    then show ?thesis by (metis append_Cons)
  qed
qed simp

lemma serial_before_task: "serial_before tasks s t \<Longrightarrow> s \<in> set tasks"
  by (simp add: serial_before_def)

lemma dag_rankedD:
  assumes "dag_ranked rank tasks" "t \<in> set tasks"
  shows "d \<in> set (pt_DependsOn t) \<Longrightarrow> \<exists>u\<in>set tasks. pt_Name u = d"
    and "d \<in> set (pt_DependsOn t) \<Longrightarrow> rank d < rank (pt_Name t)"
    and "serial_before tasks s t \<Longrightarrow> rank (pt_Name s) < rank (pt_Name t)"
  using assms by (fastforce simp: dag_ranked_def)+

lemma dag_round_fold:
  "(\<And>t. tr_Phase (fin t) = TaskRunSucceeded) \<Longrightarrow>
     succeeded (foldl (\<lambda>e t. AList.update (pt_Name t) (fin t) e) ex ts) m \<longleftrightarrow>
       m \<in> pt_Name ` set ts \<or> succeeded ex m"
  by (induction ts arbitrary: ex) (auto simp: succeeded_update)

lemma dag_round_started:
  "started (foldl (\<lambda>e t. AList.update (pt_Name t) (fin t) e) ex ts) m \<longleftrightarrow>
     m \<in> pt_Name ` set ts \<or> started ex m"
  by (induction ts arbitrary: ex) (auto simp: started_update)

context dag_scheduler
begin

lemma pick_ready: "t \<in> set (pick tasks ex) \<Longrightarrow> dag_ready tasks ex t"
  unfolding dag_ready_def using pick_fresh pick_deps pick_serial by blast

text \<open>A task run in an execution was created on a map in which its task was ready.\<close>

lemma execution_born:
  assumes "dag_execution pick tasks hist" "distinct (map pt_Name tasks)"
    and "ex \<in> set hist" "t \<in> set tasks" "started ex (pt_Name t)"
  shows "\<exists>seen\<in>set hist. dag_ready tasks seen t"
  using assms
proof (induction arbitrary: ex rule: dag_execution.induct)
  case dag_init
  then show ?case by (simp add: started_def)
next
  case (dag_next cur past new)
  have same: "u = t" if "u \<in> set tasks" "pt_Name u = pt_Name t" for u
    using that dag_next.prems(1,3) by (simp add: distinct_map inj_on_def)
  show ?case
  proof (cases "ex = new")
    case True
    from dag_next.hyps(2) show ?thesis
    proof cases
      case (dag_create u tr)
      show ?thesis
      proof (cases "pt_Name u = pt_Name t")
        case True
        with same pick_task [OF dag_create(2)] have "u = t" by blast
        with pick_ready [OF dag_create(2)] show ?thesis by auto
      next
        case False
        with dag_next.prems(4) \<open>ex = new\<close> dag_create(1) have "started cur (pt_Name t)" by (simp add: started_update)
        with dag_next.IH [of cur] dag_next.prems show ?thesis by auto
      qed
    next
      case (dag_change n tr)
      with dag_next.prems(4) \<open>ex = new\<close> have "started cur (pt_Name t)" by (auto simp: started_update)
      with dag_next.IH [of cur] dag_next.prems show ?thesis by auto
    next
      case (dag_remove n)
      with dag_next.prems(4) \<open>ex = new\<close> have "started cur (pt_Name t)" by (auto simp: started_delete)
      with dag_next.IH [of cur] dag_next.prems show ?thesis by auto
    qed
  next
    case False
    with dag_next show ?thesis by auto
  qed
next
  case (dag_stale cur past seen u tr)
  show ?case
  proof (cases "ex = AList.update (pt_Name u) tr cur \<and> pt_Name u = pt_Name t")
    case True
    with dag_stale.prems(1,3) pick_task [OF dag_stale.hyps(3)] have "u = t" by (simp add: distinct_map inj_on_def)
    with pick_ready [OF dag_stale.hyps(3)] dag_stale.hyps(2) show ?thesis by auto
  next
    case False
    with dag_stale.prems(2,4) have "\<exists>ex'\<in>set (cur # past). started ex' (pt_Name t)" by (auto simp: started_update)
    with dag_stale.IH dag_stale.prems(1,3) show ?thesis by (meson list.set_intros(2))
  qed
qed

text \<open>Progress: while the started tasks have Succeeded and not all tasks have, some task is picked.\<close>

lemma pick_progress:
  assumes ranked: "dag_ranked rank tasks" and settled: "dag_settled tasks ex"
    and left: "t0 \<in> dag_todo tasks ex"
  shows "\<exists>t. t \<in> set (pick tasks ex) \<and> t \<in> dag_todo tasks ex"
  using left
proof (induction "rank (pt_Name t0)" arbitrary: t0 rule: less_induct)
  case less
  then have t0: "t0 \<in> set tasks" "\<not> succeeded ex (pt_Name t0)" by (simp_all add: dag_todo_def)
  show ?case
  proof (cases "(\<forall>d\<in>set (pt_DependsOn t0). succeeded ex d) \<and>
                (\<forall>s. serial_before tasks s t0 \<longrightarrow> succeeded ex (pt_Name s))")
    case True
    with t0 settled have "t0 \<in> set (pick tasks ex)"
      by (intro pick_complete) (auto simp: dag_settled_def)
    with less.prems show ?thesis by blast
  next
    case False
    then consider (dep) d where "d \<in> set (pt_DependsOn t0)" "\<not> succeeded ex d"
      | (sib) s where "serial_before tasks s t0" "\<not> succeeded ex (pt_Name s)"
      by blast
    then show ?thesis
    proof cases
      case dep
      with dag_rankedD(1,2) [OF ranked t0(1)] obtain t1 where
        "t1 \<in> dag_todo tasks ex" "rank (pt_Name t1) < rank (pt_Name t0)"
        by (auto simp: dag_todo_def)
      with less.hyps show ?thesis by simp
    next
      case sib
      then have "s \<in> dag_todo tasks ex" by (simp add: dag_todo_def serial_before_task)
      with dag_rankedD(3) [OF ranked t0(1) sib(1)] less.hyps show ?thesis by simp
    qed
  qed
qed

lemma dag_round_succeeded:
  assumes "\<And>t. tr_Phase (fin t) = TaskRunSucceeded"
  shows "succeeded (dag_round pick fin tasks ex) m \<longleftrightarrow> m \<in> pt_Name ` set (pick tasks ex) \<or> succeeded ex m"
  by (simp add: dag_round_def dag_round_fold [OF assms])

lemma dag_round_started':
  "started (dag_round pick fin tasks ex) m \<longleftrightarrow> m \<in> pt_Name ` set (pick tasks ex) \<or> started ex m"
  by (simp add: dag_round_def dag_round_started)

lemma round_settled:
  assumes "\<And>t. tr_Phase (fin t) = TaskRunSucceeded" "dag_settled tasks ex"
  shows "dag_settled tasks (dag_round pick fin tasks ex)"
  using assms(2)
  by (auto simp: dag_settled_def dag_round_succeeded [where fin = fin, OF assms(1)] dag_round_started')

lemma round_progress:
  assumes fin: "\<And>t. tr_Phase (fin t) = TaskRunSucceeded"
    and ranked: "dag_ranked rank tasks" and settled: "dag_settled tasks ex"
    and left: "dag_todo tasks ex \<noteq> {}"
  shows "card (dag_todo tasks (dag_round pick fin tasks ex)) < card (dag_todo tasks ex)"
proof (rule psubset_card_mono)
  obtain t where t: "t \<in> set (pick tasks ex)" "t \<in> dag_todo tasks ex"
    using left pick_progress [OF ranked settled] by blast
  then have "t \<notin> dag_todo tasks (dag_round pick fin tasks ex)"
    by (simp add: dag_todo_def dag_round_succeeded [OF fin])
  moreover have "dag_todo tasks (dag_round pick fin tasks ex) \<subseteq> dag_todo tasks ex"
    by (auto simp: dag_todo_def dag_round_succeeded [OF fin])
  ultimately show "dag_todo tasks (dag_round pick fin tasks ex) \<subset> dag_todo tasks ex"
    using t(2) by blast
qed (simp add: dag_todo_def)

lemma rounds_complete:
  assumes fin: "\<And>t. tr_Phase (fin t) = TaskRunSucceeded"
    and ranked: "dag_ranked rank tasks"
  shows "dag_settled tasks ex \<Longrightarrow> card (dag_todo tasks ex) \<le> n \<Longrightarrow>
     dag_todo tasks (dag_rounds n pick fin tasks ex) = {}"
proof (induction n arbitrary: ex)
  case 0
  moreover have "finite (dag_todo tasks ex)" by (simp add: dag_todo_def)
  ultimately show ?case by simp
next
  case (Suc n)
  let ?ex' = "dag_round pick fin tasks ex"
  have "dag_todo tasks ex = {} \<Longrightarrow> dag_todo tasks ?ex' = {}"
    by (simp add: dag_todo_def dag_round_succeeded [OF fin])
  then have "card (dag_todo tasks ?ex') \<le> n"
    using round_progress [where fin = fin, OF fin ranked Suc.prems(1)] Suc.prems(2)
    by (cases "dag_todo tasks ex = {}") simp_all
  then show ?case
    using Suc.IH [OF round_settled [where fin = fin, OF fin Suc.prems(1)]] by simp
qed

lemma rounds_all_succeed:
  assumes "\<And>t. tr_Phase (fin t) = TaskRunSucceeded" "dag_ranked rank tasks"
  shows "allTasksSucceeded tasks (dag_rounds (length tasks) pick fin tasks [])"
proof -
  have "card (dag_todo tasks []) \<le> card (set tasks)"
    by (rule card_mono) (auto simp: dag_todo_def)
  also have "\<dots> \<le> length tasks" by (rule card_length)
  finally have "dag_todo tasks (dag_rounds (length tasks) pick fin tasks []) = {}"
    by (intro rounds_complete [OF assms]) (simp_all add: dag_settled_def started_def)
  then show ?thesis
    by (auto simp: allTasksSucceeded_iff dag_todo_def)
qed

text \<open>
  Names that wait for each other, or for a task that does not exist, never start: \<open>S\<close> is a set of
  names such that every task named in it depends on a name in it.
\<close>

lemma deadlocked_never_start:
  assumes "dag_execution pick tasks hist" "ex \<in> set hist" "n \<in> S"
    and S: "\<And>t. t \<in> set tasks \<Longrightarrow> pt_Name t \<in> S \<Longrightarrow> \<exists>d\<in>set (pt_DependsOn t). d \<in> S"
  shows "\<not> started ex n"
  using assms(1-3)
proof (induction arbitrary: ex n rule: dag_execution.induct)
  case dag_init
  then show ?case by (simp add: started_def)
next
  case (dag_next cur past new)
  have free: "pt_Name u \<notin> S" if u: "u \<in> set (pick tasks cur)" for u
    using S [OF pick_task [OF u]] pick_deps [OF u] dag_next.IH [of cur] succeeded_started by (meson list.set_intros(1))
  from dag_next.hyps(2) have "started new n \<Longrightarrow> started cur n"
    using free dag_next.prems(2) by cases (auto simp: started_update started_delete)
  with dag_next.IH dag_next.prems show ?case by auto
next
  case (dag_stale cur past seen u tr)
  have "pt_Name u \<notin> S"
    using S [OF pick_task [OF dag_stale.hyps(3)]] pick_deps [OF dag_stale.hyps(3)] dag_stale.IH [of seen] dag_stale.hyps(2) succeeded_started
    by (meson list.set_intros(2))
  with dag_stale.IH dag_stale.prems show ?case by (auto simp: started_update)
qed

end

interpretation runnable: dag_scheduler findRunnableTasks
  by unfold_locales
    (auto simp: findRunnableTasks_def findRunnableLoop_filter serialBlocked_iff dependenciesSatisfied_iff)

end
