(* ===== verification/PipelineRun_Controller.thy ===== *)
theory PipelineRun_Controller
  imports Dag
begin

text \<open>
  The stateful half of \<open>src/internal/controller\<close> for pipeline runs: \<open>PipelineRunReconciler\<close>
  (\<open>pipelinerun_controller.go\<close>), the cancel path (\<open>pipelinerun_cancel.go\<close>), the run RBAC
  (\<open>ensure_rbac.go\<close>) and the resync after a reconnect. The reconcilers are programs of the
  transcript monad; their properties hold for every API server.
\<close>

section \<open>Pure helpers\<close>

text \<open>\<open>Conn\<close> is nil or not; \<open>TargetName\<close> identifies the runner towards the hub.\<close>

record PipelineRunReconciler =
  prr_Conn :: bool
  prr_TargetName :: string

definition isTerminalPhase :: "PipelineRunPhase \<Rightarrow> bool" where
  "isTerminalPhase phase \<longleftrightarrow>
     (case phase of
        PipelineRunSucceeded \<Rightarrow> True
      | PipelineRunFailed \<Rightarrow> True
      | PipelineRunCancelled \<Rightarrow> True
      | _ \<Rightarrow> False)"

definition isTerminalTaskPhase :: "TaskRunPhase \<Rightarrow> bool" where
  "isTerminalTaskPhase p \<longleftrightarrow>
     (case p of
        TaskRunSucceeded \<Rightarrow> True
      | TaskRunFailed \<Rightarrow> True
      | TaskRunSkipped \<Rightarrow> True
      | _ \<Rightarrow> False)"

definition rolloutsByName :: "Rollout list \<Rightarrow> Rollout gomap" where
  "rolloutsByName items = index_by (\<lambda>ro. map_get (om_Labels (ro_Meta ro)) ''sdp.io/task-run'') items"

definition rolloutSummaryFor :: "TaskRun \<Rightarrow> Rollout gomap \<Rightarrow> RolloutStatusSummary option" where
  "rolloutSummaryFor tr rolloutMap =
     (if tst_RolloutRef (tr_Status tr) = '''' then None
      else case map_of rolloutMap (om_Name (tr_Meta tr)) of
        None \<Rightarrow> None
      | Some ro \<Rightarrow> Some \<lparr>
          rss_Phase = rst_Phase (ro_Status ro),
          rss_CurrentStepIndex = rst_CurrentStepIndex (ro_Status ro),
          rss_CurrentWeight = rst_CurrentWeight (ro_Status ro),
          rss_WorkloadRef = ros_WorkloadRef (ro_Spec ro),
          rss_Message = rst_Message (ro_Status ro)\<rparr>)"

fun summarizeTasks ::
  "PipelineTaskSpec list \<Rightarrow> TaskRun gomap \<Rightarrow> Rollout gomap \<Rightarrow> TaskRunStatusSummary list" where
  "summarizeTasks [] existing rolloutMap = []"
| "summarizeTasks (t # ts) existing rolloutMap =
     (case map_of existing (pt_Name t) of
        None \<Rightarrow> \<lparr>ts_Name = pt_Name t, ts_TaskRunRef = '''', ts_Phase = TaskRunPending, ts_RetryCount = 0,
                 ts_StartTime = None, ts_CompletionTime = None, ts_Message = '''', ts_Rollout = None\<rparr>
      | Some tr \<Rightarrow> \<lparr>
          ts_Name = pt_Name t,
          ts_TaskRunRef = om_Name (tr_Meta tr),
          ts_Phase = tst_Phase (tr_Status tr),
          ts_RetryCount = tst_RetryCount (tr_Status tr),
          ts_StartTime = tst_StartTime (tr_Status tr),
          ts_CompletionTime = tst_CompletionTime (tr_Status tr),
          ts_Message = tst_Message (tr_Status tr),
          ts_Rollout = rolloutSummaryFor tr rolloutMap\<rparr>)
     # summarizeTasks ts existing rolloutMap"

text \<open>\<open>RetryPolicy\<close>, \<open>Env\<close> and \<open>Resources\<close> are not among the fields the literal sets: they stay zero.\<close>

definition buildTaskRun :: "PipelineRun \<Rightarrow> PipelineTaskSpec \<Rightarrow> TaskRun" where
  "buildTaskRun pr task =
     (let repo = (case pt_Repo task of Some r \<Rightarrow> Some r | None \<Rightarrow> prs_Repo (pr_Spec pr)) in
      \<lparr>tr_Meta = meta0
         \<lparr>om_Name := om_Name (pr_Meta pr) @ ''-'' @ pt_Name task,
          om_Namespace := om_Namespace (pr_Meta pr),
          om_Labels := [''sdp.io/pipeline-run'' \<mapsto> om_Name (pr_Meta pr), ''sdp.io/task'' \<mapsto> pt_Name task]\<rparr>,
       tr_Spec = \<lparr>
         trs_PipelineRunRef = om_Name (pr_Meta pr),
         trs_TaskName = pt_Name task,
         trs_Type = pt_Type task,
         trs_Image = pt_Image task,
         trs_ScriptPath = pt_ScriptPath task,
         trs_ScriptArgs = pt_ScriptArgs task,
         trs_Command = pt_Command task,
         trs_Args = pt_Args task,
         trs_Repo = repo,
         trs_Produces = pt_Produces task,
         trs_Consumes = pt_Consumes task,
         trs_Env = [],
         trs_Resources = no_resources,
         trs_Namespace = prs_TargetNamespace (pr_Spec pr),
         trs_ServiceAccountName = prs_ServiceAccountName (pr_Spec pr),
         trs_RetryPolicy = None,
         trs_TimeoutSeconds = pt_TimeoutSeconds task,
         trs_ApprovalConfig = pt_ApprovalConfig task,
         trs_RolloutSpec = pt_RolloutSpec task,
         trs_ReleaseSpec = pt_ReleaseSpec task,
         trs_Params = prs_Params (pr_Spec pr),
         trs_Privileged = pt_Privileged task\<rparr>,
       tr_Status = task_status0\<rparr>)"

section \<open>Status reports\<close>

definition statusPayload :: "string \<Rightarrow> PipelineRun \<Rightarrow> StatusUpdatePayload" where
  "statusPayload targetName pr =
     \<lparr>su_TargetID = targetName,
      su_PipelineRunName = om_Name (pr_Meta pr),
      su_PipelineRunNamespace = om_Namespace (pr_Meta pr),
      su_Phase = pst_Phase (pr_Status pr),
      su_Message = pst_Message (pr_Status pr),
      su_StartTime = pst_StartTime (pr_Status pr),
      su_CompletionTime = pst_CompletionTime (pr_Status pr),
      su_Tasks = pst_Tasks (pr_Status pr)\<rparr>"

text \<open>The goroutine that hands the frame to the connector is the effect \<open>ReportStatus\<close>.\<close>

definition reportStatus :: "PipelineRunReconciler \<Rightarrow> PipelineRun \<Rightarrow> ('c, unit) kio" where
  "reportStatus r pr =
     (if \<not> prr_Conn r then ret ()
      else emit (ReportStatus (statusPayload (prr_TargetName r) pr)))"

text \<open>
  \<open>Status().Update\<close> decodes the server's answer into \<open>pr\<close>, so the report and the caller see it:
  the result carries the object.
\<close>

definition updateStatus ::
  "'c kclient \<Rightarrow> PipelineRunReconciler \<Rightarrow> PipelineRun \<Rightarrow> ('c, PipelineRun result) kio" where
  "updateStatus k r pr = do {
     res \<leftarrow> statusPR k pr;
     case res of
       Inl err \<Rightarrow> ret (Inl err)
     | Inr pr' \<Rightarrow> do { reportStatus r pr'; ret (Inr pr') }
   }"

section \<open>Run RBAC\<close>

definition deployRoleRules :: "PolicyRule list" where
  "deployRoleRules =
     (let verbs = [''get'', ''list'', ''watch'', ''create'', ''update'', ''patch'', ''delete''] in
      [\<lparr>rule_APIGroups = [''apps''], rule_Resources = [''deployments''], rule_Verbs = verbs\<rparr>,
       \<lparr>rule_APIGroups = [''''],
        rule_Resources = [''services'', ''configmaps'', ''secrets'', ''pods'', ''pods/log''],
        rule_Verbs = verbs\<rparr>,
       \<lparr>rule_APIGroups = [''networking.k8s.io''], rule_Resources = [''ingresses''], rule_Verbs = verbs\<rparr>])"

definition ensureRunRBAC :: "'c kclient \<Rightarrow> string \<Rightarrow> string \<Rightarrow> ('c, go_error option) kio" where
  "ensureRunRBAC k namespace saName =
     (if saName = '''' \<or> namespace = '''' then ret None
      else do {
        r1 \<leftarrow> createSA k \<lparr>sa_Meta = meta0\<lparr>om_Name := saName, om_Namespace := namespace\<rparr>\<rparr>;
        case errUnless AlreadyExists r1 of
          Some err \<Rightarrow> ret (Some err)
        | None \<Rightarrow> do {
            r2 \<leftarrow> createRole k
              \<lparr>role_Meta = meta0\<lparr>om_Name := ''sdp-deploy'', om_Namespace := namespace\<rparr>,
               role_Rules = deployRoleRules\<rparr>;
            case errUnless AlreadyExists r2 of
              Some err \<Rightarrow> ret (Some err)
            | None \<Rightarrow> do {
                r3 \<leftarrow> createRB k
                  \<lparr>rb_Meta = meta0\<lparr>om_Name := ''sdp-deploy-'' @ saName, om_Namespace := namespace\<rparr>,
                   rb_RoleRef = (''rbac.authorization.k8s.io'', ''Role'', ''sdp-deploy''),
                   rb_Subjects = [(''ServiceAccount'', saName, namespace)]\<rparr>;
                ret (errUnless AlreadyExists r3)
              }
          }
      })"

section \<open>Cancellation\<close>

definition clearCancelAnnotations :: "'c kclient \<Rightarrow> PipelineRun \<Rightarrow> ('c, go_error option) kio" where
  "clearCancelAnnotations k pr =
     (let hasRequested = om_Annotations (pr_Meta pr) AnnCancelRequested \<noteq> None;
          hasOperator = om_Annotations (pr_Meta pr) AnnCancelOperator \<noteq> None in
      if \<not> hasRequested \<and> \<not> hasOperator then ret None
      else do {
        let pr' = pr\<lparr>pr_Meta := (pr_Meta pr)\<lparr>om_Annotations :=
          (om_Annotations (pr_Meta pr))(AnnCancelRequested := None, AnnCancelOperator := None)\<rparr>\<rparr>;
        res \<leftarrow> patchPR k pr pr';
        ret (errOf res)
      })"

text \<open>What it patches the run to: the two annotations are gone, and nothing else.\<close>

definition cancelCleared :: "PipelineRun \<Rightarrow> PipelineRun" where
  "cancelCleared pr = pr\<lparr>pr_Meta := (pr_Meta pr)\<lparr>om_Annotations :=
     (om_Annotations (pr_Meta pr))(AnnCancelRequested := None, AnnCancelOperator := None)\<rparr>\<rparr>"

abbreviation cancel_annotated :: "PipelineRun \<Rightarrow> bool" where
  "cancel_annotated pr \<equiv> om_Annotations (pr_Meta pr) AnnCancelRequested \<noteq> None \<or>
     om_Annotations (pr_Meta pr) AnnCancelOperator \<noteq> None"

definition cancelledTask :: "gotime \<Rightarrow> string \<Rightarrow> TaskRunStatusSummary \<Rightarrow> TaskRunStatusSummary" where
  "cancelledTask now msg s =
     (if isTerminalTaskPhase (ts_Phase s) then s
      else let s1 = s\<lparr>ts_Message := msg\<rparr> in
        if ts_TaskRunRef s1 = '''' then s1\<lparr>ts_Phase := TaskRunSkipped\<rparr>
        else s1\<lparr>ts_Phase := TaskRunFailed, ts_CompletionTime := Some now\<rparr>)"

definition cancelledTaskSummary ::
  "PipelineTaskSpec list \<Rightarrow> TaskRun gomap \<Rightarrow> gotime \<Rightarrow> string \<Rightarrow> TaskRunStatusSummary list" where
  "cancelledTaskSummary tasks existing now msg = map (cancelledTask now msg) (summarizeTasks tasks existing [])"

definition runListOptions :: "PipelineRun \<Rightarrow> ListOptions" where
  "runListOptions pr =
     \<lparr>lo_Namespace = Some (om_Namespace (pr_Meta pr)),
      lo_Labels = [(''sdp.io/pipeline-run'', om_Name (pr_Meta pr))]\<rparr>"

text \<open>The index of the listed task runs by task name.\<close>

definition existingByName :: "TaskRun list \<Rightarrow> TaskRun gomap" where
  "existingByName items = index_by (\<lambda>tr. trs_TaskName (tr_Spec tr)) items"

fun deleteTaskRuns :: "'c kclient \<Rightarrow> TaskRun list \<Rightarrow> ('c, go_error option) kio" where
  "deleteTaskRuns k [] = ret None"
| "deleteTaskRuns k (tr # trs) = do {
     res \<leftarrow> deleteTR k (meta_key (tr_Meta tr));
     case errUnless NotFound res of
       Some err \<Rightarrow> ret (Some err)
     | None \<Rightarrow> deleteTaskRuns k trs
   }"

text \<open>
  Ranging over the Go map visits its values in an unspecified order: \<open>ord\<close> is the order the runtime
  picks.
\<close>

definition cancelTaskRuns ::
  "'c kclient \<Rightarrow> (TaskRun gomap \<Rightarrow> TaskRun list) \<Rightarrow> PipelineRun \<Rightarrow> ('c, TaskRun gomap result) kio" where
  "cancelTaskRuns k ord pr = do {
     res \<leftarrow> listTR k (runListOptions pr);
     case res of
       Inl err \<Rightarrow> ret (Inl err)
     | Inr items \<Rightarrow> do {
         let existing = existingByName items;
         e \<leftarrow> deleteTaskRuns k (ord existing);
         case e of
           Some err \<Rightarrow> ret (Inl err)
         | None \<Rightarrow> ret (Inr existing)
       }
   }"

definition cancelMessage :: "PipelineRun \<Rightarrow> string" where
  "cancelMessage pr =
     (let operator = map_get (om_Annotations (pr_Meta pr)) AnnCancelOperator in
      if operator \<noteq> '''' then ''cancelled by '' @ operator else ''cancelled'')"

text \<open>The result is \<open>(done, err)\<close>.\<close>

definition applyCancelIfRequested ::
  "'c kclient \<Rightarrow> PipelineRunReconciler \<Rightarrow> (TaskRun gomap \<Rightarrow> TaskRun list) \<Rightarrow> gotime \<Rightarrow> PipelineRun \<Rightarrow>
   ('c, bool \<times> go_error option) kio" where
  "applyCancelIfRequested k r ord now pr =
     (if om_Annotations (pr_Meta pr) AnnCancelRequested = None then ret (False, None)
      else if isTerminalPhase (pst_Phase (pr_Status pr)) then do {
        e \<leftarrow> clearCancelAnnotations k pr;
        ret (True, e)
      }
      else do {
        let msg = cancelMessage pr;
        let pr1 = pr\<lparr>pr_Status := (pr_Status pr)
          \<lparr>pst_Phase := PipelineRunCancelled, pst_CompletionTime := Some now,
           pst_CurrentApproval := None, pst_Message := msg\<rparr>\<rparr>;
        res \<leftarrow> cancelTaskRuns k ord pr1;
        case res of
          Inl err \<Rightarrow> ret (True, Some err)
        | Inr existing \<Rightarrow> do {
            let pr2 = pr1\<lparr>pr_Status := (pr_Status pr1)
              \<lparr>pst_Tasks := cancelledTaskSummary (prs_Tasks (pr_Spec pr1)) existing now msg\<rparr>\<rparr>;
            res2 \<leftarrow> updateStatus k r pr2;
            case res2 of
              Inl err \<Rightarrow> ret (True, Some err)
            | Inr pr3 \<Rightarrow> do {
                e \<leftarrow> clearCancelAnnotations k pr3;
                ret (True, e)
              }
          }
      })"

section \<open>Reconcile\<close>

fun createTaskRuns ::
  "'c kclient \<Rightarrow> PipelineRun \<Rightarrow> PipelineTaskSpec list \<Rightarrow> ('c, go_error option) kio" where
  "createTaskRuns k pr [] = ret None"
| "createTaskRuns k pr (task # tasks) =
     (let tr = buildTaskRun pr task in
      case setControllerReference k ''PipelineRun'' (pr_Meta pr) (tr_Meta tr) of
        Inl err \<Rightarrow> ret (Some err)
      | Inr m \<Rightarrow> do {
          res \<leftarrow> createTR k (tr\<lparr>tr_Meta := m\<rparr>);
          case errUnless AlreadyExists res of
            Some err \<Rightarrow> ret (Some err)
          | None \<Rightarrow> createTaskRuns k pr tasks
        })"

text \<open>The phase the last step of \<open>Reconcile\<close> decides on, written into the run.\<close>

definition advancePhase :: "gotime \<Rightarrow> PipelineRun \<Rightarrow> TaskRun gomap \<Rightarrow> PipelineRun" where
  "advancePhase now pr existing =
     pr\<lparr>pr_Status :=
       (if findRunnableTasks (prs_Tasks (pr_Spec pr)) existing \<noteq> []
        then (pr_Status pr)\<lparr>pst_Phase := PipelineRunRunning\<rparr>
        else if allTasksSucceeded (prs_Tasks (pr_Spec pr)) existing
        then (pr_Status pr)\<lparr>pst_Phase := PipelineRunSucceeded, pst_CompletionTime := Some now\<rparr>
        else pr_Status pr)\<rparr>"

text \<open>The last step of \<open>Reconcile\<close>, from the choice of the runnable tasks on.\<close>

definition scheduleTasks ::
  "'c kclient \<Rightarrow> PipelineRunReconciler \<Rightarrow> gotime \<Rightarrow> PipelineRun \<Rightarrow> TaskRun gomap \<Rightarrow>
   ('c, reconcile_result) kio" where
  "scheduleTasks k r now pr existing = do {
     let runnable = findRunnableTasks (prs_Tasks (pr_Spec pr)) existing;
     e1 \<leftarrow> (if runnable \<noteq> []
           then ensureRunRBAC k (prs_TargetNamespace (pr_Spec pr)) (prs_ServiceAccountName (pr_Spec pr))
           else ret None);
     case e1 of
       Some err \<Rightarrow> ret (0, Some err)
     | None \<Rightarrow> do {
         e2 \<leftarrow> createTaskRuns k pr runnable;
         case e2 of
           Some err \<Rightarrow> ret (0, Some err)
         | None \<Rightarrow> do {
             res \<leftarrow> updateStatus k r (advancePhase now pr existing);
             ret (0, errOf res)
           }
       }
   }"

text \<open>The run with \<open>Status.Tasks\<close> recomputed.\<close>

definition withSummary :: "PipelineRun \<Rightarrow> TaskRun list \<Rightarrow> Rollout list \<Rightarrow> PipelineRun" where
  "withSummary pr items ros =
     pr\<lparr>pr_Status := (pr_Status pr)\<lparr>pst_Tasks :=
       summarizeTasks (prs_Tasks (pr_Spec pr)) (existingByName items) (rolloutsByName ros)\<rparr>\<rparr>"

definition waitApproval :: "PipelineRun \<Rightarrow> ApprovalStatus \<Rightarrow> PipelineRun" where
  "waitApproval pr approval =
     pr\<lparr>pr_Status := (pr_Status pr)
       \<lparr>pst_Phase := PipelineRunWaitingApproval, pst_CurrentApproval := Some approval\<rparr>\<rparr>"

definition noApproval :: "PipelineRun \<Rightarrow> PipelineRun" where
  "noApproval pr = pr\<lparr>pr_Status := (pr_Status pr)\<lparr>pst_CurrentApproval := None\<rparr>\<rparr>"

definition failRun :: "PipelineRun \<Rightarrow> PipelineRun" where
  "failRun pr = pr\<lparr>pr_Status := (pr_Status pr)\<lparr>pst_Phase := PipelineRunFailed\<rparr>\<rparr>"

text \<open>\<open>Reconcile\<close> once the task runs and the rollouts of the run are listed.\<close>

definition reconcileTasks ::
  "'c kclient \<Rightarrow> PipelineRunReconciler \<Rightarrow> gotime \<Rightarrow> PipelineRun \<Rightarrow> TaskRun list \<Rightarrow> Rollout list \<Rightarrow>
   ('c, reconcile_result) kio" where
  "reconcileTasks k r now pr0 items ros =
     (let existing = existingByName items;
          pr = withSummary pr0 items ros in
      case findPendingApproval (prs_Tasks (pr_Spec pr0)) existing of
        Some approval \<Rightarrow> do {
          res \<leftarrow> updateStatus k r (waitApproval pr approval);
          ret (0, errOf res)
        }
      | None \<Rightarrow>
          if hasFailedTask existing then do {
            res \<leftarrow> updateStatus k r (failRun (noApproval pr));
            ret (0, errOf res)
          }
          else scheduleTasks k r now (noApproval pr) existing)"

definition PipelineRun_Reconcile ::
  "'c kclient \<Rightarrow> PipelineRunReconciler \<Rightarrow> (TaskRun gomap \<Rightarrow> TaskRun list) \<Rightarrow> gotime \<Rightarrow> ObjectKey \<Rightarrow>
   ('c, reconcile_result) kio" where
  "PipelineRun_Reconcile k r ord now req = do {
     got \<leftarrow> getPR k req;
     case got of
       Inl err \<Rightarrow> ret (0, ignoreNotFound err)
     | Inr pr0 \<Rightarrow> do {
         (fin, e) \<leftarrow> applyCancelIfRequested k r ord now pr0;
         if e \<noteq> None \<or> fin then ret (0, e)
         else do {
           let pr = (if pst_Phase (pr_Status pr0) = PipelineRunUnset
                     then pr0\<lparr>pr_Status := (pr_Status pr0)\<lparr>pst_Phase := PipelineRunPending\<rparr>\<rparr> else pr0);
           if isTerminalPhase (pst_Phase (pr_Status pr)) then ret (0, None)
           else do {
             listed \<leftarrow> listTR k (runListOptions pr);
             case listed of
               Inl err \<Rightarrow> ret (0, Some err)
             | Inr items \<Rightarrow> do {
                 listedRO \<leftarrow> listRO k (runListOptions pr);
                 case listedRO of
                   Inl err \<Rightarrow> ret (0, Some err)
                 | Inr ros \<Rightarrow> reconcileTasks k r now pr items ros
               }
           }
         }
       }
   }"

section \<open>Resync after a reconnect\<close>

text \<open>
  \<open>Send\<close> of the \<open>statusSender\<close> is the effect \<open>ReportStatus\<close>: its error is only logged.
\<close>

fun resyncLoop :: "string \<Rightarrow> PipelineRun list \<Rightarrow> ('c, unit) kio" where
  "resyncLoop targetName [] = ret ()"
| "resyncLoop targetName (pr # prs) =
     (if isTerminalPhase (pst_Phase (pr_Status pr)) then resyncLoop targetName prs
      else do { emit (ReportStatus (statusPayload targetName pr)); resyncLoop targetName prs })"

definition ResyncAll :: "'c kclient \<Rightarrow> string \<Rightarrow> ('c, go_error option) kio" where
  "ResyncAll k targetName = do {
     res \<leftarrow> listPR k \<lparr>lo_Namespace = None, lo_Labels = [(''sdp.io/target'', targetName)]\<rparr>;
     case res of
       Inl err \<Rightarrow> ret (Some err)
     | Inr items \<Rightarrow> do { resyncLoop targetName items; ret None }
   }"

section \<open>What the operations request\<close>





definition report_events :: "PipelineRunReconciler \<Rightarrow> PipelineRun result \<Rightarrow> effect list" where
  "report_events r ans =
     (case ans of Inl _ \<Rightarrow> []
      | Inr pr \<Rightarrow> if prr_Conn r then [ReportStatus (statusPayload (prr_TargetName r) pr)] else [])"

lemma set_report_events:
  "e \<in> set (report_events r ans) \<longleftrightarrow>
     (\<exists>pr. ans = Inr pr \<and> prr_Conn r \<and> e = ReportStatus (statusPayload (prr_TargetName r) pr))"
  by (auto simp: report_events_def split: sum.splits)

lemma updateStatus_emits:
  "emits (updateStatus k r pr) (\<lambda>res new. new = StatusPR pr res # report_events r res)"
  unfolding updateStatus_def reportStatus_def report_events_def
  by (rule emitsI, (intro wp_intro allI impI)+, auto)

text \<open>
  \<open>creates_for k pr tasks err es\<close>: the events \<open>es\<close> are creations of task runs of \<open>tasks\<close>, owned by
  the run; one that fails (other than with \<open>AlreadyExists\<close>) is what \<open>err\<close> reports, and without an error
  every task of \<open>tasks\<close> has its creation.
\<close>

definition creates_for ::
  "'c kclient \<Rightarrow> PipelineRun \<Rightarrow> PipelineTaskSpec list \<Rightarrow> go_error option \<Rightarrow> effect list \<Rightarrow> bool" where
  "creates_for k pr tasks err es \<longleftrightarrow>
     (\<forall>e\<in>set es. \<exists>task m a. task \<in> set tasks \<and>
        e = CreateTR ((buildTaskRun pr task)\<lparr>tr_Meta := m\<rparr>) a \<and>
        setControllerReference k ''PipelineRun'' (pr_Meta pr) (tr_Meta (buildTaskRun pr task)) = Inr m \<and>
        errUnless AlreadyExists a \<in> {None, err}) \<and>
     (err = None \<longrightarrow> (\<forall>task\<in>set tasks. \<exists>m a.
        CreateTR ((buildTaskRun pr task)\<lparr>tr_Meta := m\<rparr>) a \<in> set es \<and> errUnless AlreadyExists a = None))"

lemma createTaskRuns_emits: "emits (createTaskRuns k pr tasks) (creates_for k pr tasks)"
proof (induction tasks)
  case Nil
  show ?case by (rule emitsI) (auto intro!: wp_intro simp: creates_for_def)
next
  case (Cons task tasks)
  show ?case
    by (rule emitsI)
      (fastforce intro!: wp_intro wp_emits [OF Cons.IH] simp: Let_def creates_for_def split: sum.splits)
qed

definition rbac_event :: "effect \<Rightarrow> bool" where
  "rbac_event e \<longleftrightarrow> (\<exists>o1 a. e = CreateSA o1 a) \<or> (\<exists>o1 a. e = CreateRole o1 a) \<or> (\<exists>o1 a. e = CreateRB o1 a)"

lemma rbac_event_simps [simp]:
  "rbac_event (CreateSA sa a1)" "rbac_event (CreateRole role a2)" "rbac_event (CreateRB rb a3)"
  "\<not> rbac_event (CreateTR tr a4)" "\<not> rbac_event (StatusPR pr a5)" "\<not> rbac_event (ReportStatus su)"
  "\<not> rbac_event (DeleteTR key a6)" "\<not> rbac_event (PatchPR p0 p a7)"
  by (auto simp: rbac_event_def)

lemma ensureRunRBAC_emits:
  "emits (ensureRunRBAC k ns sa) (\<lambda>res new. list_all rbac_event new)"
  unfolding ensureRunRBAC_def
  by (rule emitsI) (auto intro!: wp_intro)

lemma clearCancelAnnotations_emits:
  "emits (clearCancelAnnotations k pr) (\<lambda>res new.
     if cancel_annotated pr then \<exists>a. new = [PatchPR pr (cancelCleared pr) a] \<and> res = errOf a else new = [] \<and> res = None)"
  unfolding clearCancelAnnotations_def Let_def cancelCleared_def [symmetric]
  by (rule emitsI) (auto intro!: wp_intro)

lemma deleteTaskRuns_emits:
  "emits (deleteTaskRuns k trs) (\<lambda>res new. (\<forall>e\<in>set new. \<exists>tr a. tr \<in> set trs \<and> e = DeleteTR (meta_key (tr_Meta tr)) a \<and>
      errUnless NotFound a \<in> {None, res}) \<and>
      (res = None \<longrightarrow> (\<forall>tr\<in>set trs. \<exists>a. DeleteTR (meta_key (tr_Meta tr)) a \<in> set new)))"
proof (induction trs)
  case Nil
  show ?case by (rule emitsI) (auto intro!: wp_intro)
next
  case (Cons tr trs)
  show ?case
    by (rule emitsI) (fastforce intro!: wp_intro wp_emits [OF Cons.IH])
qed

definition deleted_in :: "TaskRun list \<Rightarrow> effect list \<Rightarrow> bool" where
  "deleted_in trs dels \<longleftrightarrow>
     (\<forall>e\<in>set dels. \<exists>tr a. tr \<in> set trs \<and> e = DeleteTR (meta_key (tr_Meta tr)) a)"

definition deleted_all :: "TaskRun list \<Rightarrow> effect list \<Rightarrow> bool" where
  "deleted_all trs dels \<longleftrightarrow> deleted_in trs dels \<and>
     (\<forall>tr\<in>set trs. \<exists>a. DeleteTR (meta_key (tr_Meta tr)) a \<in> set dels)"

lemma report_events_Inl [simp]: "report_events r (Inl e) = []"
  by (simp add: report_events_def)

lemma cancelTaskRuns_emits:
  "emits (cancelTaskRuns k ord pr) (\<lambda>res new.
     (\<exists>err. res = Inl err \<and> new = [ListTR (runListOptions pr) (Inl err)]) \<or>
     (\<exists>items dels. new = ListTR (runListOptions pr) (Inr items) # dels \<and>
        deleted_in (ord (existingByName items)) dels \<and>
        (\<forall>x. res = Inr x \<longrightarrow> x = existingByName items \<and> deleted_all (ord x) dels)))"
  unfolding cancelTaskRuns_def deleted_in_def deleted_all_def
  by (rule emitsI) (fastforce intro!: wp_intro wp_emits [OF deleteTaskRuns_emits] simp: Let_def)

definition cancelled_pr :: "gotime \<Rightarrow> PipelineRun \<Rightarrow> TaskRun list \<Rightarrow> PipelineRun" where
  "cancelled_pr now pr items = pr\<lparr>pr_Status := (pr_Status pr)
     \<lparr>pst_Phase := PipelineRunCancelled, pst_CompletionTime := Some now, pst_CurrentApproval := None,
      pst_Message := cancelMessage pr,
      pst_Tasks := cancelledTaskSummary (prs_Tasks (pr_Spec pr)) (existingByName items) now (cancelMessage pr)\<rparr>\<rparr>"

lemma applyCancel_not_requested:
  "om_Annotations (pr_Meta pr) AnnCancelRequested = None \<Longrightarrow>
     applyCancelIfRequested k r ord now pr = ret (False, None)"
  by (simp add: applyCancelIfRequested_def)

lemma applyCancel_terminal:
  assumes "om_Annotations (pr_Meta pr) AnnCancelRequested \<noteq> None" "isTerminalPhase (pst_Phase (pr_Status pr))"
  shows "emits (applyCancelIfRequested k r ord now pr) (\<lambda>x new. \<exists>a. new = [PatchPR pr (cancelCleared pr) a] \<and> x = (True, errOf a))"
  using assms unfolding applyCancelIfRequested_def
  by (intro emitsI) (auto intro!: wp_intro wp_emits [OF clearCancelAnnotations_emits])

lemma runListOptions_status [simp]: "runListOptions (pr\<lparr>pr_Status := s\<rparr>) = runListOptions pr"
  by (simp add: runListOptions_def)


text \<open>The transcripts of a cancellation, by how far it got.\<close>

inductive cancel_path ::
  "PipelineRunReconciler \<Rightarrow> (TaskRun gomap \<Rightarrow> TaskRun list) \<Rightarrow> gotime \<Rightarrow> PipelineRun \<Rightarrow>
   go_error option \<Rightarrow> effect list \<Rightarrow> bool"
  for r ord now pr where
  cp_list: "cancel_path r ord now pr (Some e) [ListTR (runListOptions pr) (Inl e)]"
| cp_delete: "deleted_in (ord (existingByName items)) dels \<Longrightarrow>
     cancel_path r ord now pr (Some e) (ListTR (runListOptions pr) (Inr items) # dels)"
| cp_status: "deleted_all (ord (existingByName items)) dels \<Longrightarrow>
     cancel_path r ord now pr (Some e)
       (ListTR (runListOptions pr) (Inr items) # dels @ [StatusPR (cancelled_pr now pr items) (Inl e)])"
| cp_keep: "deleted_all (ord (existingByName items)) dels \<Longrightarrow> \<not> cancel_annotated p' \<Longrightarrow>
     cancel_path r ord now pr None
       (ListTR (runListOptions pr) (Inr items) # dels @
        StatusPR (cancelled_pr now pr items) (Inr p') # report_events r (Inr p'))"
| cp_clear: "deleted_all (ord (existingByName items)) dels \<Longrightarrow> cancel_annotated p' \<Longrightarrow>
     cancel_path r ord now pr (errOf a)
       (ListTR (runListOptions pr) (Inr items) # dels @ StatusPR (cancelled_pr now pr items) (Inr p') #
        report_events r (Inr p') @ [PatchPR p' (cancelCleared p') a])"

lemma applyCancel_running:
  assumes "om_Annotations (pr_Meta pr) AnnCancelRequested \<noteq> None" "\<not> isTerminalPhase (pst_Phase (pr_Status pr))"
  shows "emits (applyCancelIfRequested k r ord now pr) (\<lambda>x new. fst x \<and> cancel_path r ord now pr (snd x) new)"
  unfolding applyCancelIfRequested_def Let_def
  by (simp only: assms if_False, intro emitsI wp_intro wp_emits [OF cancelTaskRuns_emits]
      wp_emits [OF updateStatus_emits] wp_emits [OF clearCancelAnnotations_emits])
    (auto intro: cancel_path.intros simp: cancelled_pr_def [symmetric] split: if_splits)


section \<open>The transcripts of Reconcile\<close>

inductive schedule_path ::
  "'c kclient \<Rightarrow> PipelineRunReconciler \<Rightarrow> gotime \<Rightarrow> PipelineRun \<Rightarrow> TaskRun gomap \<Rightarrow>
   go_error option \<Rightarrow> effect list \<Rightarrow> bool"
  for k r now pr existing where
  sp_rbac: "list_all rbac_event rbac \<Longrightarrow> schedule_path k r now pr existing (Some e) rbac"
| sp_create: "list_all rbac_event rbac \<Longrightarrow>
     creates_for k pr (findRunnableTasks (prs_Tasks (pr_Spec pr)) existing) (Some e) creates \<Longrightarrow>
     schedule_path k r now pr existing (Some e) (rbac @ creates)"
| sp_status: "list_all rbac_event rbac \<Longrightarrow>
     creates_for k pr (findRunnableTasks (prs_Tasks (pr_Spec pr)) existing) None creates \<Longrightarrow>
     schedule_path k r now pr existing (errOf a)
       (rbac @ creates @ StatusPR (advancePhase now pr existing) a # report_events r a)"

lemma scheduleTasks_emits:
  "emits (scheduleTasks k r now pr existing)
     (\<lambda>res new. fst res = 0 \<and> schedule_path k r now pr existing (snd res) new)"
  unfolding scheduleTasks_def Let_def
  by (intro emitsI wp_intro wp_emits [OF ensureRunRBAC_emits] wp_emits [OF createTaskRuns_emits]
      wp_emits [OF updateStatus_emits])
    (auto intro: schedule_path.intros sp_status [where rbac = "[]", simplified]
      sp_create [where rbac = "[]", simplified])

inductive tasks_path ::
  "'c kclient \<Rightarrow> PipelineRunReconciler \<Rightarrow> gotime \<Rightarrow> PipelineRun \<Rightarrow> TaskRun list \<Rightarrow> Rollout list \<Rightarrow>
   go_error option \<Rightarrow> effect list \<Rightarrow> bool"
  for k r now pr items ros where
  tp_wait: "findPendingApproval (prs_Tasks (pr_Spec pr)) (existingByName items) = Some approval \<Longrightarrow>
     tasks_path k r now pr items ros (errOf a)
       (StatusPR (waitApproval (withSummary pr items ros) approval) a # report_events r a)"
| tp_fail: "findPendingApproval (prs_Tasks (pr_Spec pr)) (existingByName items) = None \<Longrightarrow>
     hasFailedTask (existingByName items) \<Longrightarrow>
     tasks_path k r now pr items ros (errOf a)
       (StatusPR (failRun (noApproval (withSummary pr items ros))) a # report_events r a)"
| tp_schedule: "findPendingApproval (prs_Tasks (pr_Spec pr)) (existingByName items) = None \<Longrightarrow>
     \<not> hasFailedTask (existingByName items) \<Longrightarrow>
     schedule_path k r now (noApproval (withSummary pr items ros)) (existingByName items) e es \<Longrightarrow>
     tasks_path k r now pr items ros e es"

lemma reconcileTasks_emits:
  "emits (reconcileTasks k r now pr items ros)
     (\<lambda>res new. fst res = 0 \<and> tasks_path k r now pr items ros (snd res) new)"
  unfolding reconcileTasks_def Let_def
  by (intro emitsI wp_intro wp_emits [OF scheduleTasks_emits] wp_emits [OF updateStatus_emits])
    (auto intro: tasks_path.intros)

text \<open>The object \<open>Reconcile\<close> works on: a fresh run is Pending.\<close>

definition defaultPhase :: "PipelineRun \<Rightarrow> PipelineRun" where
  "defaultPhase pr =
     (if pst_Phase (pr_Status pr) = PipelineRunUnset
      then pr\<lparr>pr_Status := (pr_Status pr)\<lparr>pst_Phase := PipelineRunPending\<rparr>\<rparr> else pr)"

abbreviation cancel_requested :: "PipelineRun \<Rightarrow> bool" where
  "cancel_requested pr \<equiv> om_Annotations (pr_Meta pr) AnnCancelRequested \<noteq> None"

inductive run_path ::
  "'c kclient \<Rightarrow> PipelineRunReconciler \<Rightarrow> (TaskRun gomap \<Rightarrow> TaskRun list) \<Rightarrow> gotime \<Rightarrow> ObjectKey \<Rightarrow>
   go_error option \<Rightarrow> effect list \<Rightarrow> bool"
  for k r ord now req where
  rp_get: "run_path k r ord now req (ignoreNotFound e) [GetPR req (Inl e)]"
| rp_cancel_terminal: "cancel_requested pr \<Longrightarrow> isTerminalPhase (pst_Phase (pr_Status pr)) \<Longrightarrow>
     run_path k r ord now req (errOf a) [GetPR req (Inr pr), PatchPR pr (cancelCleared pr) a]"
| rp_cancel: "cancel_requested pr \<Longrightarrow> \<not> isTerminalPhase (pst_Phase (pr_Status pr)) \<Longrightarrow>
     cancel_path r ord now pr e es \<Longrightarrow> run_path k r ord now req e (GetPR req (Inr pr) # es)"
| rp_terminal: "\<not> cancel_requested pr \<Longrightarrow> isTerminalPhase (pst_Phase (pr_Status pr)) \<Longrightarrow>
     run_path k r ord now req None [GetPR req (Inr pr)]"
| rp_list: "\<not> cancel_requested pr \<Longrightarrow> \<not> isTerminalPhase (pst_Phase (pr_Status pr)) \<Longrightarrow>
     run_path k r ord now req (Some e) [GetPR req (Inr pr), ListTR (runListOptions pr) (Inl e)]"
| rp_list_rollouts: "\<not> cancel_requested pr \<Longrightarrow> \<not> isTerminalPhase (pst_Phase (pr_Status pr)) \<Longrightarrow>
     run_path k r ord now req (Some e)
       [GetPR req (Inr pr), ListTR (runListOptions pr) (Inr items), ListRO (runListOptions pr) (Inl e)]"
| rp_tasks: "\<not> cancel_requested pr \<Longrightarrow> \<not> isTerminalPhase (pst_Phase (pr_Status pr)) \<Longrightarrow>
     tasks_path k r now (defaultPhase pr) items ros e es \<Longrightarrow>
     run_path k r ord now req e
       (GetPR req (Inr pr) # ListTR (runListOptions pr) (Inr items) #
        ListRO (runListOptions pr) (Inr ros) # es)"

lemma applyCancel_emits:
  "emits (applyCancelIfRequested k r ord now pr) (\<lambda>(fin, e) new.
     if \<not> cancel_requested pr then \<not> fin \<and> e = None \<and> new = []
     else fin \<and> run_path k r ord now req e (GetPR req (Inr pr) # new))"
proof (cases "cancel_requested pr")
  case False
  then show ?thesis
    by (simp add: applyCancel_not_requested emits_def wp_return)
next
  case True
  show ?thesis
  proof (cases "isTerminalPhase (pst_Phase (pr_Status pr))")
    case fin: True
    show ?thesis
      by (rule emits_mono [OF applyCancel_terminal [OF True fin]]) (use True fin in \<open>auto intro: run_path.intros\<close>)
  next
    case run: False
    show ?thesis
      by (rule emits_mono [OF applyCancel_running [OF True run]]) (use True run in \<open>auto intro: run_path.intros\<close>)
  qed
qed

lemma defaultPhase_terminal [simp]:
  "isTerminalPhase (pst_Phase (pr_Status (defaultPhase pr))) \<longleftrightarrow> isTerminalPhase (pst_Phase (pr_Status pr))"
  by (simp add: defaultPhase_def isTerminalPhase_def)

lemma runListOptions_default [simp]: "runListOptions (defaultPhase pr) = runListOptions pr"
  by (simp add: defaultPhase_def)

lemma PipelineRun_Reconcile_emits:
  "emits (PipelineRun_Reconcile k r ord now req)
     (\<lambda>res new. fst res = 0 \<and> run_path k r ord now req (snd res) new)"
  unfolding PipelineRun_Reconcile_def Let_def defaultPhase_def [symmetric]
  by (intro emitsI wp_intro wp_emits [OF applyCancel_emits [where req = req]]
      wp_emits [OF reconcileTasks_emits])
    (auto intro: run_path.intros split: if_splits)


subsection \<open>Reading the paths\<close>


text \<open>Every transcript of \<open>Reconcile\<close> is one of the paths.\<close>

lemma Reconcile_path:
  "exec (PipelineRun_Reconcile k r ord now req) c = (res, c', es) \<Longrightarrow>
     fst res = 0 \<and> run_path k r ord now req (snd res) es"
  by (rule emits_exec [OF PipelineRun_Reconcile_emits])

lemma set_report_events' [simp]:
  "e \<in> set (report_events r ans) \<longleftrightarrow>
     (\<exists>pr. ans = Inr pr \<and> prr_Conn r \<and> e = ReportStatus (statusPayload (prr_TargetName r) pr))"
  by (rule set_report_events)

lemma list_all_rbac [simp]:
  "list_all rbac_event es \<Longrightarrow> CreateTR tr a \<notin> set es"
  "list_all rbac_event es \<Longrightarrow> StatusPR p b \<notin> set es"
  "list_all rbac_event es \<Longrightarrow> ReportStatus u \<notin> set es"
  by (auto simp: list_all_iff)

lemma creates_for_no_other [simp]:
  "creates_for k pr tasks err es \<Longrightarrow> StatusPR p b \<notin> set es"
  "creates_for k pr tasks err es \<Longrightarrow> ReportStatus u \<notin> set es"
  by (auto simp: creates_for_def)

lemma deleted_in_no_other [simp]:
  "deleted_in trs es \<Longrightarrow> StatusPR p b \<notin> set es"
  "deleted_in trs es \<Longrightarrow> CreateTR tr a \<notin> set es"
  "deleted_in trs es \<Longrightarrow> ReportStatus u \<notin> set es"
  by (auto simp: deleted_in_def)

lemma deleted_all_in [dest]: "deleted_all trs es \<Longrightarrow> deleted_in trs es"
  by (simp add: deleted_all_def)

lemma spec_views [simp]:
  "pr_Spec (noApproval pr) = pr_Spec pr" "pr_Meta (noApproval pr) = pr_Meta pr"
  "pr_Spec (withSummary pr items ros) = pr_Spec pr" "pr_Meta (withSummary pr items ros) = pr_Meta pr"
  "pr_Spec (defaultPhase pr) = pr_Spec pr" "pr_Meta (defaultPhase pr) = pr_Meta pr"
  "pr_Spec (failRun pr) = pr_Spec pr" "pr_Meta (failRun pr) = pr_Meta pr"
  "pr_Spec (waitApproval pr ap) = pr_Spec pr" "pr_Meta (waitApproval pr ap) = pr_Meta pr"
  "pr_Spec (advancePhase now pr ex) = pr_Spec pr" "pr_Meta (advancePhase now pr ex) = pr_Meta pr"
  "pr_Spec (cancelled_pr now pr items) = pr_Spec pr" "pr_Meta (cancelled_pr now pr items) = pr_Meta pr"
  by (simp_all add: noApproval_def withSummary_def defaultPhase_def failRun_def waitApproval_def
      advancePhase_def cancelled_pr_def)

lemma buildTaskRun_view:
  "pr_Spec pr = pr_Spec pr' \<Longrightarrow> pr_Meta pr = pr_Meta pr' \<Longrightarrow> buildTaskRun pr task = buildTaskRun pr' task"
  by (cases "pt_Repo task") (simp_all add: buildTaskRun_def)

lemma buildTaskRun_status [simp]: "tr_Status (buildTaskRun pr task) = task_status0"
  by (simp add: buildTaskRun_def Let_def)

lemma creates_forD:
  "creates_for k pr tasks err es \<Longrightarrow> CreateTR tr a \<in> set es \<Longrightarrow>
     \<exists>task\<in>set tasks. tr_Spec tr = tr_Spec (buildTaskRun pr task) \<and> tr_Status tr = task_status0 \<and>
       errUnless AlreadyExists a \<in> {None, err}"
  by (fastforce simp: creates_for_def)

lemma creates_for_all:
  "creates_for k pr tasks None es \<Longrightarrow> task \<in> set tasks \<Longrightarrow>
     \<exists>tr a. CreateTR tr a \<in> set es \<and> tr_Spec tr = tr_Spec (buildTaskRun pr task) \<and> errUnless AlreadyExists a = None"
  unfolding creates_for_def by (metis TaskRun.select_convs(2) TaskRun.surjective TaskRun.update_convs(1))

lemma schedule_path_create:
  "schedule_path k r now pr ex err es \<Longrightarrow> CreateTR tr a \<in> set es \<Longrightarrow>
     \<exists>task\<in>set (findRunnableTasks (prs_Tasks (pr_Spec pr)) ex). tr_Spec tr = tr_Spec (buildTaskRun pr task) \<and>
       tr_Status tr = task_status0 \<and> errUnless AlreadyExists a \<in> {None, err}"
  by (erule schedule_path.cases) (auto dest!: creates_forD)

lemma tasks_path_create:
  assumes "tasks_path k r now pr items ros err es" "CreateTR tr a \<in> set es"
  shows "findPendingApproval (prs_Tasks (pr_Spec pr)) (existingByName items) = None \<and>
     \<not> hasFailedTask (existingByName items) \<and>
     (\<exists>task\<in>set (findRunnableTasks (prs_Tasks (pr_Spec pr)) (existingByName items)).
        tr_Spec tr = tr_Spec (buildTaskRun pr task) \<and> tr_Status tr = task_status0 \<and>
        errUnless AlreadyExists a \<in> {None, err})"
proof -
  have b: "buildTaskRun (noApproval (withSummary pr items ros)) task = buildTaskRun pr task" for task
    by (rule buildTaskRun_view) simp_all
  from assms show ?thesis
    by cases (auto dest!: schedule_path_create simp: b)
qed

lemma cancel_path_no_create: "cancel_path r ord now pr err es \<Longrightarrow> CreateTR tr a \<notin> set es"
  by (auto elim!: cancel_path.cases dest!: deleted_all_in)

lemma run_path_create:
  assumes "run_path k r ord now req err es" "CreateTR tr a \<in> set es"
  obtains pr items task where "GetPR req (Inr pr) \<in> set es" "ListTR (runListOptions pr) (Inr items) \<in> set es"
    "\<not> cancel_requested pr" "\<not> isTerminalPhase (pst_Phase (pr_Status pr))"
    "findPendingApproval (prs_Tasks (pr_Spec pr)) (existingByName items) = None"
    "\<not> hasFailedTask (existingByName items)"
    "task \<in> set (findRunnableTasks (prs_Tasks (pr_Spec pr)) (existingByName items))"
    "tr_Spec tr = tr_Spec (buildTaskRun pr task)" "tr_Status tr = task_status0"
    "errUnless AlreadyExists a \<in> {None, err}"
  using assms(1)
proof (cases rule: run_path.cases)
  case (rp_tasks pr items ros es')
  have b: "buildTaskRun (defaultPhase pr) task = buildTaskRun pr task" for task
    by (rule buildTaskRun_view) simp_all
  from rp_tasks assms(2) have "CreateTR tr a \<in> set es'" by simp
  from tasks_path_create [OF rp_tasks(4) this] obtain task where
    "findPendingApproval (prs_Tasks (pr_Spec pr)) (existingByName items) = None"
    "\<not> hasFailedTask (existingByName items)"
    "task \<in> set (findRunnableTasks (prs_Tasks (pr_Spec pr)) (existingByName items))"
    "tr_Spec tr = tr_Spec (buildTaskRun pr task)" "tr_Status tr = task_status0"
    "errUnless AlreadyExists a \<in> {None, err}"
    by (auto simp: b)
  with rp_tasks show ?thesis by (intro that [of pr items task]) simp_all
qed (use assms(2) in \<open>auto dest: cancel_path_no_create\<close>)

subsection \<open>Status writes\<close>

lemma schedule_path_status:
  "schedule_path k r now pr ex err es \<Longrightarrow> StatusPR p a \<in> set es \<Longrightarrow>
     p = advancePhase now pr ex \<and> err = errOf a"
  by (erule schedule_path.cases) auto

text \<open>What a run without a cancel request is persisted as.\<close>

definition decided :: "gotime \<Rightarrow> PipelineRun \<Rightarrow> TaskRun list \<Rightarrow> Rollout list \<Rightarrow> PipelineRun" where
  "decided now pr items ros =
     (case findPendingApproval (prs_Tasks (pr_Spec pr)) (existingByName items) of
        Some ap \<Rightarrow> waitApproval (withSummary pr items ros) ap
      | None \<Rightarrow> if hasFailedTask (existingByName items) then failRun (noApproval (withSummary pr items ros))
          else advancePhase now (noApproval (withSummary pr items ros)) (existingByName items))"

lemma tasks_path_status:
  assumes "tasks_path k r now pr items ros err es" "StatusPR p a \<in> set es"
  shows "err = errOf a \<and> p = decided now pr items ros"
  using assms by cases (auto dest!: schedule_path_status simp: decided_def)

lemma cancel_path_status:
  "cancel_path r ord now pr err es \<Longrightarrow> StatusPR p a \<in> set es \<Longrightarrow>
     \<exists>items. ListTR (runListOptions pr) (Inr items) \<in> set es \<and> p = cancelled_pr now pr items \<and>
       (\<forall>e. a = Inl e \<longrightarrow> err = Some e)"
  by (erule cancel_path.cases) (auto dest!: deleted_all_in)

lemma run_path_GetPR: "run_path k r ord now req err (GetPR req (Inr pr) # es) \<Longrightarrow> cancel_requested pr \<Longrightarrow>
    \<not> isTerminalPhase (pst_Phase (pr_Status pr)) \<Longrightarrow> cancel_path r ord now pr err es"
  by (erule run_path.cases) auto

lemma run_path_tasks:
  assumes "run_path k r ord now req err (GetPR req (Inr pr) # es)" "\<not> cancel_requested pr" "StatusPR p a \<in> set es"
  obtains items ros where "ListTR (runListOptions pr) (Inr items) \<in> set es"
    "\<not> isTerminalPhase (pst_Phase (pr_Status pr))" "p = decided now (defaultPhase pr) items ros" "err = errOf a"
  using assms by (cases rule: run_path.cases) (auto dest!: tasks_path_status)

lemma run_path_terminal:
  assumes "run_path k r ord now req err (GetPR req (Inr pr) # es)" "isTerminalPhase (pst_Phase (pr_Status pr))"
  shows "if cancel_requested pr then \<exists>a. es = [PatchPR pr (cancelCleared pr) a] \<and> err = errOf a else es = [] \<and> err = None"
  using assms by (cases rule: run_path.cases) auto

lemma allTasksSucceeded_none_runnable:
  assumes "allTasksSucceeded tasks ex"
  shows "findRunnableTasks tasks ex = []"
proof (rule ccontr)
  assume "findRunnableTasks tasks ex \<noteq> []"
  then obtain t where "t \<in> set (findRunnableTasks tasks ex)"
    by (cases "findRunnableTasks tasks ex") auto
  with assms show False
    using runnable.pick_task [of t] runnable.pick_fresh [of t] succeeded_started
    unfolding allTasksSucceeded_iff by blast
qed

lemmas decided_defs = decided_def waitApproval_def failRun_def noApproval_def advancePhase_def
  withSummary_def isTerminalPhase_def

lemma decided_succeeded:
  assumes "\<not> isTerminalPhase (pst_Phase (pr_Status pr))"
  shows "pst_Phase (pr_Status (decided now pr items ros)) = PipelineRunSucceeded \<longleftrightarrow>
      findPendingApproval (prs_Tasks (pr_Spec pr)) (existingByName items) = None \<and>
      \<not> hasFailedTask (existingByName items) \<and> allTasksSucceeded (prs_Tasks (pr_Spec pr)) (existingByName items)"
  using assms allTasksSucceeded_none_runnable
  by (cases "findPendingApproval (prs_Tasks (pr_Spec pr)) (existingByName items)") (auto simp: decided_defs)

lemma decided_failed:
  assumes "\<not> isTerminalPhase (pst_Phase (pr_Status pr))"
  shows "pst_Phase (pr_Status (decided now pr items ros)) = PipelineRunFailed \<longleftrightarrow>
      findPendingApproval (prs_Tasks (pr_Spec pr)) (existingByName items) = None \<and>
      hasFailedTask (existingByName items)"
  using assms
  by (cases "findPendingApproval (prs_Tasks (pr_Spec pr)) (existingByName items)") (auto simp: decided_defs)

lemma decided_not_cancelled:
  assumes "\<not> isTerminalPhase (pst_Phase (pr_Status pr))"
  shows "pst_Phase (pr_Status (decided now pr items ros)) \<noteq> PipelineRunCancelled"
  using assms
  by (cases "findPendingApproval (prs_Tasks (pr_Spec pr)) (existingByName items)") (auto simp: decided_defs)

lemma decided_completion:
  assumes "\<not> isTerminalPhase (pst_Phase (pr_Status pr))"
    "pst_Phase (pr_Status (decided now pr items ros)) = PipelineRunSucceeded"
  shows "pst_CompletionTime (pr_Status (decided now pr items ros)) = Some now"
  using assms
  by (cases "findPendingApproval (prs_Tasks (pr_Spec pr)) (existingByName items)")
    (auto simp: decided_defs split: if_splits)

lemma decided_waiting:
  assumes "findPendingApproval (prs_Tasks (pr_Spec pr)) (existingByName items) = Some ap"
  shows "pst_Phase (pr_Status (decided now pr items ros)) = PipelineRunWaitingApproval \<and>
    pst_CurrentApproval (pr_Status (decided now pr items ros)) = Some ap"
  using assms by (simp add: decided_defs)

lemma decided_running:
  assumes "findPendingApproval (prs_Tasks (pr_Spec pr)) (existingByName items) = None"
    "\<not> hasFailedTask (existingByName items)"
    "findRunnableTasks (prs_Tasks (pr_Spec pr)) (existingByName items) \<noteq> []"
  shows "pst_Phase (pr_Status (decided now pr items ros)) = PipelineRunRunning"
  using assms by (simp add: decided_defs)

text \<open>A report is that of a persisted status.\<close>

lemma cancel_path_report:
  "cancel_path r ord now pr err es \<Longrightarrow> ReportStatus u \<in> set es \<Longrightarrow>
     \<exists>p p'. StatusPR p (Inr p') \<in> set es \<and> prr_Conn r \<and> u = statusPayload (prr_TargetName r) p'"
  by (erule cancel_path.cases) (auto dest!: deleted_all_in)

lemma schedule_path_report:
  "schedule_path k r now pr ex err es \<Longrightarrow> ReportStatus u \<in> set es \<Longrightarrow>
     \<exists>p p'. StatusPR p (Inr p') \<in> set es \<and> prr_Conn r \<and> u = statusPayload (prr_TargetName r) p'"
  by (erule schedule_path.cases) auto

lemma tasks_path_report:
  assumes "tasks_path k r now pr items ros err es" "ReportStatus u \<in> set es"
  shows "\<exists>p p'. StatusPR p (Inr p') \<in> set es \<and> prr_Conn r \<and> u = statusPayload (prr_TargetName r) p'"
  using assms by cases (auto dest!: schedule_path_report)

lemma run_path_report:
  assumes "run_path k r ord now req err es" "ReportStatus u \<in> set es"
  shows "\<exists>p p'. StatusPR p (Inr p') \<in> set es \<and> prr_Conn r \<and> u = statusPayload (prr_TargetName r) p'"
  using assms by cases (auto dest!: cancel_path_report tasks_path_report)

text \<open>The error of a failed status write or creation is the error of the reconcile.\<close>

lemma schedule_path_error:
  "schedule_path k r now pr ex err es \<Longrightarrow> CreateTR tr (Inl e) \<in> set es \<Longrightarrow> e \<noteq> AlreadyExists \<Longrightarrow> err = Some e"
  by (erule schedule_path.cases) (auto dest!: creates_forD)

text \<open>The successful cancellation.\<close>

lemma cancel_path_done:
  assumes "cancel_path r ord now pr None es"
  obtains items dels p' a where "deleted_all (ord (existingByName items)) dels"
    "es = ListTR (runListOptions pr) (Inr items) # dels @ StatusPR (cancelled_pr now pr items) (Inr p') #
       report_events r (Inr p') @ (if cancel_annotated p' then [PatchPR p' (cancelCleared p') (Inr a)] else [])"
  using assms
proof cases
  case (cp_keep items dels p')
  then show ?thesis by (intro that [of items dels p' p']) auto
next
  case (cp_clear items dels p' a)
  then obtain a' where "a = Inr a'" by (cases a) auto
  with cp_clear show ?thesis by (intro that [of items dels p' a']) auto
qed

end
