(* ===== verification/Mem_Api.thy ===== *)
theory Mem_Api
  imports Kube
begin

text \<open>
  A concrete API server: one list of objects per resource. It is the instance of the client
  parameter on which the witnesses run the controllers; no definition that models the source
  mentions it.
\<close>

record Cluster =
  cl_pipelineRuns :: "PipelineRun list"
  cl_taskRuns :: "TaskRun list"
  cl_rollouts :: "Rollout list"
  cl_jobs :: "Job list"
  cl_deployments :: "Deployment list"
  cl_services :: "Service list"
  cl_ingresses :: "Ingress list"
  cl_namespaces :: "Namespace list"
  cl_configMaps :: "ConfigMap list"
  cl_serviceAccounts :: "ServiceAccount list"
  cl_roles :: "Role list"
  cl_roleBindings :: "RoleBinding list"

definition cluster0 :: Cluster where
  "cluster0 = \<lparr>cl_pipelineRuns = [], cl_taskRuns = [], cl_rollouts = [], cl_jobs = [],
     cl_deployments = [], cl_services = [], cl_ingresses = [], cl_namespaces = [],
     cl_configMaps = [], cl_serviceAccounts = [], cl_roles = [], cl_roleBindings = []\<rparr>"

fun mem_find :: "('o \<Rightarrow> ObjectMeta) \<Rightarrow> ObjectKey \<Rightarrow> 'o list \<Rightarrow> 'o option" where
  "mem_find meta key [] = None"
| "mem_find meta key (x # xs) = (if meta_key (meta x) = key then Some x else mem_find meta key xs)"

fun mem_replace :: "('o \<Rightarrow> ObjectMeta) \<Rightarrow> 'o \<Rightarrow> 'o list \<Rightarrow> 'o list" where
  "mem_replace meta y [] = []"
| "mem_replace meta y (x # xs) =
     (if meta_key (meta x) = meta_key (meta y) then y # xs else x # mem_replace meta y xs)"

text \<open>
  \<open>sel\<close> and \<open>upd\<close> select and update the list of the resource; \<open>merge_status new old\<close> is what a
  status update stores, \<open>merge_spec new old\<close> what an update or a patch stores.
\<close>

definition mem_write ::
  "('c \<Rightarrow> 'o list) \<Rightarrow> (('o list \<Rightarrow> 'o list) \<Rightarrow> 'c \<Rightarrow> 'c) \<Rightarrow> ('o \<Rightarrow> ObjectMeta) \<Rightarrow> ('o \<Rightarrow> 'o \<Rightarrow> 'o) \<Rightarrow>
   'o \<Rightarrow> ('c, 'o result) state" where
  "mem_write sel upd meta merge x = State (\<lambda>c.
     case mem_find meta (meta_key (meta x)) (sel c) of
       None \<Rightarrow> (Inl NotFound, c)
     | Some old \<Rightarrow> (Inr (merge x old), upd (mem_replace meta (merge x old)) c))"

definition mem_resource ::
  "('c \<Rightarrow> 'o list) \<Rightarrow> (('o list \<Rightarrow> 'o list) \<Rightarrow> 'c \<Rightarrow> 'c) \<Rightarrow> ('o \<Rightarrow> ObjectMeta) \<Rightarrow>
   ('o \<Rightarrow> 'o \<Rightarrow> 'o) \<Rightarrow> ('o \<Rightarrow> 'o \<Rightarrow> 'o) \<Rightarrow> ('c, 'o) resource" where
  "mem_resource sel upd meta merge_status merge_spec = \<lparr>
     r_get = (\<lambda>key. State (\<lambda>c. (case mem_find meta key (sel c) of None \<Rightarrow> Inl NotFound | Some x \<Rightarrow> Inr x, c))),
     r_list = (\<lambda>lo. State (\<lambda>c. (Inr (filter (\<lambda>x. list_matches lo (meta x)) (sel c)), c))),
     r_create = (\<lambda>x. State (\<lambda>c.
       case mem_find meta (meta_key (meta x)) (sel c) of
         Some _ \<Rightarrow> (Inl AlreadyExists, c)
       | None \<Rightarrow> (Inr x, upd (\<lambda>xs. xs @ [x]) c))),
     r_update = mem_write sel upd meta merge_spec,
     r_status = mem_write sel upd meta merge_status,
     r_patch = (\<lambda>base. mem_write sel upd meta merge_spec),
     r_delete = (\<lambda>key. State (\<lambda>c.
       case mem_find meta key (sel c) of
         None \<Rightarrow> (Inl NotFound, c)
       | Some _ \<Rightarrow> (Inr (), upd (filter (\<lambda>x. meta_key (meta x) \<noteq> key)) c)))\<rparr>"

definition mem_client :: "Cluster kclient" where
  "mem_client = \<lparr>
     pipelineRuns = mem_resource cl_pipelineRuns cl_pipelineRuns_update pr_Meta
       (\<lambda>new old. old\<lparr>pr_Status := pr_Status new\<rparr>) (\<lambda>new old. new\<lparr>pr_Status := pr_Status old\<rparr>),
     taskRuns = mem_resource cl_taskRuns cl_taskRuns_update tr_Meta
       (\<lambda>new old. old\<lparr>tr_Status := tr_Status new\<rparr>) (\<lambda>new old. new\<lparr>tr_Status := tr_Status old\<rparr>),
     rollouts = mem_resource cl_rollouts cl_rollouts_update ro_Meta
       (\<lambda>new old. old\<lparr>ro_Status := ro_Status new\<rparr>) (\<lambda>new old. new\<lparr>ro_Status := ro_Status old\<rparr>),
     jobs = mem_resource cl_jobs cl_jobs_update job_Meta (\<lambda>new old. new) (\<lambda>new old. new),
     deployments = mem_resource cl_deployments cl_deployments_update dep_Meta (\<lambda>new old. new) (\<lambda>new old. new),
     services = mem_resource cl_services cl_services_update svc_Meta (\<lambda>new old. new) (\<lambda>new old. new),
     ingresses = mem_resource cl_ingresses cl_ingresses_update ing_Meta (\<lambda>new old. new) (\<lambda>new old. new),
     namespaces = mem_resource cl_namespaces cl_namespaces_update ns_Meta (\<lambda>new old. new) (\<lambda>new old. new),
     configMaps = mem_resource cl_configMaps cl_configMaps_update cm_Meta (\<lambda>new old. new) (\<lambda>new old. new),
     serviceAccounts = mem_resource cl_serviceAccounts cl_serviceAccounts_update sa_Meta
       (\<lambda>new old. new) (\<lambda>new old. new),
     roles = mem_resource cl_roles cl_roles_update role_Meta (\<lambda>new old. new) (\<lambda>new old. new),
     roleBindings = mem_resource cl_roleBindings cl_roleBindings_update rb_Meta
       (\<lambda>new old. new) (\<lambda>new old. new),
     setControllerReference = (\<lambda>kind owner obj.
       Inr (obj\<lparr>om_OwnerReferences := om_OwnerReferences obj @ [om_Name owner]\<rparr>))\<rparr>"

text \<open>The equations that run a program on the server.\<close>

lemma mem_client_simps:
  "pipelineRuns mem_client = mem_resource cl_pipelineRuns cl_pipelineRuns_update pr_Meta
     (\<lambda>new old. old\<lparr>pr_Status := pr_Status new\<rparr>) (\<lambda>new old. new\<lparr>pr_Status := pr_Status old\<rparr>)"
  "taskRuns mem_client = mem_resource cl_taskRuns cl_taskRuns_update tr_Meta
     (\<lambda>new old. old\<lparr>tr_Status := tr_Status new\<rparr>) (\<lambda>new old. new\<lparr>tr_Status := tr_Status old\<rparr>)"
  "rollouts mem_client = mem_resource cl_rollouts cl_rollouts_update ro_Meta
     (\<lambda>new old. old\<lparr>ro_Status := ro_Status new\<rparr>) (\<lambda>new old. new\<lparr>ro_Status := ro_Status old\<rparr>)"
  "jobs mem_client = mem_resource cl_jobs cl_jobs_update job_Meta (\<lambda>new old. new) (\<lambda>new old. new)"
  "deployments mem_client = mem_resource cl_deployments cl_deployments_update dep_Meta
     (\<lambda>new old. new) (\<lambda>new old. new)"
  "services mem_client = mem_resource cl_services cl_services_update svc_Meta (\<lambda>new old. new) (\<lambda>new old. new)"
  "ingresses mem_client = mem_resource cl_ingresses cl_ingresses_update ing_Meta
     (\<lambda>new old. new) (\<lambda>new old. new)"
  "namespaces mem_client = mem_resource cl_namespaces cl_namespaces_update ns_Meta
     (\<lambda>new old. new) (\<lambda>new old. new)"
  "configMaps mem_client = mem_resource cl_configMaps cl_configMaps_update cm_Meta
     (\<lambda>new old. new) (\<lambda>new old. new)"
  "serviceAccounts mem_client = mem_resource cl_serviceAccounts cl_serviceAccounts_update sa_Meta
     (\<lambda>new old. new) (\<lambda>new old. new)"
  "roles mem_client = mem_resource cl_roles cl_roles_update role_Meta (\<lambda>new old. new) (\<lambda>new old. new)"
  "roleBindings mem_client = mem_resource cl_roleBindings cl_roleBindings_update rb_Meta
     (\<lambda>new old. new) (\<lambda>new old. new)"
  "setControllerReference mem_client =
     (\<lambda>kind owner obj. Inr (obj\<lparr>om_OwnerReferences := om_OwnerReferences obj @ [om_Name owner]\<rparr>))"
  by (simp_all add: mem_client_def)

lemmas run_simps = exec_def run_call kube_calls mem_client_simps mem_resource_def mem_write_def
  cluster0_def list_matches_def meta_key_def meta0_def map_get_def Let_def

text \<open>With this congruence the simplifier runs the calls one after the other.\<close>

lemma bind_weak_cong: "m = m' \<Longrightarrow> State_Monad.bind m f = State_Monad.bind m' f"
  by simp

end
