(* ===== verification/PipelineRun_Props.thy ===== *)
theory PipelineRun_Props
  imports PipelineRun_Controller Mem_Api
begin

text \<open>
  The properties of the pipeline-run controller, over every API server the client parameter can
  stand for, and their witnesses on the in-memory server of theory \<open>Mem_Api\<close>.
\<close>

section \<open>Concrete runs for the witnesses\<close>

definition ex_task :: "string \<Rightarrow> string list \<Rightarrow> PipelineTaskSpec" where
  "ex_task name deps = \<lparr>pt_Name = name, pt_Type = TaskTypeBuild, pt_Stage = '''',
     pt_ExecutionMode = ExecutionModeParallel, pt_Image = ''golang'', pt_ScriptPath = '''',
     pt_ScriptArgs = [], pt_Command = [''make''], pt_Args = [], pt_Repo = None, pt_Produces = [],
     pt_Consumes = [], pt_DependsOn = deps, pt_Privileged = False, pt_RetryPolicy = None,
     pt_TimeoutSeconds = 0, pt_ApprovalConfig = None, pt_RolloutSpec = None, pt_ReleaseSpec = None\<rparr>"

text \<open>A run of two tasks, the second depending on the first.\<close>

definition ex_run :: "PipelineRunPhase \<Rightarrow> (string \<rightharpoonup> string) \<Rightarrow> PipelineRun" where
  "ex_run phase ann = \<lparr>pr_Meta = meta0\<lparr>om_Name := ''r1'', om_Namespace := ''ci'', om_Annotations := ann\<rparr>,
     pr_Spec = \<lparr>prs_PipelineRef = '''', prs_Tasks = [ex_task ''build'' [], ex_task ''ship'' [''build'']],
       prs_Repo = None, prs_Params = [], prs_TenantID = '''', prs_ProjectID = '''',
       prs_EnvironmentID = '''', prs_TargetNamespace = '''', prs_ServiceAccountName = '''',
       prs_TimeoutSeconds = 0, prs_TriggeredBy = ''''\<rparr>,
     pr_Status = run_status0\<lparr>pst_Phase := phase\<rparr>\<rparr>"

definition ex_taskrun :: "string \<Rightarrow> TaskRunPhase \<Rightarrow> TaskRun" where
  "ex_taskrun name phase =
     (let tr = buildTaskRun (ex_run PipelineRunRunning Map.empty) (ex_task name []) in
      tr\<lparr>tr_Status := (tr_Status tr)\<lparr>tst_Phase := phase\<rparr>\<rparr>)"

abbreviation ex_exec :: "PipelineRun \<Rightarrow> TaskRun list \<Rightarrow> reconcile_result \<times> Cluster \<times> effect list" where
  "ex_exec pr trs \<equiv>
     exec (PipelineRun_Reconcile mem_client \<lparr>prr_Conn = True, prr_TargetName = ''t1''\<rparr> (map snd) 5 (okey ''ci'' ''r1''))
       (cluster0\<lparr>cl_pipelineRuns := [pr], cl_taskRuns := trs\<rparr>)"

definition ex_reconcile :: "PipelineRun \<Rightarrow> TaskRun list \<Rightarrow> reconcile_result \<times> Cluster \<times> effect list" where
  "ex_reconcile pr trs = ex_exec pr trs"

lemma ex_reconcile_exec:
  "ex_exec pr trs = (fst (ex_reconcile pr trs), fst (snd (ex_reconcile pr trs)), snd (snd (ex_reconcile pr trs)))"
  by (simp add: ex_reconcile_def)

lemmas ex_simps = ex_reconcile_def ex_run_def ex_task_def ex_taskrun_def run_simps
  PipelineRun_Reconcile_def applyCancelIfRequested_def run_status0_def isTerminalPhase_def
  runListOptions_def reconcileTasks_def existingByName_def withSummary_def rolloutsByName_def
  noApproval_def failRun_def waitApproval_def scheduleTasks_def findRunnableTasks_def serialBlocked_def
  ensureRunRBAC_def buildTaskRun_def updateStatus_def reportStatus_def advancePhase_def task_status0_def
  cancelTaskRuns_def cancelledTaskSummary_def cancelledTask_def cancelMessage_def
  clearCancelAnnotations_def isTerminalTaskPhase_def index_by_def rolloutSummaryFor_def
  AnnCancelRequested_def AnnCancelOperator_def

text \<open>The transcripts of three runs: one that schedules, one that finishes, one that is cancelled.\<close>

definition ex_schedule :: "effect list" where
  "ex_schedule = snd (snd (ex_reconcile (ex_run PipelineRunRunning Map.empty) [ex_taskrun ''build'' TaskRunSucceeded]))"

lemma ex_schedule_creates:
  "\<exists>tr a. CreateTR tr a \<in> set ex_schedule \<and> trs_TaskName (tr_Spec tr) = ''ship''"
  unfolding ex_schedule_def by (simp add: ex_simps)

section \<open>Scheduling\<close>

text \<open>C6: A task run that \<open>Reconcile\<close> asks the API server to create is that of a task of the run it
  read, built by \<open>buildTaskRun\<close>; the run was neither terminal nor being cancelled, no listed task
  run had Failed and no approval was pending; the task had no task run, all its dependencies and
  all earlier tasks of its Serial stage had Succeeded. Creating it is a step of the abstract
  scheduler.\<close>

theorem reconcile_creates_only_runnable:
  assumes "exec (PipelineRun_Reconcile k r ord now req) c = (res, c', es)" "CreateTR tr a \<in> set es"
  shows "\<exists>pr items task. GetPR req (Inr pr) \<in> set es \<and> ListTR (runListOptions pr) (Inr items) \<in> set es \<and>
     \<not> isTerminalPhase (pst_Phase (pr_Status pr)) \<and> om_Annotations (pr_Meta pr) AnnCancelRequested = None \<and>
     task \<in> set (prs_Tasks (pr_Spec pr)) \<and> tr_Spec tr = tr_Spec (buildTaskRun pr task) \<and>
     (\<forall>tr'\<in>snd ` set (existingByName items). tr_Phase tr' \<noteq> TaskRunFailed) \<and>
     \<not> started (existingByName items) (pt_Name task) \<and>
     (\<forall>d\<in>set (pt_DependsOn task). succeeded (existingByName items) d) \<and>
     (\<forall>s. serial_before (prs_Tasks (pr_Spec pr)) s task \<longrightarrow> succeeded (existingByName items) (pt_Name s)) \<and>
     dag_step findRunnableTasks (prs_Tasks (pr_Spec pr)) (existingByName items)
       (AList.update (pt_Name task) tr (existingByName items))"
proof -
  from Reconcile_path [OF assms(1)] have "run_path k r ord now req (snd res) es" by simp
  from this assms(2) obtain pr items task where
    run: "GetPR req (Inr pr) \<in> set es" "ListTR (runListOptions pr) (Inr items) \<in> set es"
    "\<not> cancel_requested pr" "\<not> isTerminalPhase (pst_Phase (pr_Status pr))"
    "\<not> hasFailedTask (existingByName items)"
    and pick: "task \<in> set (findRunnableTasks (prs_Tasks (pr_Spec pr)) (existingByName items))"
    and tr: "tr_Spec tr = tr_Spec (buildTaskRun pr task)" "tr_Status tr = task_status0"
    by (elim run_path_create)
  have "dag_step findRunnableTasks (prs_Tasks (pr_Spec pr)) (existingByName items)
       (AList.update (pt_Name task) tr (existingByName items))"
    using pick tr(2) by (intro dag_create) (simp_all add: task_status0_def)
  with run tr(1) show ?thesis
    using runnable.pick_task [OF pick] runnable.pick_fresh [OF pick] runnable.pick_deps [OF pick]
      runnable.pick_serial [OF pick]
    by (intro exI [of _ pr] exI [of _ items] exI [of _ task]) (auto simp: hasFailedTask_iff)
qed

lemma reconcile_creates_only_runnable_witness:
  "\<exists>tr a pr items task. CreateTR tr a \<in> set ex_schedule \<and> trs_TaskName (tr_Spec tr) = ''ship'' \<and>
     GetPR (okey ''ci'' ''r1'') (Inr pr) \<in> set ex_schedule \<and> task \<in> set (prs_Tasks (pr_Spec pr)) \<and>
     (\<forall>d\<in>set (pt_DependsOn task). succeeded (existingByName items) d)"
proof -
  obtain tr a where c: "CreateTR tr a \<in> set ex_schedule" "trs_TaskName (tr_Spec tr) = ''ship''"
    using ex_schedule_creates by blast
  from reconcile_creates_only_runnable [OF ex_reconcile_exec] c
  show ?thesis unfolding ex_schedule_def by blast
qed

text \<open>The transcript of a reconcile that schedules and ends without an error.\<close>

abbreviation scheduled_view :: "PipelineRun \<Rightarrow> TaskRun list \<Rightarrow> Rollout list \<Rightarrow> PipelineRun" where
  "scheduled_view pr items ros \<equiv> noApproval (withSummary (defaultPhase pr) items ros)"

lemma scheduled_build: "buildTaskRun (scheduled_view pr items ros) t = buildTaskRun pr t"
  by (rule buildTaskRun_view) simp_all

lemma scheduled_transcript:
  assumes "exec (PipelineRun_Reconcile k r ord now req) c = ((0, None), c', GetPR req (Inr pr) # ListTR lo (Inr items) # ListRO lo' (Inr ros) # es)"
    and "om_Annotations (pr_Meta pr) AnnCancelRequested = None"
    and "findPendingApproval (prs_Tasks (pr_Spec pr)) (existingByName items) = None" "\<not> hasFailedTask (existingByName items)"
  shows "\<exists>rbac creates a. creates_for k (scheduled_view pr items ros) (findRunnableTasks (prs_Tasks (pr_Spec pr)) (existingByName items)) None creates \<and>
     es = rbac @ creates @ StatusPR (advancePhase now (scheduled_view pr items ros) (existingByName items)) a # report_events r a"
proof -
  from Reconcile_path [OF assms(1)] have "tasks_path k r now (defaultPhase pr) items ros None es"
    using assms(2) by (auto elim!: run_path.cases)
  then have "schedule_path k r now (scheduled_view pr items ros) (existingByName items) None es"
    using assms(3,4) by (auto elim: tasks_path.cases)
  then show ?thesis
  proof cases
    case (sp_status rbac creates a)
    then show ?thesis by (intro exI [of _ rbac] exI [of _ creates] exI [of _ a]) simp
  qed
qed

text \<open>C7: And it starts all of them. A reconcile of a live run without a cancel request, a failed task or a pending approval
  that ends without an error has requested a task run for every runnable task, none of these requests failed (that the
  name is taken already does not count), and the run it wrote is Running as soon as there was one.\<close>

theorem reconcile_starts_all_runnable:
  assumes "exec (PipelineRun_Reconcile k r ord now req) c = ((0, None), c', GetPR req (Inr pr) # ListTR lo (Inr items) # ListRO lo' (Inr ros) # es)"
    and "om_Annotations (pr_Meta pr) AnnCancelRequested = None"
    and "findPendingApproval (prs_Tasks (pr_Spec pr)) (existingByName items) = None" "\<not> hasFailedTask (existingByName items)"
    and "task \<in> set (findRunnableTasks (prs_Tasks (pr_Spec pr)) (existingByName items))"
  shows "(\<exists>tr a. CreateTR tr a \<in> set es \<and> tr_Spec tr = tr_Spec (buildTaskRun pr task) \<and> (a = Inl AlreadyExists \<or> (\<exists>o1. a = Inr o1))) \<and>
     (\<exists>p x. StatusPR p x \<in> set es \<and> pst_Phase (pr_Status p) = PipelineRunRunning)"
proof -
  obtain rbac creates a where
    creates: "creates_for k (scheduled_view pr items ros) (findRunnableTasks (prs_Tasks (pr_Spec pr)) (existingByName items)) None creates"
    and es: "es = rbac @ creates @ StatusPR (advancePhase now (scheduled_view pr items ros) (existingByName items)) a # report_events r a"
    using scheduled_transcript [OF assms(1-4)] by blast
  from creates_for_all [OF creates assms(5)] obtain tr x where
    tr: "CreateTR tr x \<in> set creates" "tr_Spec tr = tr_Spec (buildTaskRun pr task)" "errUnless AlreadyExists x = None"
    unfolding scheduled_build by blast
  have "findRunnableTasks (prs_Tasks (pr_Spec pr)) (existingByName items) \<noteq> []" using assms(5) by auto
  then have "pst_Phase (pr_Status (advancePhase now (noApproval (withSummary (defaultPhase pr) items ros)) (existingByName items))) = PipelineRunRunning"
    by (simp add: advancePhase_def)
  then show ?thesis using tr es by (auto simp: errUnless_None)
qed

lemma ex_schedule_run:
  "\<exists>c' lo lo' es. ex_reconcile (ex_run PipelineRunRunning Map.empty) [ex_taskrun ''build'' TaskRunSucceeded] =
     ((0, None), c', GetPR (okey ''ci'' ''r1'') (Inr (ex_run PipelineRunRunning Map.empty)) #
        ListTR lo (Inr [ex_taskrun ''build'' TaskRunSucceeded]) # ListRO lo' (Inr []) # es)"
  by (simp add: ex_simps)

lemma reconcile_starts_all_runnable_witness:
  "\<exists>tr a p x. CreateTR tr a \<in> set ex_schedule \<and> tr_Spec tr = tr_Spec (buildTaskRun (ex_run PipelineRunRunning Map.empty) (ex_task ''ship'' [''build''])) \<and>
     StatusPR p x \<in> set ex_schedule \<and> pst_Phase (pr_Status p) = PipelineRunRunning"
proof -
  let ?pr = "ex_run PipelineRunRunning Map.empty" and ?items = "[ex_taskrun ''build'' TaskRunSucceeded]"
  obtain c' lo lo' es where run: "ex_reconcile ?pr ?items =
     ((0, None), c', GetPR (okey ''ci'' ''r1'') (Inr ?pr) # ListTR lo (Inr ?items) # ListRO lo' (Inr []) # es)"
    using ex_schedule_run by blast
  have ex: "ex_exec ?pr ?items = ((0, None), c', GetPR (okey ''ci'' ''r1'') (Inr ?pr) # ListTR lo (Inr ?items) # ListRO lo' (Inr []) # es)"
    using run by (simp add: ex_reconcile_def)
  have h: "om_Annotations (pr_Meta ?pr) AnnCancelRequested = None"
    "findPendingApproval (prs_Tasks (pr_Spec ?pr)) (existingByName ?items) = None" "\<not> hasFailedTask (existingByName ?items)"
    "ex_task ''ship'' [''build''] \<in> set (findRunnableTasks (prs_Tasks (pr_Spec ?pr)) (existingByName ?items))"
    by (simp_all add: ex_simps)
  from reconcile_starts_all_runnable [OF ex h] show ?thesis unfolding ex_schedule_def run by auto
qed

text \<open>Task runs of different runs can share a name: the run \<open>r1-ship\<close> names the task run of its task \<open>x\<close> as the run
  \<open>r1\<close> names that of its task \<open>ship-x\<close>. A run that comes second finds its name taken, takes that for its own earlier
  request, writes Running without an error, and has no task run: here a reconcile leaves the task runs as they are.\<close>

lemma task_run_names_collide:
  assumes "om_Name (pr_Meta pr') = om_Name (pr_Meta pr) @ ''-'' @ s" "om_Namespace (pr_Meta pr') = om_Namespace (pr_Meta pr)"
    and "pt_Name task = s @ ''-'' @ pt_Name task'"
  shows "meta_key (tr_Meta (buildTaskRun pr task)) = meta_key (tr_Meta (buildTaskRun pr' task'))"
  using assms by (simp add: buildTaskRun_def Let_def meta_key_def)

lemma collision_starves_run:
  fixes pr pr' :: PipelineRun
  defines "pr \<equiv> (ex_run PipelineRunRunning Map.empty)\<lparr>pr_Spec := (pr_Spec (ex_run PipelineRunRunning Map.empty))
      \<lparr>prs_Tasks := [ex_task ''ship-x'' []]\<rparr>\<rparr>"
    and "pr' \<equiv> (ex_run PipelineRunRunning Map.empty)\<lparr>pr_Meta := (pr_Meta (ex_run PipelineRunRunning Map.empty))\<lparr>om_Name := ''r1-ship''\<rparr>\<rparr>"
  shows "\<exists>c' es p x. ex_reconcile pr [buildTaskRun pr' (ex_task ''x'' [])] = ((0, None), c', es) \<and>
     cl_taskRuns c' = [buildTaskRun pr' (ex_task ''x'' [])] \<and>
     StatusPR p x \<in> set es \<and> pst_Phase (pr_Status p) = PipelineRunRunning"
  unfolding pr_def pr'_def by (simp add: ex_simps)

section \<open>Phases\<close>

text \<open>C20: Terminal phases are final. Reconciling a run that already Succeeded, Failed or was
  Cancelled creates nothing, deletes nothing and writes no status. Without a cancel request it does
  nothing at all; with one it makes one request, the patch that takes the two cancel annotations off
  and leaves everything else of the run as it was read.\<close>

theorem reconcile_terminal_final:
  assumes "exec (PipelineRun_Reconcile k r ord now req) c = (res, c', GetPR req (Inr pr) # es)"
    and "isTerminalPhase (pst_Phase (pr_Status pr))"
  shows "if om_Annotations (pr_Meta pr) AnnCancelRequested = None then es = [] \<and> res = (0, None)
     else \<exists>a. es = [PatchPR pr (pr\<lparr>pr_Meta := (pr_Meta pr)\<lparr>om_Annotations :=
         (om_Annotations (pr_Meta pr))(AnnCancelRequested := None, AnnCancelOperator := None)\<rparr>\<rparr>) a] \<and> res = (0, errOf a)"
  using Reconcile_path [OF assms(1)] run_path_terminal [OF _ assms(2), of k r ord now req "snd res" es]
  by (cases res) (auto simp: cancelCleared_def)

definition ex_late_cancel :: PipelineRun where
  "ex_late_cancel = ex_run PipelineRunSucceeded [AnnCancelRequested \<mapsto> ''1'']"

lemma ex_late_cancel_run:
  "\<exists>res c' es. ex_exec ex_late_cancel [] = (res, c', GetPR (okey ''ci'' ''r1'') (Inr ex_late_cancel) # es) \<and> es \<noteq> []"
  unfolding ex_late_cancel_def by (simp add: ex_simps)

lemma reconcile_terminal_final_witness:
  "\<exists>res c' p a. ex_exec ex_late_cancel [] = (res, c', [GetPR (okey ''ci'' ''r1'') (Inr ex_late_cancel), PatchPR ex_late_cancel p a]) \<and>
     om_Annotations (pr_Meta p) = Map.empty \<and> pr_Status p = pr_Status ex_late_cancel \<and> res = (0, errOf a)"
proof -
  obtain res c' es where run: "ex_exec ex_late_cancel [] = (res, c', GetPR (okey ''ci'' ''r1'') (Inr ex_late_cancel) # es)"
    using ex_late_cancel_run by blast
  have "isTerminalPhase (pst_Phase (pr_Status ex_late_cancel))"
    and "om_Annotations (pr_Meta ex_late_cancel) = [AnnCancelRequested \<mapsto> ''1'']"
    by (simp_all add: ex_late_cancel_def ex_run_def isTerminalPhase_def run_status0_def)
  with reconcile_terminal_final [OF run] run show ?thesis by (auto simp: fun_eq_iff)
qed

text \<open>C19: The status a run without a cancel request gets. It becomes Succeeded exactly when no
  approval is pending, no listed task run Failed and every task of the run has a Succeeded task
  run (and then its completion time is set), Failed exactly when no approval is pending and some
  listed task run Failed; it is never Cancelled. A pending approval makes it WaitingApproval with
  that approval as \<open>CurrentApproval\<close>.\<close>

theorem reconcile_phase_decision:
  assumes "exec (PipelineRun_Reconcile k r ord now req) c = (res, c', GetPR req (Inr pr) # es)"
    and "om_Annotations (pr_Meta pr) AnnCancelRequested = None" and "StatusPR p a \<in> set es"
  shows "\<exists>items. ListTR (runListOptions pr) (Inr items) \<in> set es \<and>
     (let tasks = prs_Tasks (pr_Spec pr); ex = existingByName items; failed = (\<exists>(n, tr)\<in>set ex. tr_Phase tr = TaskRunFailed)
      in (pst_Phase (pr_Status p) = PipelineRunSucceeded \<longleftrightarrow>
            findPendingApproval tasks ex = None \<and> \<not> failed \<and> (\<forall>t\<in>set tasks. succeeded ex (pt_Name t))) \<and>
         (pst_Phase (pr_Status p) = PipelineRunFailed \<longleftrightarrow> findPendingApproval tasks ex = None \<and> failed) \<and>
         pst_Phase (pr_Status p) \<noteq> PipelineRunCancelled \<and>
         (pst_Phase (pr_Status p) = PipelineRunSucceeded \<longrightarrow> pst_CompletionTime (pr_Status p) = Some now) \<and>
         (\<forall>ap. findPendingApproval tasks ex = Some ap \<longrightarrow>
            pst_Phase (pr_Status p) = PipelineRunWaitingApproval \<and> pst_CurrentApproval (pr_Status p) = Some ap))"
proof -
  have path: "run_path k r ord now req (snd res) (GetPR req (Inr pr) # es)"
    using Reconcile_path [OF assms(1)] by simp
  have nc: "\<not> cancel_requested pr" using assms(2) by simp
  obtain items ros where items: "ListTR (runListOptions pr) (Inr items) \<in> set es"
    "\<not> isTerminalPhase (pst_Phase (pr_Status pr))" "p = decided now (defaultPhase pr) items ros"
    using run_path_tasks [OF path nc assms(3)] by blast
  from items(2) have run: "\<not> isTerminalPhase (pst_Phase (pr_Status (defaultPhase pr)))" by simp
  show ?thesis
    using items(1) decided_succeeded [OF run] decided_failed [OF run] decided_not_cancelled [OF run]
      decided_completion [OF run] decided_waiting [of "defaultPhase pr" items]
    by (intro exI [of _ items]) (simp add: items(3) Let_def hasFailedTask_iff allTasksSucceeded_iff)
qed

definition ex_done :: "TaskRun list" where
  "ex_done = [ex_taskrun ''build'' TaskRunSucceeded, ex_taskrun ''ship'' TaskRunSucceeded]"

lemma ex_done_run:
  "\<exists>res c' es p a. ex_exec (ex_run PipelineRunRunning Map.empty) ex_done =
     (res, c', GetPR (okey ''ci'' ''r1'') (Inr (ex_run PipelineRunRunning Map.empty)) # es) \<and>
     StatusPR p a \<in> set es \<and> pst_Phase (pr_Status p) = PipelineRunSucceeded"
  unfolding ex_done_def by (simp add: ex_simps)

lemma reconcile_phase_decision_witness:
  "\<exists>(p :: PipelineRun) items. pst_Phase (pr_Status p) = PipelineRunSucceeded \<and> pst_CompletionTime (pr_Status p) = Some 5 \<and>
     succeeded (existingByName items) ''ship''"
proof -
  obtain res c' es p a where run: "ex_exec (ex_run PipelineRunRunning Map.empty) ex_done =
     (res, c', GetPR (okey ''ci'' ''r1'') (Inr (ex_run PipelineRunRunning Map.empty)) # es)"
    and p: "StatusPR p a \<in> set es" "pst_Phase (pr_Status p) = PipelineRunSucceeded"
    using ex_done_run by blast
  have nc: "om_Annotations (pr_Meta (ex_run PipelineRunRunning Map.empty)) AnnCancelRequested = None"
    by (simp add: ex_run_def)
  obtain items where
    "\<forall>t\<in>set (prs_Tasks (pr_Spec (ex_run PipelineRunRunning Map.empty))). succeeded (existingByName items) (pt_Name t)"
    "pst_CompletionTime (pr_Status p) = Some 5"
    using reconcile_phase_decision [OF run nc p(1)] p(2) unfolding Let_def by blast
  then have "succeeded (existingByName items) ''ship''"
    by (simp add: ex_run_def ex_task_def)
  with p(2) \<open>pst_CompletionTime (pr_Status p) = Some 5\<close> show ?thesis by blast
qed

section \<open>Cancellation\<close>

lemma ts_Name_summarize: "map ts_Name (summarizeTasks tasks existing ros) = map pt_Name tasks"
  by (induction tasks) (simp_all split: option.splits)

lemma cancelledTask_name [simp]: "ts_Name (cancelledTask now msg s) = ts_Name s"
  by (simp add: cancelledTask_def Let_def)

lemma cancelledTask_terminal [simp]: "isTerminalTaskPhase (ts_Phase (cancelledTask now msg s))"
  by (simp add: cancelledTask_def Let_def isTerminalTaskPhase_def)

text \<open>The task summary of a cancelled run lists every task of the run under its name and in its
  order, each in a terminal phase: a task without a task run is Skipped, one whose task run had
  finished keeps its phase and message, and any other is Failed at the time of the cancellation
  with the cancel message.\<close>

theorem cancelled_summary_terminal:
  "map ts_Name (cancelledTaskSummary tasks existing now msg) = map pt_Name tasks \<and>
   list_all (\<lambda>s. isTerminalTaskPhase (ts_Phase s)) (cancelledTaskSummary tasks existing now msg) \<and>
   list_all2 (\<lambda>t s. case map_of existing (pt_Name t) of
       None \<Rightarrow> ts_Phase s = TaskRunSkipped \<and> ts_Message s = msg
     | Some tr \<Rightarrow>
         if isTerminalTaskPhase (tr_Phase tr)
         then ts_Phase s = tr_Phase tr \<and> ts_Message s = tst_Message (tr_Status tr) \<and>
           ts_CompletionTime s = tst_CompletionTime (tr_Status tr)
         else if om_Name (tr_Meta tr) = '''' then ts_Phase s = TaskRunSkipped \<and> ts_Message s = msg
         else ts_Phase s = TaskRunFailed \<and> ts_CompletionTime s = Some now \<and> ts_Message s = msg)
     tasks (cancelledTaskSummary tasks existing now msg)"
proof (intro conjI)
  show "map ts_Name (cancelledTaskSummary tasks existing now msg) = map pt_Name tasks"
    by (simp add: cancelledTaskSummary_def comp_def ts_Name_summarize)
  show "list_all (\<lambda>s. isTerminalTaskPhase (ts_Phase s)) (cancelledTaskSummary tasks existing now msg)"
    by (simp add: cancelledTaskSummary_def list_all_iff)
  show "list_all2 (\<lambda>t s. case map_of existing (pt_Name t) of
       None \<Rightarrow> ts_Phase s = TaskRunSkipped \<and> ts_Message s = msg
     | Some tr \<Rightarrow>
         if isTerminalTaskPhase (tr_Phase tr)
         then ts_Phase s = tr_Phase tr \<and> ts_Message s = tst_Message (tr_Status tr) \<and>
           ts_CompletionTime s = tst_CompletionTime (tr_Status tr)
         else if om_Name (tr_Meta tr) = '''' then ts_Phase s = TaskRunSkipped \<and> ts_Message s = msg
         else ts_Phase s = TaskRunFailed \<and> ts_CompletionTime s = Some now \<and> ts_Message s = msg)
     tasks (cancelledTaskSummary tasks existing now msg)"
    by (induction tasks)
      (auto simp: cancelledTaskSummary_def cancelledTask_def isTerminalTaskPhase_def Let_def split: option.splits)
qed

text \<open>C12: A cancellation that reports no error makes exactly these requests, in this order. It lists the task runs;
  it requests the deletion of every one of them, and of nothing else (whatever order the runtime ranges over the map
  in); only then it writes the status, which is Cancelled with a completion time and all tasks terminal; with a connection
  it reports the run as the server stored it; and last, when the stored run still has one of the two cancel annotations,
  it patches the run to be the stored one without them, which the server accepts.\<close>

theorem reconcile_cancel_order:
  assumes "exec (PipelineRun_Reconcile k r ord now req) c = (res, c', GetPR req (Inr pr) # es)"
    and "om_Annotations (pr_Meta pr) AnnCancelRequested \<noteq> None"
    and "\<not> isTerminalPhase (pst_Phase (pr_Status pr))" and "snd res = None"
    and "\<And>m. set (ord m) = snd ` set m"
  shows "\<exists>items dels p p' a. es = ListTR (runListOptions pr) (Inr items) # dels @ StatusPR p (Inr p') #
       (if prr_Conn r then [ReportStatus (statusPayload (prr_TargetName r) p')] else []) @
       (if om_Annotations (pr_Meta p') AnnCancelRequested \<noteq> None \<or> om_Annotations (pr_Meta p') AnnCancelOperator \<noteq> None
        then [PatchPR p' (p'\<lparr>pr_Meta := (pr_Meta p')\<lparr>om_Annotations :=
          (om_Annotations (pr_Meta p'))(AnnCancelRequested := None, AnnCancelOperator := None)\<rparr>\<rparr>) (Inr a)] else []) \<and>
     (\<forall>tr\<in>snd ` set (existingByName items). \<exists>x. DeleteTR (meta_key (tr_Meta tr)) x \<in> set dels) \<and>
     (\<forall>e\<in>set dels. \<exists>tr\<in>snd ` set (existingByName items). \<exists>x. e = DeleteTR (meta_key (tr_Meta tr)) x) \<and>
     pr_Meta p = pr_Meta pr \<and> pr_Spec p = pr_Spec pr \<and>
     pst_Phase (pr_Status p) = PipelineRunCancelled \<and> pst_CompletionTime (pr_Status p) = Some now \<and>
     list_all (\<lambda>s. isTerminalTaskPhase (ts_Phase s)) (pst_Tasks (pr_Status p))"
proof -
  have path: "cancel_path r ord now pr None es"
    using Reconcile_path [OF assms(1)] run_path_GetPR [OF _ assms(2,3), of k r ord now req None es] assms(4)
    by simp
  then obtain items dels p' a where es: "deleted_all (ord (existingByName items)) dels"
    "es = ListTR (runListOptions pr) (Inr items) # dels @ StatusPR (cancelled_pr now pr items) (Inr p') #
       report_events r (Inr p') @ (if cancel_annotated p' then [PatchPR p' (cancelCleared p') (Inr a)] else [])"
    by (elim cancel_path_done)
  have dels: "(\<forall>tr\<in>snd ` set (existingByName items). \<exists>x. DeleteTR (meta_key (tr_Meta tr)) x \<in> set dels) \<and>
     (\<forall>e\<in>set dels. \<exists>tr\<in>snd ` set (existingByName items). \<exists>x. e = DeleteTR (meta_key (tr_Meta tr)) x)"
    using es(1) unfolding deleted_all_def deleted_in_def assms(5) by blast
  have p: "pr_Meta (cancelled_pr now pr items) = pr_Meta pr" "pr_Spec (cancelled_pr now pr items) = pr_Spec pr"
    "pst_Phase (pr_Status (cancelled_pr now pr items)) = PipelineRunCancelled"
    "pst_CompletionTime (pr_Status (cancelled_pr now pr items)) = Some now"
    "list_all (\<lambda>s. isTerminalTaskPhase (ts_Phase s)) (pst_Tasks (pr_Status (cancelled_pr now pr items)))"
    by (simp_all add: cancelled_pr_def cancelledTaskSummary_def list_all_iff)
  have report: "report_events r (Inr p') = (if prr_Conn r then [ReportStatus (statusPayload (prr_TargetName r) p')] else [])"
    by (simp add: report_events_def)
  from dels p es(2) show ?thesis unfolding report cancelCleared_def by blast
qed

definition ex_cancel :: PipelineRun where
  "ex_cancel = ex_run PipelineRunRunning [AnnCancelRequested \<mapsto> ''1'', AnnCancelOperator \<mapsto> ''ada'']"

lemma ex_cancel_run:
  "\<exists>res c' es. ex_exec ex_cancel [ex_taskrun ''build'' TaskRunRunning] =
     (res, c', GetPR (okey ''ci'' ''r1'') (Inr ex_cancel) # es) \<and> snd res = None \<and> (\<exists>p0 p2. last es = PatchPR p0 p2 (Inr p2))"
  unfolding ex_cancel_def by (simp add: ex_simps)

lemma reconcile_cancel_order_witness:
  "\<exists>res c' es p a p0 p2. ex_exec ex_cancel [ex_taskrun ''build'' TaskRunRunning] = (res, c', es) \<and>
     StatusPR p a \<in> set es \<and> pst_Phase (pr_Status p) = PipelineRunCancelled \<and> last es = PatchPR p0 p2 (Inr p2) \<and>
     om_Annotations (pr_Meta p2) AnnCancelRequested = None"
proof -
  obtain res c' es p0 p2 where run: "ex_exec ex_cancel [ex_taskrun ''build'' TaskRunRunning] =
     (res, c', GetPR (okey ''ci'' ''r1'') (Inr ex_cancel) # es)" "snd res = None" "last es = PatchPR p0 p2 (Inr p2)"
    using ex_cancel_run by blast
  have "om_Annotations (pr_Meta ex_cancel) AnnCancelRequested \<noteq> None"
    "\<not> isTerminalPhase (pst_Phase (pr_Status ex_cancel))"
    by (simp_all add: ex_cancel_def ex_run_def isTerminalPhase_def run_status0_def)
  from reconcile_cancel_order [OF run(1) this run(2)] obtain items dels p p' a where es:
    "es = ListTR (runListOptions ex_cancel) (Inr items) # dels @ StatusPR p (Inr p') #
       [ReportStatus (statusPayload ''t1'' p')] @
       (if om_Annotations (pr_Meta p') AnnCancelRequested \<noteq> None \<or> om_Annotations (pr_Meta p') AnnCancelOperator \<noteq> None
        then [PatchPR p' (p'\<lparr>pr_Meta := (pr_Meta p')\<lparr>om_Annotations :=
          (om_Annotations (pr_Meta p'))(AnnCancelRequested := None, AnnCancelOperator := None)\<rparr>\<rparr>) (Inr a)] else [])"
    "pst_Phase (pr_Status p) = PipelineRunCancelled"
    by auto
  with run(3) have "om_Annotations (pr_Meta p2) AnnCancelRequested = None"
    by (auto split: if_splits)
  with run es show ?thesis by (intro exI [of _ res] exI [of _ c'] exI [of _ "_ # es"]) auto
qed

section \<open>Reports and errors\<close>

text \<open>C22: What reaches the hub is what the API server stored: a status frame is sent only when a
  connection is configured, and it describes the run exactly as a successful status update of the
  same reconcile answered it.\<close>

theorem reconcile_reports_persisted:
  assumes "exec (PipelineRun_Reconcile k r ord now req) c = (res, c', es)" "ReportStatus u \<in> set es"
  shows "\<exists>p p'. StatusPR p (Inr p') \<in> set es \<and> prr_Conn r \<and> u = statusPayload (prr_TargetName r) p'"
  using Reconcile_path [OF assms(1)] run_path_report [OF _ assms(2)] by blast

lemma reconcile_reports_persisted_witness:
  "\<exists>u p p'. ReportStatus u \<in> set ex_schedule \<and> StatusPR p (Inr p') \<in> set ex_schedule \<and> su_TargetID u = ''t1''"
proof -
  have "\<exists>u. ReportStatus u \<in> set ex_schedule"
    unfolding ex_schedule_def by (simp add: ex_simps)
  then obtain u where u: "ReportStatus u \<in> set ex_schedule" by blast
  from reconcile_reports_persisted [OF ex_reconcile_exec u [unfolded ex_schedule_def]] u
  show ?thesis unfolding ex_schedule_def by (fastforce simp: statusPayload_def)
qed

text \<open>
  The error an answer is, if it is one the reconcile may not pass over: a run or a task run that is gone already and a name that
  is taken already are not.
\<close>

fun refused :: "effect \<Rightarrow> go_error option" where
  "refused (GetPR key a) = errUnless NotFound a"
| "refused (ListTR lo a) = errOf a"
| "refused (ListRO lo a) = errOf a"
| "refused (DeleteTR key a) = errUnless NotFound a"
| "refused (CreateSA sa a) = errUnless AlreadyExists a"
| "refused (CreateRole role a) = errUnless AlreadyExists a"
| "refused (CreateRB rb a) = errUnless AlreadyExists a"
| "refused (CreateTR tr a) = errUnless AlreadyExists a"
| "refused (StatusPR pr a) = errOf a"
| "refused (PatchPR base pr a) = errOf a"
| "refused _ = None"

text \<open>
  \<open>surfaces k err es\<close>: the operation returned \<open>err\<close> because an answer of \<open>es\<close> was refused with it, or because the library could
  not make the run the owner of a task run; and no answer was refused with anything else.
\<close>

definition surfaces :: "'c kclient \<Rightarrow> go_error option \<Rightarrow> effect list \<Rightarrow> bool" where
  "surfaces k err es \<longleftrightarrow> (\<forall>e\<in>set es. \<forall>x. refused e = Some x \<longrightarrow> err = Some x) \<and>
     (\<forall>x. err = Some x \<longrightarrow> (\<exists>e\<in>set es. refused e = Some x) \<or>
        (\<exists>owner ob. setControllerReference k ''PipelineRun'' owner ob = Inl x))"

lemma surfaces_quiet: "\<forall>e\<in>set es. refused e = None \<Longrightarrow> surfaces k None es"
  by (simp add: surfaces_def)

lemma surfaces_None: "surfaces k None es \<longleftrightarrow> (\<forall>e\<in>set es. refused e = None)"
  unfolding surfaces_def by (metis not_None_eq)

lemma surfaces_append: "surfaces k None es1 \<Longrightarrow> surfaces k err es2 \<Longrightarrow> surfaces k err (es1 @ es2)"
  unfolding surfaces_None surfaces_def set_append by (metis Un_iff option.simps(3))

lemma surfaces_Cons: "refused e = None \<Longrightarrow> surfaces k err (e # es) \<longleftrightarrow> surfaces k err es"
  by (simp add: surfaces_def)

lemma surfaces_refused: "refused e = err \<Longrightarrow> surfaces k err [e]"
  by (simp add: surfaces_def)

lemma surfaces_owner: "setControllerReference k ''PipelineRun'' owner ob = Inl x \<Longrightarrow> surfaces k (Some x) []"
  by (auto simp: surfaces_def)

lemma ensureRunRBAC_surfaces: "emits (ensureRunRBAC k ns sa) (surfaces k)"
  unfolding ensureRunRBAC_def
  by (rule emitsI, intro wp_intro allI impI) (simp_all add: surfaces_Cons surfaces_quiet surfaces_refused)

lemma deleteTaskRuns_surfaces: "emits (deleteTaskRuns k trs) (surfaces k)"
proof (induction trs)
  case Nil
  show ?case by (rule emitsI) (auto intro!: wp_intro simp: surfaces_def)
next
  case (Cons tr trs)
  show ?case
    unfolding deleteTaskRuns.simps
    by (rule emitsI, intro wp_intro wp_emits [OF Cons.IH] allI impI) (simp_all add: surfaces_Cons surfaces_refused)
qed

lemma createTaskRuns_surfaces: "emits (createTaskRuns k pr tasks) (surfaces k)"
proof (induction tasks)
  case Nil
  show ?case by (rule emitsI) (auto intro!: wp_intro simp: surfaces_def)
next
  case (Cons task tasks)
  show ?case
    unfolding createTaskRuns.simps Let_def
    by (rule emitsI, intro wp_intro wp_emits [OF Cons.IH] allI impI)
      (auto simp: surfaces_Cons surfaces_refused surfaces_owner)
qed

lemma reports_quiet: "e \<in> set (report_events r a) \<Longrightarrow> refused e = None"
  by auto

lemma updateStatus_surfaces: "emits (updateStatus k r pr) (\<lambda>res. surfaces k (errOf res))"
  by (rule emits_mono [OF updateStatus_emits]) (auto simp: surfaces_def dest: reports_quiet)

lemma clearCancelAnnotations_surfaces: "emits (clearCancelAnnotations k pr) (surfaces k)"
  by (rule emits_mono [OF clearCancelAnnotations_emits]) (auto simp: surfaces_def split: if_splits)

lemma cancelTaskRuns_surfaces: "emits (cancelTaskRuns k ord pr) (\<lambda>res. surfaces k (errOf res))"
  unfolding cancelTaskRuns_def
  by (rule emitsI, intro wp_intro wp_emits [OF deleteTaskRuns_surfaces] allI impI)
    (simp_all add: surfaces_Cons surfaces_refused)

lemma applyCancel_surfaces: "emits (applyCancelIfRequested k r ord now pr) (\<lambda>x. surfaces k (snd x))"
  unfolding applyCancelIfRequested_def Let_def
  by (intro emitsI wp_intro wp_emits [OF cancelTaskRuns_surfaces] wp_emits [OF updateStatus_surfaces]
      wp_emits [OF clearCancelAnnotations_surfaces])
    (auto intro: surfaces_append simp: surfaces_quiet)

lemma scheduleTasks_surfaces: "emits (scheduleTasks k r now pr existing) (\<lambda>res. surfaces k (snd res))"
  unfolding scheduleTasks_def Let_def
  by (intro emitsI wp_intro wp_emits [OF ensureRunRBAC_surfaces] wp_emits [OF createTaskRuns_surfaces]
      wp_emits [OF updateStatus_surfaces])
    (auto intro: surfaces_append)

lemma reconcileTasks_surfaces: "emits (reconcileTasks k r now pr items ros) (\<lambda>res. surfaces k (snd res))"
  unfolding reconcileTasks_def Let_def
  by (intro emitsI wp_intro wp_emits [OF scheduleTasks_surfaces] wp_emits [OF updateStatus_surfaces]) auto

lemma PipelineRun_Reconcile_surfaces: "emits (PipelineRun_Reconcile k r ord now req) (\<lambda>res. surfaces k (snd res))"
  unfolding PipelineRun_Reconcile_def Let_def
  by (intro emitsI wp_intro wp_emits [OF applyCancel_surfaces] wp_emits [OF reconcileTasks_surfaces])
    (auto simp: ignoreNotFound_def surfaces_quiet surfaces_Cons intro!: surfaces_refused surfaces_Cons [THEN iffD2]
      intro: surfaces_append)

text \<open>C21: No failure is swallowed, and none is made up. Whatever call of a reconcile the API server refuses - reading the run, listing
  its task runs or rollouts, creating a service account, a role, a role binding or a task run, deleting a task run, writing
  the status, patching the cancel annotations away - \<open>Reconcile\<close> returns that error (and the work queue retries), save that
  an object that is gone is not an error for a read or a deletion, nor one that is there for a creation. An error it
  returns is the one of such a call, or of making the run the owner of a task run. It never asks to be requeued.\<close>

theorem reconcile_surfaces_errors:
  assumes "exec (PipelineRun_Reconcile k r ord now req) c = (res, c', es)"
  shows "fst res = 0 \<and> (\<forall>e\<in>set es. \<forall>x. refused e = Some x \<longrightarrow> snd res = Some x) \<and>
     (\<forall>x. snd res = Some x \<longrightarrow> (\<exists>e\<in>set es. refused e = Some x) \<or>
        (\<exists>owner ob. setControllerReference k ''PipelineRun'' owner ob = Inl x))"
  using emits_exec [OF PipelineRun_Reconcile_surfaces assms] Reconcile_path [OF assms]
  by (simp add: surfaces_def)

text \<open>Servers that refuse: the status of a run, the creation of a task run.\<close>

definition refuse_status :: "Cluster kclient" where
  "refuse_status = mem_client\<lparr>pipelineRuns := (pipelineRuns mem_client)\<lparr>r_status := \<lambda>p. State (\<lambda>c. (Inl (Err ''conflict''), c))\<rparr>\<rparr>"

definition refuse_create :: "Cluster kclient" where
  "refuse_create = mem_client\<lparr>taskRuns := (taskRuns mem_client)\<lparr>r_create := \<lambda>tr. State (\<lambda>c. (Inl (Err ''conflict''), c))\<rparr>\<rparr>"

abbreviation rx_run :: "Cluster kclient \<Rightarrow> reconcile_result \<times> Cluster \<times> effect list" where
  "rx_run k \<equiv> exec (PipelineRun_Reconcile k \<lparr>prr_Conn = True, prr_TargetName = ''t1''\<rparr> (map snd) 5 (okey ''ci'' ''r1''))
       (cluster0\<lparr>cl_pipelineRuns := [ex_run PipelineRunRunning Map.empty]\<rparr>)"

lemma rx_refusals:
  "\<exists>p. StatusPR p (Inl (Err ''conflict'')) \<in> set (snd (snd (rx_run refuse_status)))"
  "\<exists>tr. CreateTR tr (Inl (Err ''conflict'')) \<in> set (snd (snd (rx_run refuse_create)))"
  by (simp_all add: refuse_status_def refuse_create_def ex_simps)

lemma reconcile_surfaces_errors_witness:
  "fst (rx_run refuse_status) = (0, Some (Err ''conflict'')) \<and> fst (rx_run refuse_create) = (0, Some (Err ''conflict''))"
proof -
  have run: "rx_run k = (fst (rx_run k), fst (snd (rx_run k)), snd (snd (rx_run k)))" for k by simp
  have "fst (fst (rx_run k)) = 0 \<and> (\<forall>e\<in>set (snd (snd (rx_run k))). \<forall>x. refused e = Some x \<longrightarrow> snd (fst (rx_run k)) = Some x)" for k
    using reconcile_surfaces_errors [OF run [of k]] by blast
  from this [of refuse_status] this [of refuse_create] rx_refusals show ?thesis
    by (auto simp: prod_eq_iff split: sum.splits)
qed

section \<open>Resync\<close>

lemma resyncLoop_emits:
  "emits (resyncLoop target prs) (\<lambda>u new. new = map (\<lambda>pr. ReportStatus (statusPayload target pr))
     (filter (\<lambda>pr. \<not> isTerminalPhase (pst_Phase (pr_Status pr))) prs))"
  by (induction prs) (auto intro!: emitsI wp_intro elim: wp_emits)

text \<open>After a reconnect the hub is sent the status of exactly the runs of this target that are not
  terminal, in the order the API server lists them, and nothing else; a failed listing is the error
  of \<open>ResyncAll\<close> and sends nothing.\<close>

theorem resync_sends_live_runs:
  assumes "exec (ResyncAll k target) c = (err, c', es)"
  shows "\<exists>ans. es = ListPR \<lparr>lo_Namespace = None, lo_Labels = [(''sdp.io/target'', target)]\<rparr> ans #
       (case ans of Inl _ \<Rightarrow> []
        | Inr items \<Rightarrow> map (\<lambda>pr. ReportStatus (statusPayload target pr))
            (filter (\<lambda>pr. pst_Phase (pr_Status pr) \<notin> {PipelineRunSucceeded, PipelineRunFailed, PipelineRunCancelled}) items)) \<and>
     err = errOf ans"
proof -
  have f: "(\<lambda>pr. \<not> isTerminalPhase (pst_Phase (pr_Status pr))) =
      (\<lambda>pr :: PipelineRun. pst_Phase (pr_Status pr) \<notin> {PipelineRunSucceeded, PipelineRunFailed, PipelineRunCancelled})"
    by (auto simp: isTerminalPhase_def fun_eq_iff split: PipelineRunPhase.splits)
  have "emits (ResyncAll k target) (\<lambda>err es.
      \<exists>ans. es = ListPR \<lparr>lo_Namespace = None, lo_Labels = [(''sdp.io/target'', target)]\<rparr> ans #
       (case ans of Inl _ \<Rightarrow> []
        | Inr items \<Rightarrow> map (\<lambda>pr. ReportStatus (statusPayload target pr))
            (filter (\<lambda>pr. pst_Phase (pr_Status pr) \<notin> {PipelineRunSucceeded, PipelineRunFailed, PipelineRunCancelled}) items)) \<and>
     err = errOf ans)"
    unfolding ResyncAll_def
    by (intro emitsI wp_intro wp_emits [OF resyncLoop_emits]) (simp_all add: f)
  from emits_exec [OF this assms] show ?thesis .
qed

lemma resync_sends_live_runs_witness:
  "\<exists>c'. exec (ResyncAll mem_client ''t1'') cluster0 =
     (None, c', [ListPR \<lparr>lo_Namespace = None, lo_Labels = [(''sdp.io/target'', ''t1'')]\<rparr> (Inr [])])"
proof -
  obtain err c' es where run: "exec (ResyncAll mem_client ''t1'') cluster0 = (err, c', es)"
    by (cases "exec (ResyncAll mem_client ''t1'') cluster0") auto
  moreover have "hd es = ListPR \<lparr>lo_Namespace = None, lo_Labels = [(''sdp.io/target'', ''t1'')]\<rparr> (Inr [])"
    using run by (simp add: ResyncAll_def run_simps split: prod.splits) auto
  ultimately show ?thesis using resync_sends_live_runs [OF run] by auto
qed

section \<open>The DAG over time\<close>

definition ex_serial :: "string \<Rightarrow> PipelineTaskSpec" where
  "ex_serial name = (ex_task name [])\<lparr>pt_Stage := ''prod'', pt_ExecutionMode := ExecutionModeSerial\<rparr>"

lemmas ex_serial_simps = ex_serial_def ex_task_def findRunnableTasks_def serialBlocked_def orderIndex_def

text \<open>The scheduler finishes every well-formed pipeline: when the dependencies name tasks of the
  pipeline and some numbering increases along every dependency and every Serial stage (the
  dependency graph is acyclic), then as many rounds of scheduling as there are tasks, each round
  running what \<open>findRunnableTasks\<close> offers to success, end with every task Succeeded.\<close>

theorem acyclic_pipeline_completes:
  assumes "\<And>t. tr_Phase (fin t) = TaskRunSucceeded" "dag_ranked rank tasks"
  shows "allTasksSucceeded tasks (dag_rounds (length tasks) findRunnableTasks fin tasks [])"
  by (rule runnable.rounds_all_succeed [OF assms])

lemma acyclic_pipeline_completes_witness:
  "allTasksSucceeded [ex_task ''build'' [], ex_task ''ship'' [''build'']]
     (dag_rounds 2 findRunnableTasks (\<lambda>t. ex_taskrun (pt_Name t) TaskRunSucceeded)
        [ex_task ''build'' [], ex_task ''ship'' [''build'']] [])"
  using acyclic_pipeline_completes [of "\<lambda>t. ex_taskrun (pt_Name t) TaskRunSucceeded"
      "\<lambda>n. if n = ''build'' then 0 else 1" "[ex_task ''build'' [], ex_task ''ship'' [''build'']]"]
  by (simp add: dag_ranked_def serial_before_def ex_task_def ex_taskrun_def Let_def numeral_2_eq_2)

text \<open>A pipeline is never rejected for its dependencies, so a bad one waits forever: tasks that
  depend on each other in a cycle, on themselves, or on a name that no task has, never get a task
  run in any execution.\<close>

theorem deadlocked_tasks_never_start:
  assumes "dag_execution findRunnableTasks tasks hist" "ex \<in> set hist"
    and "\<And>t. t \<in> set tasks \<Longrightarrow> pt_Name t \<in> S \<Longrightarrow> \<exists>d\<in>set (pt_DependsOn t). d \<in> S"
  shows "\<forall>n\<in>S. \<not> started ex n"
  using runnable.deadlocked_never_start [OF assms(1,2) _ assms(3)] by blast

lemma deadlocked_tasks_never_start_witness:
  "\<not> started [(''c'', ex_taskrun ''c'' TaskRunUnset)] ''a'' \<and>
   (\<exists>ex hist. dag_execution findRunnableTasks [ex_task ''a'' [''b''], ex_task ''b'' [''a''], ex_task ''c'' []] (ex # hist) \<and>
     started ex ''c'' \<and> \<not> started ex ''a'')"
proof -
  let ?tasks = "[ex_task ''a'' [''b''], ex_task ''b'' [''a''], ex_task ''c'' []]"
  let ?e = "AList.update (pt_Name (ex_task ''c'' [])) (ex_taskrun ''c'' TaskRunUnset) []"
  have r: "dag_execution findRunnableTasks ?tasks [?e, []]"
    by (rule dag_next [OF dag_init dag_create])
      (simp_all add: findRunnableTasks_def serialBlocked_def ex_task_def ex_taskrun_def Let_def)
  have "\<forall>n\<in>{''a'', ''b''}. \<not> started ?e n"
    by (rule deadlocked_tasks_never_start [OF r list.set_intros(1)]) (simp add: ex_task_def, elim disjE; simp)
  then have "\<not> started ?e ''a''" by blast
  moreover have "started ?e ''c''" by (simp add: started_def ex_task_def)
  ultimately show ?thesis using r by (simp add: ex_task_def) blast
qed

end
