(* ===== verification/Go_Std.thy ===== *)
theory Go_Std
  imports Prelude
begin

text \<open>
  What the source uses of the Go standard library: trimming of strings, decimal integers (\<open>fmt\<close> with \<open>%d\<close>,
  \<open>strconv.Atoi\<close>), \<open>time.Format\<close> and \<open>time.Parse\<close> with the layout \<open>time.RFC3339\<close>, durations and
  \<open>time.Since\<close>.
\<close>

section \<open>Strings\<close>

definition is_space :: "char \<Rightarrow> bool" where
  "is_space c \<longleftrightarrow> c \<in> set [CHR '' '', CHR 0x09, CHR 0x0A, CHR 0x0B, CHR 0x0C, CHR 0x0D]"

text \<open>\<open>strings.TrimSpace\<close> on ASCII text.\<close>

definition TrimSpace :: "string \<Rightarrow> string" where
  "TrimSpace s = rev (dropWhile is_space (rev (dropWhile is_space s)))"

lemma TrimSpace_id: "s \<noteq> [] \<Longrightarrow> \<not> is_space (hd s) \<Longrightarrow> \<not> is_space (last s) \<Longrightarrow> TrimSpace (s @ [CHR 0x0A]) = s"
proof -
  assume a: "s \<noteq> []" "\<not> is_space (hd s)" "\<not> is_space (last s)"
  then have 1: "dropWhile is_space (s @ [CHR 0x0A]) = s @ [CHR 0x0A]" by (cases s) simp_all
  have 2: "is_space CHR 0x0A" by (simp add: is_space_def)
  have "dropWhile is_space (rev s) = rev s" using a by (cases "rev s") (simp_all add: last_conv_nth hd_rev [symmetric])
  then show ?thesis by (simp add: TrimSpace_def 1 2)
qed

section \<open>Decimal integers\<close>

definition digit_char :: "nat \<Rightarrow> char" where
  "digit_char d = char_of (48 + d)"

definition is_digit :: "char \<Rightarrow> bool" where
  "is_digit c \<longleftrightarrow> 48 \<le> (of_char c :: nat) \<and> (of_char c :: nat) \<le> 57"

definition digit_val :: "char \<Rightarrow> nat" where
  "digit_val c = of_char c - 48"

fun dec_digits :: "nat \<Rightarrow> string" where
  "dec_digits n = (if n < 10 then [digit_char n] else dec_digits (n div 10) @ [digit_char (n mod 10)])"

declare dec_digits.simps [simp del]

text \<open>\<open>%d\<close>.\<close>

definition itoa :: "int \<Rightarrow> string" where
  "itoa i = (if i < 0 then CHR ''-'' # dec_digits (nat (- i)) else dec_digits (nat i))"

definition digits_val :: "string \<Rightarrow> nat" where
  "digits_val s = foldl (\<lambda>n c. 10 * n + digit_val c) 0 s"

definition unsigned_val :: "string \<Rightarrow> int option" where
  "unsigned_val s = (if s \<noteq> [] \<and> list_all is_digit s then Some (int (digits_val s)) else None)"

text \<open>\<open>strconv.Atoi\<close> on a 64-bit platform: an optional sign, at least one digit, no overflow.\<close>

definition atoi :: "string \<Rightarrow> int option" where
  "atoi s =
     (case s of
        [] \<Rightarrow> None
      | c # cs \<Rightarrow>
          (let v = (if c = CHR ''-'' then map_option uminus (unsigned_val cs)
                    else if c = CHR ''+'' then unsigned_val cs
                    else unsigned_val s) in
           case v of
             None \<Rightarrow> None
           | Some n \<Rightarrow> if - (2 ^ 63) \<le> n \<and> n < 2 ^ 63 then Some n else None))"

lemma of_char_digit_char: "d < 10 \<Longrightarrow> (of_char (digit_char d) :: nat) = 48 + d"
  by (simp add: digit_char_def)

lemma is_digit_digit_char [simp]: "d < 10 \<Longrightarrow> is_digit (digit_char d)"
  by (simp add: is_digit_def of_char_digit_char)

lemma digit_val_digit_char [simp]: "d < 10 \<Longrightarrow> digit_val (digit_char d) = d"
  by (simp add: digit_val_def of_char_digit_char)

lemma not_digit [simp]: "\<not> is_digit CHR ''-''" "\<not> is_digit CHR ''+''" "\<not> is_digit CHR ''|''"
  by (simp_all add: is_digit_def)

lemma digits_val_snoc [simp]: "digits_val (s @ [c]) = 10 * digits_val s + digit_val c"
  by (simp add: digits_val_def)

lemma digits_val_Nil [simp]: "digits_val [] = 0"
  by (simp add: digits_val_def)

lemma digits_val_single [simp]: "digits_val [c] = digit_val c"
  by (simp add: digits_val_def)

lemma dec_digits_val [simp]: "digits_val (dec_digits n) = n"
  by (induction n rule: dec_digits.induct) (simp add: dec_digits.simps)

lemma dec_digits_digits: "list_all is_digit (dec_digits n)"
  by (induction n rule: dec_digits.induct) (simp add: dec_digits.simps)

lemma dec_digits_not_Nil [simp]: "dec_digits n \<noteq> []"
  by (simp add: dec_digits.simps [of n])

lemma unsigned_val_dec_digits [simp]: "unsigned_val (dec_digits n) = Some (int n)"
  by (simp add: unsigned_val_def dec_digits_digits)

lemma hd_dec_digits: "is_digit (hd (dec_digits n))"
  using dec_digits_digits [of n] by (cases "dec_digits n") simp_all

lemma atoi_itoa: "- (2 ^ 63) \<le> i \<Longrightarrow> i < 2 ^ 63 \<Longrightarrow> atoi (itoa i) = Some i"
proof (cases "i < 0")
  case True
  assume "- (2 ^ 63) \<le> i"
  with True show ?thesis by (simp add: itoa_def atoi_def)
next
  case False
  assume "i < 2 ^ 63"
  moreover obtain c cs where c: "dec_digits (nat i) = c # cs"
    by (cases "dec_digits (nat i)") simp_all
  moreover have "is_digit c" using hd_dec_digits [of "nat i"] c by simp
  moreover have "unsigned_val (c # cs) = Some i" using unsigned_val_dec_digits [of "nat i"] c False by simp
  ultimately show ?thesis using False by (auto simp: itoa_def atoi_def)
qed

lemma itoa_chars: "c \<in> set (itoa i) \<Longrightarrow> c = CHR ''-'' \<or> is_digit c"
  using dec_digits_digits [of "nat i"] dec_digits_digits [of "nat (- i)"]
  by (auto simp: itoa_def list_all_iff split: if_splits)

section \<open>The calendar\<close>

definition is_leap :: "int \<Rightarrow> bool" where
  "is_leap y \<longleftrightarrow> y mod 4 = 0 \<and> (y mod 100 \<noteq> 0 \<or> y mod 400 = 0)"

definition month_lengths :: "bool \<Rightarrow> int list" where
  "month_lengths leap = [31, if leap then 29 else 28, 31, 30, 31, 30, 31, 31, 30, 31, 30, 31]"

text \<open>Days since 1 January of the year 1 (proleptic Gregorian).\<close>

definition days_before_year :: "int \<Rightarrow> int" where
  "days_before_year y = 365 * (y - 1) + (y - 1) div 4 - (y - 1) div 100 + (y - 1) div 400"

definition days_of_civil :: "int \<Rightarrow> nat \<Rightarrow> int \<Rightarrow> int" where
  "days_of_civil y m d = days_before_year y + sum_list (take (m - 1) (month_lengths (is_leap y))) + (d - 1)"

definition year_of_days :: "int \<Rightarrow> int \<times> int" where
  "year_of_days n =
     (let n400 = n div 146097; d = n mod 146097;
          n100 = min (d div 36524) 3; d1 = d - 36524 * n100;
          n4 = d1 div 1461; d2 = d1 - 1461 * n4;
          n1 = min (d2 div 365) 3 in
      (400 * n400 + 100 * n100 + 4 * n4 + n1 + 1, d2 - 365 * n1))"

fun month_of_day :: "int list \<Rightarrow> nat \<Rightarrow> int \<Rightarrow> nat \<times> int" where
  "month_of_day [] m d = (m, d + 1)"
| "month_of_day (l # ls) m d = (if d < l then (m, d + 1) else month_of_day ls (m + 1) (d - l))"

definition civil_of_days :: "int \<Rightarrow> int \<times> nat \<times> int" where
  "civil_of_days n = (let (y, yd) = year_of_days n; (m, d) = month_of_day (month_lengths (is_leap y)) 1 yd in (y, m, d))"

lemma year_of_days_correct:
  assumes "year_of_days n = (y, yd)"
  shows "days_before_year y + yd = n" "0 \<le> yd" "yd < 365 + (if is_leap y then 1 else 0)"
proof -
  define c where "c = n div 146097"
  define d where "d = n mod 146097"
  define a where "a = min (d div 36524) 3"
  define d1 where "d1 = d - 36524 * a"
  define b where "b = d1 div 1461"
  define d2 where "d2 = d1 - 1461 * b"
  define e where "e = min (d2 div 365) 3"
  have n: "n = 146097 * c + d" by (simp add: c_def d_def)
  have d: "0 \<le> d" "d < 146097" by (simp_all add: d_def)
  have a: "0 \<le> a" "a \<le> 3" "0 \<le> d1" "a < 3 \<Longrightarrow> d1 < 36524" "d1 \<le> 36524"
    using d by (auto simp: a_def d1_def min_def)
  have b: "0 \<le> b" "b \<le> 24" "0 \<le> d2" "d2 < 1461" "b = 24 \<Longrightarrow> a < 3 \<Longrightarrow> d2 < 1460"
    using a by (auto simp: b_def d2_def)
  have e: "0 \<le> e" "e \<le> 3" "0 \<le> d2 - 365 * e" "e < 3 \<Longrightarrow> d2 - 365 * e < 365" "d2 - 365 * e \<le> 365"
    "e = 3 \<Longrightarrow> d2 - 365 * e = 365 \<Longrightarrow> d2 = 1460"
    using b by (auto simp: e_def min_def)
  from assms have y: "y = 400 * c + 100 * a + 4 * b + e + 1" and yd: "yd = d2 - 365 * e"
    unfolding year_of_days_def Let_def c_def [symmetric] d_def [symmetric] a_def [symmetric]
      d1_def [symmetric] b_def [symmetric] d2_def [symmetric] e_def [symmetric]
    by simp_all
  have q4: "(y - 1) div 4 = 100 * c + 25 * a + b" using y e by simp
  have q100: "(y - 1) div 100 = 4 * c + a" using y b e by simp
  have q400: "(y - 1) div 400 = c" using y a b e by simp
  show "days_before_year y + yd = n"
    unfolding days_before_year_def q4 q100 q400 n by (simp add: y yd d2_def d1_def)
  show "0 \<le> yd" using yd e by simp
  have "is_leap y" if "yd = 365"
  proof -
    have e3: "e = 3" using e yd that by linarith
    then have "d2 = 1460" using e yd that by simp
    with b have ba: "b \<noteq> 24 \<or> a = 3" using a by linarith
    have y4: "y = 4 * (100 * c + 25 * a + b + 1)" using y e3 by simp
    then have m4: "y mod 4 = 0" by simp
    have "y mod 100 \<noteq> 0 \<or> y mod 400 = 0"
    proof (cases "b = 24")
      case True
      with ba have "y = 400 * (c + 1)" using y e3 by simp
      then show ?thesis by simp
    next
      case False
      have "y = (4 * b + 4) + 100 * (4 * c + a)" using y e3 by simp
      then have "y mod 100 = (4 * b + 4) mod 100" by (simp only: mod_mult_self2)
      also have "\<dots> = 4 * b + 4" using b False by simp
      finally show ?thesis using b by simp
    qed
    with m4 show ?thesis by (simp add: is_leap_def)
  qed
  moreover have "yd \<le> 365" using e yd by simp
  ultimately show "yd < 365 + (if is_leap y then 1 else 0)"
    by (cases "is_leap y"; cases "yd = 365"; simp)
qed

lemma month_of_day_correct:
  "0 \<le> d \<Longrightarrow> d < sum_list ls \<Longrightarrow> month_of_day ls m0 d = (m, d') \<Longrightarrow>
     m0 \<le> m \<and> m < m0 + length ls \<and> 1 \<le> d' \<and> d' \<le> ls ! (m - m0) \<and> sum_list (take (m - m0) ls) + d' - 1 = d"
proof (induction ls m0 d rule: month_of_day.induct)
  case (1 m d)
  then show ?case by simp
next
  case (2 l ls m0 d)
  show ?case
  proof (cases "d < l")
    case True
    with 2 show ?thesis by auto
  next
    case False
    with 2 have h: "m0 + 1 \<le> m \<and> m < m0 + 1 + length ls \<and> 1 \<le> d' \<and> d' \<le> ls ! (m - (m0 + 1)) \<and>
        sum_list (take (m - (m0 + 1)) ls) + d' - 1 = d - l"
      by simp
    then have m: "m - m0 = Suc (m - (m0 + 1))" by linarith
    from h show ?thesis unfolding m by simp
  qed
qed

lemma civil_of_days_correct:
  assumes "civil_of_days n = (y, m, d)"
  shows "days_of_civil y m d = n" "1 \<le> m" "m \<le> 12" "1 \<le> d" "d \<le> month_lengths (is_leap y) ! (m - 1)"
proof -
  obtain y' yd where y: "year_of_days n = (y', yd)" by fastforce
  with assms have m: "month_of_day (month_lengths (is_leap y)) 1 yd = (m, d)" and y': "y' = y"
    by (auto simp: civil_of_days_def split: prod.splits)
  note yc = year_of_days_correct [OF y [unfolded y']]
  have "yd < sum_list (month_lengths (is_leap y))"
    using yc(3) by (cases "is_leap y") (simp_all add: month_lengths_def)
  from month_of_day_correct [OF yc(2) this m]
  have h: "1 \<le> m" "m < 1 + length (month_lengths (is_leap y))" "1 \<le> d"
    "d \<le> month_lengths (is_leap y) ! (m - 1)"
    "sum_list (take (m - 1) (month_lengths (is_leap y))) + d - 1 = yd" by simp_all
  from h show "1 \<le> m" "1 \<le> d" "d \<le> month_lengths (is_leap y) ! (m - 1)" by simp_all
  from h(2) show "m \<le> 12" by (simp add: month_lengths_def)
  show "days_of_civil y m d = n" using h(5) yc(1) by (simp add: days_of_civil_def)
qed

section \<open>RFC 3339\<close>

text \<open>A time is read in UTC: days since 1 January of the year 1, and the second of the day.\<close>

definition day_number :: "gotime \<Rightarrow> int" where
  "day_number t = t div second div 86400 + 719162"

definition second_of_day :: "gotime \<Rightarrow> nat" where
  "second_of_day t = nat (t div second mod 86400)"

definition pad2 :: "nat \<Rightarrow> string" where
  "pad2 n = [digit_char (n div 10), digit_char (n mod 10)]"

definition pad4 :: "nat \<Rightarrow> string" where
  "pad4 n = replicate (4 - length (dec_digits n)) CHR ''0'' @ dec_digits n"

definition year_string :: "int \<Rightarrow> string" where
  "year_string y = (if y < 0 then CHR ''-'' # pad4 (nat (- y)) else pad4 (nat y))"

text \<open>\<open>t.UTC().Format(time.RFC3339)\<close>.\<close>

definition rfc3339_format :: "gotime \<Rightarrow> string" where
  "rfc3339_format t =
     (let (y, m, d) = civil_of_days (day_number t); s = second_of_day t in
      year_string y @ ''-'' @ pad2 m @ ''-'' @ pad2 (nat d) @ ''T'' @
      pad2 (s div 3600) @ '':'' @ pad2 (s mod 3600 div 60) @ '':'' @ pad2 (s mod 60) @ ''Z'')"

fun lit :: "char \<Rightarrow> string \<Rightarrow> string option" where
  "lit c [] = None"
| "lit c (x # s) = (if x = c then Some s else None)"

fun num2 :: "string \<Rightarrow> (nat \<times> string) option" where
  "num2 (a # b # s) = (if is_digit a \<and> is_digit b then Some (10 * digit_val a + digit_val b, s) else None)"
| "num2 _ = None"

text \<open>The hour may have one digit.\<close>

fun num12 :: "string \<Rightarrow> (nat \<times> string) option" where
  "num12 [] = None"
| "num12 [a] = (if is_digit a then Some (digit_val a, []) else None)"
| "num12 (a # b # s) =
     (if \<not> is_digit a then None
      else if is_digit b then Some (10 * digit_val a + digit_val b, s)
      else Some (digit_val a, b # s))"

fun num4 :: "string \<Rightarrow> (nat \<times> string) option" where
  "num4 (a # b # c # d # s) =
     (if list_all is_digit [a, b, c, d] then Some (digits_val [a, b, c, d], s) else None)"
| "num4 _ = None"

text \<open>A fraction of a second is accepted although the layout has none; nine digits count.\<close>

fun frac :: "string \<Rightarrow> int \<times> string" where
  "frac (p # c # s) =
     (if (p = CHR ''.'' \<or> p = CHR '','') \<and> is_digit c
      then let ds = takeWhile is_digit (c # s) in
        (int (digits_val (take 9 ds)) * 10 ^ (9 - min 9 (length ds)), dropWhile is_digit (c # s))
      else (0, p # c # s))"
| "frac s = (0, s)"

fun zone :: "string \<Rightarrow> (int \<times> string) option" where
  "zone (z # s) =
     (if z = CHR ''Z'' then Some (0, s)
      else do {
        (hr, s1) \<leftarrow> num2 s;
        s2 \<leftarrow> lit (CHR '':'') s1;
        (mm, s3) \<leftarrow> num2 s2;
        if hr > 24 \<or> mm > 60 then None
        else if z = CHR ''+'' then Some (int ((hr * 60 + mm) * 60), s3)
        else if z = CHR ''-'' then Some (- int ((hr * 60 + mm) * 60), s3)
        else None
      })"
| "zone [] = None"

text \<open>\<open>time.Parse(time.RFC3339, s)\<close>; \<open>None\<close> is an error.\<close>

definition rfc3339_parse :: "string \<Rightarrow> gotime option" where
  "rfc3339_parse s = do {
     (y, s) \<leftarrow> num4 s; s \<leftarrow> lit (CHR ''-'') s;
     (mo, s) \<leftarrow> num2 s; s \<leftarrow> lit (CHR ''-'') s;
     (d, s) \<leftarrow> num2 s; s \<leftarrow> lit (CHR ''T'') s;
     (h, s) \<leftarrow> num12 s; s \<leftarrow> lit (CHR '':'') s;
     (mi, s) \<leftarrow> num2 s; s \<leftarrow> lit (CHR '':'') s;
     (se, s) \<leftarrow> num2 s;
     let (ns, s) = frac s;
     (off, s) \<leftarrow> zone s;
     if s \<noteq> [] \<or> mo = 0 \<or> 12 < mo \<or> 24 \<le> h \<or> 60 \<le> mi \<or> 60 \<le> se \<or> d = 0 \<or>
        int d > month_lengths (is_leap (int y)) ! (mo - 1)
     then None
     else Some (((days_of_civil (int y) mo (int d) - 719162) * 86400 + int (h * 3600 + mi * 60 + se) - off) * second + ns)
   }"

lemma num2_pad2 [simp]: "n < 100 \<Longrightarrow> num2 (pad2 n @ s) = Some (n, s)"
  by (simp add: pad2_def)

lemma num12_pad2 [simp]: "n < 100 \<Longrightarrow> num12 (pad2 n @ s) = Some (n, s)"
  by (simp add: pad2_def)

lemma pad4_digits:
  assumes "n < 10000"
  shows "pad4 n = [digit_char (n div 1000), digit_char (n div 100 mod 10), digit_char (n div 10 mod 10), digit_char (n mod 10)]"
proof -
  have z: "CHR ''0'' = digit_char 0"
    by (rule of_char_eq_iff [where 'a = nat, THEN iffD1]) (simp add: digit_char_def)
  consider "n < 10" | "10 \<le> n" "n < 100" | "100 \<le> n" "n < 1000" | "1000 \<le> n" by linarith
  then show ?thesis
  proof cases
    case 1
    then show ?thesis by (simp add: pad4_def dec_digits.simps z numeral_3_eq_3)
  next
    case 2
    then have "n div 10 < 10" by linarith
    with 2 show ?thesis by (simp add: pad4_def dec_digits.simps [of n] dec_digits.simps [of "n div 10"] z numeral_2_eq_2)
  next
    case 3
    then have "n div 10 div 10 < 10" "\<not> n div 10 < 10" "n div 100 < 10" "n div 1000 = 0" by linarith+
    with 3 show ?thesis
      by (simp add: pad4_def dec_digits.simps [of n] dec_digits.simps [of "n div 10"] dec_digits.simps [of "n div 100"]
          div_mult2_eq [symmetric] z)
  next
    case 4
    then have "n div 1000 < 10" "\<not> n div 10 < 10" "\<not> n div 100 < 10" using assms by linarith+
    with 4 show ?thesis
      by (simp add: pad4_def dec_digits.simps [of n] dec_digits.simps [of "n div 10"] dec_digits.simps [of "n div 100"]
          dec_digits.simps [of "n div 1000"] div_mult2_eq [symmetric])
  qed
qed

lemma num4_pad4 [simp]:
  assumes "n < 10000"
  shows "num4 (pad4 n @ s) = Some (n, s)"
proof -
  have "10 * (10 * (10 * (n div 1000) + n div 100 mod 10) + n div 10 mod 10) + n mod 10 = n"
  proof -
    have e3: "10 * (n div 1000) + n div 100 mod 10 = n div 100"
      using mult_div_mod_eq [of 10 "n div 100"] by (simp add: div_mult2_eq [symmetric])
    have e2: "10 * (n div 100) + n div 10 mod 10 = n div 10"
      using mult_div_mod_eq [of 10 "n div 10"] by (simp add: div_mult2_eq [symmetric])
    show ?thesis by (simp only: e3 e2 mult_div_mod_eq)
  qed
  moreover have "n div 1000 < 10" using assms by linarith
  ultimately show ?thesis using assms by (simp add: pad4_digits digits_val_def)
qed

text \<open>Parsing what was formatted gives the time back, to the second.\<close>

lemma rfc3339_roundtrip:
  assumes "civil_of_days (day_number t) = (y, m, d)" "0 \<le> y" "y < 10000"
  shows "rfc3339_parse (rfc3339_format t) = Some (t div second * second)"
proof -
  define s where "s = second_of_day t"
  have s: "s < 86400" "int s = t div second mod 86400" by (simp_all add: s_def second_of_day_def nat_less_iff)
  note c = civil_of_days_correct [OF assms(1)]
  have d31: "d \<le> 31"
  proof -
    have "\<forall>l\<in>set (month_lengths b). l \<le> 31" for b by (simp add: month_lengths_def)
    moreover have "month_lengths (is_leap y) ! (m - 1) \<in> set (month_lengths (is_leap y))"
      using c(2,3) by (intro nth_mem) (simp add: month_lengths_def)
    ultimately show ?thesis using c(5) by fastforce
  qed
  have parts: "s div 3600 < 24" "s mod 3600 div 60 < 60" "s mod 60 < 60" using s(1) by linarith+
  then have sec: "num2 (pad2 (s mod 60) @ ''Z'') = Some (s mod 60, ''Z'')" by (intro num2_pad2) simp
  have not60: "\<not> 60 \<le> s mod 60" by (simp add: not_le)
  have sum: "int (s div 3600 * 3600 + s mod 3600 div 60 * 60 + s mod 60) = int s"
  proof -
    have "s mod 3600 mod 60 = s mod 60" by (rule mod_mod_cancel) simp
    then show ?thesis
      using div_mult_mod_eq [of s 3600] div_mult_mod_eq [of "s mod 3600" 60] by linarith
  qed
  have days: "days_of_civil y m d = t div second div 86400 + 719162"
    using c(1) by (simp add: day_number_def)
  have total: "(t div second div 86400) * 86400 + int s = t div second" using s(2) by simp
  have "rfc3339_format t = pad4 (nat y) @ ''-'' @ pad2 m @ ''-'' @ pad2 (nat d) @ ''T'' @
      pad2 (s div 3600) @ '':'' @ pad2 (s mod 3600 div 60) @ '':'' @ pad2 (s mod 60) @ ''Z''"
    using assms by (simp add: rfc3339_format_def s_def year_string_def Let_def)
  then show ?thesis
    using assms(2,3) c(2-5) d31 parts sec not60 sum days total
    by (simp add: rfc3339_parse_def nat_less_iff)
qed

text \<open>The times of an \<open>int64\<close> nanosecond clock lie in the years 1677 to 2262.\<close>

lemma year_bound:
  fixes p a b c :: int
  assumes "365 * p + a - b + c + yd = n" "0 \<le> yd" "yd < 366" "600000 \<le> n" "n < 900000"
    "4 * a + r4 = p" "0 \<le> r4" "r4 < 4" "100 * b + r100 = p" "0 \<le> r100" "r100 < 100"
    "400 * c + r400 = p" "0 \<le> r400" "r400 < 400"
  shows "0 \<le> p" "p < 9000"
  using assms by linarith+

lemma year_of_clock:
  assumes "civil_of_days (day_number t) = (y, m, d)" "- (2 ^ 63) \<le> t" "t < 2 ^ 63"
  shows "0 \<le> y \<and> y < 10000"
proof -
  obtain y' yd where y: "year_of_days (day_number t) = (y', yd)" by fastforce
  with assms(1) have "y' = y" by (auto simp: civil_of_days_def split: prod.splits)
  with year_of_days_correct [OF y] have n: "days_before_year y + yd = day_number t" "0 \<le> yd" "yd < 366"
    by (auto split: if_splits)
  have t: "600000 \<le> day_number t" "day_number t < 900000"
    using assms(2,3) by (simp_all add: day_number_def second_def)
  have q: "4 * ((y - 1) div 4) + (y - 1) mod 4 = y - 1" "0 \<le> (y - 1) mod 4" "(y - 1) mod 4 < 4"
    "100 * ((y - 1) div 100) + (y - 1) mod 100 = y - 1" "0 \<le> (y - 1) mod 100" "(y - 1) mod 100 < 100"
    "400 * ((y - 1) div 400) + (y - 1) mod 400 = y - 1" "0 \<le> (y - 1) mod 400" "(y - 1) mod 400 < 400"
    by (simp_all only: mult_div_mod_eq pos_mod_sign pos_mod_bound zero_less_numeral)
  show ?thesis
    using year_bound [OF n(1) [unfolded days_before_year_def] n(2,3) t q] by simp
qed

section \<open>Durations\<close>

text \<open>\<open>now.Sub(t)\<close> saturates at the limits of \<open>int64\<close>.\<close>

definition since :: "gotime \<Rightarrow> gotime \<Rightarrow> duration" where
  "since now t = max (- (2 ^ 63)) (min (2 ^ 63 - 1) (now - t))"

text \<open>\<open>time.Duration(n) * time.Second\<close> wraps around.\<close>

definition seconds :: "int \<Rightarrow> duration" where
  "seconds n = i64 (n * second)"

end
