(* ===== verification/Canary_Engine.thy ===== *)
theory Canary_Engine
  imports Api_Types Go_Std
begin

text \<open>
  \<open>src/pkg/canary/engine.go\<close>: the pure decision function of progressive delivery. \<open>Evaluate\<close> maps
  the rollout and the observed canary to a \<open>Decision\<close>; indexing the steps with a negative index
  panics in Go, which is the result \<open>None\<close>. \<open>now\<close> is the reading of the clock.
\<close>

section \<open>Decisions\<close>

record Decision =
  d_Phase :: RolloutPhase
  d_CurrentStepIndex :: int
  d_CurrentWeight :: int
  d_CanaryReplicas :: int
  d_StableReplicas :: int
  d_ConsecutiveFailures :: int
  d_RequeueAfter :: duration
  d_Message :: string

definition decision0 :: Decision where
  "decision0 = \<lparr>d_Phase = RolloutUnset, d_CurrentStepIndex = 0, d_CurrentWeight = 0,
     d_CanaryReplicas = 0, d_StableReplicas = 0, d_ConsecutiveFailures = 0, d_RequeueAfter = 0,
     d_Message = ''''\<rparr>"

text \<open>The product is computed in \<open>int64\<close>, the division truncates towards zero.\<close>

definition weightReplicas :: "int \<Rightarrow> int \<Rightarrow> int" where
  "weightReplicas weight totalReplicas =
     (if totalReplicas \<le> 0 then 0 else i32 (i64 (weight * totalReplicas) sdiv 100))"

definition healthInterval :: "RolloutSpec \<Rightarrow> duration" where
  "healthInterval spec =
     (if hc_IntervalSeconds (ros_HealthCheck spec) \<le> 0 then 30 * second
      else seconds (hc_IntervalSeconds (ros_HealthCheck spec)))"

section \<open>The pause clock\<close>

definition PauseStartAnnotation :: string where
  "PauseStartAnnotation = ''sdp.io/pause-start''"

definition FormatPauseStart :: "int \<Rightarrow> gotime \<Rightarrow> string" where
  "FormatPauseStart stepIndex t = itoa stepIndex @ ''|'' @ rfc3339_format t"

definition ParsePauseStart :: "string \<Rightarrow> (int \<times> gotime) option" where
  "ParsePauseStart s =
     (case cut CHR ''|'' s of
        None \<Rightarrow> None
      | Some (idx, ts) \<Rightarrow>
          (case atoi idx of
             None \<Rightarrow> None
           | Some n \<Rightarrow>
               (case rfc3339_parse ts of
                  None \<Rightarrow> None
                | Some t \<Rightarrow> Some (i32 n, t))))"

section \<open>Evaluate\<close>

definition RollbackDecision :: "Rollout \<Rightarrow> int \<Rightarrow> Decision" where
  "RollbackDecision ro totalReplicas = decision0
     \<lparr>d_Phase := RolloutRollingBack,
      d_CurrentStepIndex := rst_CurrentStepIndex (ro_Status ro),
      d_CurrentWeight := 0,
      d_CanaryReplicas := 0,
      d_StableReplicas := totalReplicas,
      d_ConsecutiveFailures := i32 (rst_ConsecutiveFailures (ro_Status ro) + 1),
      d_Message := ''health check failed, rolling back''\<rparr>"

text \<open>A decision that holds or moves to \<open>weight\<close>: its replica split.\<close>

definition atWeight :: "RolloutPhase \<Rightarrow> int \<Rightarrow> int \<Rightarrow> int \<Rightarrow> string \<Rightarrow> Decision" where
  "atWeight phase stepIndex weight totalReplicas msg = decision0
     \<lparr>d_Phase := phase,
      d_CurrentStepIndex := stepIndex,
      d_CurrentWeight := weight,
      d_CanaryReplicas := weightReplicas weight totalReplicas,
      d_StableReplicas := i32 (totalReplicas - weightReplicas weight totalReplicas),
      d_Message := msg\<rparr>"

text \<open>The pause step of \<open>Evaluate\<close>.\<close>

definition pauseDecision :: "gotime \<Rightarrow> Rollout \<Rightarrow> PauseStep \<Rightarrow> int \<Rightarrow> bool \<Rightarrow> Decision" where
  "pauseDecision now ro pause totalReplicas healthy =
     (let status = ro_Status ro;
          d = atWeight RolloutPaused (rst_CurrentStepIndex status) (rst_CurrentWeight status) totalReplicas
            ''paused at step'' in
      case pause_Duration pause of
        None \<Rightarrow> d
      | Some dur \<Rightarrow>
          (let d = d\<lparr>d_RequeueAfter := dur\<rparr> in
           case ParsePauseStart (map_get (om_Annotations (ro_Meta ro)) PauseStartAnnotation) of
             None \<Rightarrow> d
           | Some (idx, startedAt) \<Rightarrow>
               if idx = rst_CurrentStepIndex status \<and> since now startedAt \<ge> dur \<and> healthy
               then d\<lparr>d_Phase := RolloutProgressing,
                      d_CurrentStepIndex := i32 (rst_CurrentStepIndex status + 1),
                      d_Message := ''pause elapsed, advancing''\<rparr>
               else d))"

text \<open>The weight step of \<open>Evaluate\<close> once the canary is at the step's target weight.\<close>

definition healthDecision :: "Rollout \<Rightarrow> int \<Rightarrow> int \<Rightarrow> int \<Rightarrow> int \<Rightarrow> bool \<Rightarrow> Decision" where
  "healthDecision ro target canaryReady canaryDesired totalReplicas healthy =
     (let spec = ro_Spec ro; status = ro_Status ro;
          threshold = hc_FailureThreshold (ros_HealthCheck spec);
          podsReady = (canaryDesired > 0 \<and> canaryReady \<ge> canaryDesired);
          ready = (podsReady \<and> healthy) in
      if \<not> ready then
        (let cf = (if podsReady \<and> \<not> healthy then i32 (rst_ConsecutiveFailures status + 1)
                   else rst_ConsecutiveFailures status) in
         if ros_AutoRollback spec \<and> threshold > 0 \<and> cf \<ge> threshold then
           (RollbackDecision ro totalReplicas)
             \<lparr>d_CanaryReplicas := 0, d_StableReplicas := totalReplicas,
              d_Message := ''health check failed past threshold, rolling back''\<rparr>
         else if \<not> ros_AutoRollback spec \<and> threshold > 0 \<and> cf \<ge> threshold then
           (atWeight RolloutFailed (rst_CurrentStepIndex status) target totalReplicas
              ''health check failed past threshold, rollout failed'')\<lparr>d_ConsecutiveFailures := cf\<rparr>
         else
           (atWeight RolloutProgressing (rst_CurrentStepIndex status) target totalReplicas
              ''waiting for canary health'')
             \<lparr>d_ConsecutiveFailures := cf, d_RequeueAfter := healthInterval spec\<rparr>)
      else
        (let nextIndex = i32 (rst_CurrentStepIndex status + 1);
             nextWeight =
               (if nextIndex < i32 (int (length (ros_Steps spec)))
                then (case step_SetWeight (ros_Steps spec ! nat nextIndex) of
                        Some w \<Rightarrow> w
                      | None \<Rightarrow> target)
                else target) in
         (atWeight RolloutProgressing nextIndex nextWeight totalReplicas ''healthy at weight, advancing'')
           \<lparr>d_RequeueAfter := healthInterval spec\<rparr>))"

definition Evaluate :: "gotime \<Rightarrow> Rollout \<Rightarrow> int \<Rightarrow> int \<Rightarrow> int \<Rightarrow> bool \<Rightarrow> Decision option" where
  "Evaluate now ro canaryReady canaryDesired totalReplicas healthy =
     (let spec = ro_Spec ro; status = ro_Status ro in
      if rst_CurrentStepIndex status \<ge> i32 (int (length (ros_Steps spec))) then
        Some (atWeight RolloutHealthy (rst_CurrentStepIndex status) (rst_CurrentWeight status) totalReplicas
          ''all steps complete'')
      else if rst_CurrentStepIndex status < 0 then None
      else
        (let step = ros_Steps spec ! nat (rst_CurrentStepIndex status) in
         case step_Pause step of
           Some pause \<Rightarrow> Some (pauseDecision now ro pause totalReplicas healthy)
         | None \<Rightarrow>
             (case step_SetWeight step of
                None \<Rightarrow>
                  Some (atWeight RolloutProgressing (i32 (rst_CurrentStepIndex status + 1))
                    (rst_CurrentWeight status) totalReplicas ''step had no setWeight/pause, skipping'')
              | Some target \<Rightarrow>
                  if rst_CurrentWeight status \<noteq> target then
                    Some ((atWeight RolloutProgressing (rst_CurrentStepIndex status) target totalReplicas
                      ''scaling to weight'')\<lparr>d_RequeueAfter := healthInterval spec\<rparr>)
                  else
                    Some (healthDecision ro target canaryReady canaryDesired totalReplicas healthy))))"

section \<open>The replica split\<close>

lemma weightReplicas_floor:
  assumes "0 \<le> w" "w \<le> 100" "0 \<le> n" "is_i32 n"
  shows "weightReplicas w n = w * n div 100"
proof (cases "n = 0")
  case True
  then show ?thesis by (simp add: weightReplicas_def)
next
  case False
  have "w * n \<le> 100 * n" using assms by (intro mult_right_mono) simp_all
  then have le: "w * n div 100 \<le> n" using zdiv_mono1 [of "w * n" "100 * n" 100] by simp
  have nonneg: "0 \<le> w * n" using assms by simp
  have "i64 (w * n) = w * n"
    using \<open>w * n \<le> 100 * n\<close> nonneg assms(4) by (intro i64_id) (auto simp: is_i32_def)
  moreover have "is_i32 (w * n div 100)"
    using le nonneg assms(4) by (auto simp: is_i32_def pos_imp_zdiv_nonneg_iff intro: order.strict_trans1)
  moreover have "w * n sdiv 100 = w * n div 100"
    using nonneg by (simp add: signed_divide_int_def sgn_if)
  ultimately show ?thesis using False assms(3) by (simp add: weightReplicas_def)
qed

lemma weightReplicas_bounds:
  assumes "0 \<le> w" "w \<le> 100" "0 \<le> n" "is_i32 n"
  shows "0 \<le> weightReplicas w n" "weightReplicas w n \<le> n"
proof -
  have "w * n \<le> 100 * n" using assms by (intro mult_right_mono) simp_all
  then have "w * n div 100 \<le> 100 * n div 100" by (rule zdiv_mono1) simp
  then show "0 \<le> weightReplicas w n" "weightReplicas w n \<le> n"
    using assms by (simp_all add: weightReplicas_floor pos_imp_zdiv_nonneg_iff)
qed

lemma split_sum:
  assumes "0 \<le> w" "w \<le> 100" "0 \<le> n" "is_i32 n"
  shows "weightReplicas w n + i32 (n - weightReplicas w n) = n" "0 \<le> i32 (n - weightReplicas w n)"
proof -
  have "is_i32 (n - weightReplicas w n)"
    using weightReplicas_bounds [OF assms] assms(4) by (auto simp: is_i32_def)
  then show "weightReplicas w n + i32 (n - weightReplicas w n) = n" "0 \<le> i32 (n - weightReplicas w n)"
    using weightReplicas_bounds [OF assms] by simp_all
qed

lemma weightReplicas_mono:
  assumes "0 \<le> v" "v \<le> w" "w \<le> 100" "0 \<le> n" "is_i32 n"
  shows "weightReplicas v n \<le> weightReplicas w n"
proof -
  have "v * n \<le> w * n" using assms by (intro mult_right_mono) simp_all
  then have "v * n div 100 \<le> w * n div 100" by (rule zdiv_mono1) simp
  with assms show ?thesis by (simp add: weightReplicas_floor)
qed

section \<open>The contract of a canary engine\<close>

definition weights_of :: "RolloutSpec \<Rightarrow> int set" where
  "weights_of spec = {w. \<exists>s\<in>set (ros_Steps spec). step_SetWeight s = Some w}"

text \<open>The validation of the CRD: weights are percentages (and the number of steps fits an \<open>int32\<close>).\<close>

definition valid_steps :: "RolloutSpec \<Rightarrow> bool" where
  "valid_steps spec \<longleftrightarrow> (\<forall>w\<in>weights_of spec. 0 \<le> w \<and> w \<le> 100) \<and> int (length (ros_Steps spec)) < 2 ^ 31"

definition index_ok :: "Rollout \<Rightarrow> bool" where
  "index_ok ro \<longleftrightarrow> 0 \<le> rst_CurrentStepIndex (ro_Status ro) \<and>
     rst_CurrentStepIndex (ro_Status ro) \<le> int (length (ros_Steps (ro_Spec ro)))"

definition cur_step :: "Rollout \<Rightarrow> CanaryStep" where
  "cur_step ro = ros_Steps (ro_Spec ro) ! nat (rst_CurrentStepIndex (ro_Status ro))"

definition pods_ready :: "int \<Rightarrow> int \<Rightarrow> bool" where
  "pods_ready ready desired \<longleftrightarrow> 0 < desired \<and> desired \<le> ready"

text \<open>How the reconciler records a decision in the status (\<open>rollout_controller.go\<close>).\<close>

definition recordDecision :: "gotime \<Rightarrow> bool \<Rightarrow> Decision \<Rightarrow> RolloutStatus \<Rightarrow> RolloutStatus" where
  "recordDecision now probed d st =
     (let st = st\<lparr>rst_Phase := d_Phase d, rst_CurrentStepIndex := d_CurrentStepIndex d,
                  rst_CurrentWeight := d_CurrentWeight d, rst_StableReplicas := d_StableReplicas d,
                  rst_CanaryReplicas := d_CanaryReplicas d,
                  rst_ConsecutiveFailures := d_ConsecutiveFailures d, rst_Message := d_Message d\<rparr>;
          st = (if probed then st\<lparr>rst_LastHealthCheckTime := Some now\<rparr> else st) in
      if d_Phase d \<in> {RolloutHealthy, RolloutFailed, RolloutRolledBack} \<and> rst_CompletionTime st = None
      then st\<lparr>rst_CompletionTime := Some now\<rparr> else st)"

text \<open>
  What the rollout reconciler relies on: an engine always decides, moves the step index by at most
  one and never past the end, only past a weight step whose canary pods are up and healthy, keeps
  the weight one the rollout names (or 0), splits the replicas without losing one, and gives up
  only on a canary that failed its health check.
\<close>

locale canary_engine =
  fixes eval :: "gotime \<Rightarrow> Rollout \<Rightarrow> int \<Rightarrow> int \<Rightarrow> int \<Rightarrow> bool \<Rightarrow> Decision option"
  assumes eval_total: "valid_steps (ro_Spec ro) \<Longrightarrow> index_ok ro \<Longrightarrow> \<exists>d. eval now ro r n t h = Some d"
    and eval_index: "valid_steps (ro_Spec ro) \<Longrightarrow> index_ok ro \<Longrightarrow> eval now ro r n t h = Some d \<Longrightarrow>
      d_CurrentStepIndex d = rst_CurrentStepIndex (ro_Status ro) \<or>
      d_CurrentStepIndex d = rst_CurrentStepIndex (ro_Status ro) + 1 \<and>
        rst_CurrentStepIndex (ro_Status ro) < int (length (ros_Steps (ro_Spec ro)))"
    and eval_gate: "valid_steps (ro_Spec ro) \<Longrightarrow> index_ok ro \<Longrightarrow> eval now ro r n t h = Some d \<Longrightarrow>
      d_CurrentStepIndex d = rst_CurrentStepIndex (ro_Status ro) + 1 \<Longrightarrow>
      step_Pause (cur_step ro) = None \<Longrightarrow> step_SetWeight (cur_step ro) = Some w \<Longrightarrow>
      rst_CurrentWeight (ro_Status ro) = w \<and> pods_ready r n \<and> h"
    and eval_weight: "valid_steps (ro_Spec ro) \<Longrightarrow> index_ok ro \<Longrightarrow> eval now ro r n t h = Some d \<Longrightarrow>
      d_CurrentWeight d = rst_CurrentWeight (ro_Status ro) \<or> d_CurrentWeight d = 0 \<or>
      d_CurrentWeight d \<in> weights_of (ro_Spec ro)"
    and eval_split: "valid_steps (ro_Spec ro) \<Longrightarrow> index_ok ro \<Longrightarrow> eval now ro r n t h = Some d \<Longrightarrow>
      0 \<le> rst_CurrentWeight (ro_Status ro) \<Longrightarrow> rst_CurrentWeight (ro_Status ro) \<le> 100 \<Longrightarrow> 0 \<le> t \<Longrightarrow> is_i32 t \<Longrightarrow>
      d_CanaryReplicas d = d_CurrentWeight d * t div 100 \<and> d_CanaryReplicas d + d_StableReplicas d = t"
    and eval_give_up: "valid_steps (ro_Spec ro) \<Longrightarrow> index_ok ro \<Longrightarrow>
      is_i32 (rst_ConsecutiveFailures (ro_Status ro)) \<Longrightarrow> eval now ro r n t h = Some d \<Longrightarrow>
      d_Phase d \<in> {RolloutFailed, RolloutRollingBack} \<Longrightarrow> \<not> (pods_ready r n \<and> h) \<and>
      0 < hc_FailureThreshold (ros_HealthCheck (ro_Spec ro)) \<and>
      hc_FailureThreshold (ros_HealthCheck (ro_Spec ro)) \<le> rst_ConsecutiveFailures (ro_Status ro) + 1"
    and eval_end: "valid_steps (ro_Spec ro) \<Longrightarrow> index_ok ro \<Longrightarrow>
      rst_CurrentStepIndex (ro_Status ro) = int (length (ros_Steps (ro_Spec ro))) \<Longrightarrow>
      eval now ro r n t h = Some d \<Longrightarrow>
      d_Phase d = RolloutHealthy \<and> d_CurrentStepIndex d = rst_CurrentStepIndex (ro_Status ro)"
    and eval_scale: "valid_steps (ro_Spec ro) \<Longrightarrow> index_ok ro \<Longrightarrow>
      rst_CurrentStepIndex (ro_Status ro) < int (length (ros_Steps (ro_Spec ro))) \<Longrightarrow>
      step_Pause (cur_step ro) = None \<Longrightarrow> step_SetWeight (cur_step ro) = Some w \<Longrightarrow>
      rst_CurrentWeight (ro_Status ro) \<noteq> w \<Longrightarrow> eval now ro r n t h = Some d \<Longrightarrow>
      d_CurrentWeight d = w \<and> d_CurrentStepIndex d = rst_CurrentStepIndex (ro_Status ro)"
    and eval_advance: "valid_steps (ro_Spec ro) \<Longrightarrow> index_ok ro \<Longrightarrow>
      rst_CurrentStepIndex (ro_Status ro) < int (length (ros_Steps (ro_Spec ro))) \<Longrightarrow>
      step_Pause (cur_step ro) = None \<Longrightarrow> step_SetWeight (cur_step ro) = Some w \<Longrightarrow>
      rst_CurrentWeight (ro_Status ro) = w \<Longrightarrow> pods_ready r n \<Longrightarrow> h \<Longrightarrow> eval now ro r n t h = Some d \<Longrightarrow>
      d_CurrentStepIndex d = rst_CurrentStepIndex (ro_Status ro) + 1"

lemma valid_steps_length: "valid_steps spec \<Longrightarrow> i32 (int (length (ros_Steps spec))) = int (length (ros_Steps spec))"
  by (simp add: valid_steps_def is_i32_def)

lemma index_succ:
  "valid_steps (ro_Spec ro) \<Longrightarrow> index_ok ro \<Longrightarrow>
   rst_CurrentStepIndex (ro_Status ro) < int (length (ros_Steps (ro_Spec ro))) \<Longrightarrow>
   i32 (rst_CurrentStepIndex (ro_Status ro) + 1) = rst_CurrentStepIndex (ro_Status ro) + 1"
  by (rule i32_id) (simp add: valid_steps_def index_ok_def is_i32_def)

text \<open>The branches of \<open>Evaluate\<close>.\<close>

lemma Evaluate_end:
  "valid_steps (ro_Spec ro) \<Longrightarrow> rst_CurrentStepIndex (ro_Status ro) \<ge> int (length (ros_Steps (ro_Spec ro))) \<Longrightarrow>
   Evaluate now ro r n t h = Some (atWeight RolloutHealthy (rst_CurrentStepIndex (ro_Status ro))
     (rst_CurrentWeight (ro_Status ro)) t ''all steps complete'')"
  by (simp add: Evaluate_def Let_def valid_steps_length)

lemma Evaluate_step:
  "valid_steps (ro_Spec ro) \<Longrightarrow> index_ok ro \<Longrightarrow>
   rst_CurrentStepIndex (ro_Status ro) < int (length (ros_Steps (ro_Spec ro))) \<Longrightarrow>
   Evaluate now ro r n t h = Some
     (case step_Pause (cur_step ro) of
        Some pause \<Rightarrow> pauseDecision now ro pause t h
      | None \<Rightarrow>
          (case step_SetWeight (cur_step ro) of
             None \<Rightarrow> atWeight RolloutProgressing (rst_CurrentStepIndex (ro_Status ro) + 1)
               (rst_CurrentWeight (ro_Status ro)) t ''step had no setWeight/pause, skipping''
           | Some target \<Rightarrow>
               if rst_CurrentWeight (ro_Status ro) \<noteq> target
               then (atWeight RolloutProgressing (rst_CurrentStepIndex (ro_Status ro)) target t
                 ''scaling to weight'')\<lparr>d_RequeueAfter := healthInterval (ro_Spec ro)\<rparr>
               else healthDecision ro target r n t h))"
  by (simp add: Evaluate_def Let_def valid_steps_length index_succ cur_step_def index_ok_def
      split: option.splits)

lemma atWeight_sel [simp]:
  "d_Phase (atWeight p i w t msg) = p" "d_CurrentStepIndex (atWeight p i w t msg) = i"
  "d_CurrentWeight (atWeight p i w t msg) = w" "d_CanaryReplicas (atWeight p i w t msg) = weightReplicas w t"
  "d_StableReplicas (atWeight p i w t msg) = i32 (t - weightReplicas w t)"
  "d_ConsecutiveFailures (atWeight p i w t msg) = 0" "d_RequeueAfter (atWeight p i w t msg) = 0"
  by (simp_all add: atWeight_def decision0_def)

lemma Rollback_sel [simp]:
  "d_Phase (RollbackDecision ro t) = RolloutRollingBack" "d_CurrentWeight (RollbackDecision ro t) = 0"
  "d_CurrentStepIndex (RollbackDecision ro t) = rst_CurrentStepIndex (ro_Status ro)"
  "d_CanaryReplicas (RollbackDecision ro t) = 0" "d_StableReplicas (RollbackDecision ro t) = t"
  by (simp_all add: RollbackDecision_def)

text \<open>The shape of a decision: a phase, a step index and a weight with its split.\<close>

definition splits_to :: "Decision \<Rightarrow> int \<Rightarrow> bool" where
  "splits_to d t \<longleftrightarrow> d_CanaryReplicas d = weightReplicas (d_CurrentWeight d) t \<and>
     d_StableReplicas d = i32 (t - weightReplicas (d_CurrentWeight d) t)"

lemma pauseDecision_shape:
  assumes "valid_steps (ro_Spec ro)" "index_ok ro"
    "rst_CurrentStepIndex (ro_Status ro) < int (length (ros_Steps (ro_Spec ro)))"
  shows "d_CurrentStepIndex (pauseDecision now ro pause t h) \<in>
      {rst_CurrentStepIndex (ro_Status ro), rst_CurrentStepIndex (ro_Status ro) + 1} \<and>
    d_CurrentWeight (pauseDecision now ro pause t h) = rst_CurrentWeight (ro_Status ro) \<and>
    d_Phase (pauseDecision now ro pause t h) \<in> {RolloutPaused, RolloutProgressing} \<and>
    splits_to (pauseDecision now ro pause t h) t"
  using index_succ [OF assms]
  by (simp add: pauseDecision_def Let_def splits_to_def split: option.splits prod.splits)

lemma healthDecision_shape:
  "(let d = healthDecision ro w r n t h; idx = rst_CurrentStepIndex (ro_Status ro) in
    if pods_ready r n \<and> h then
      d_Phase d = RolloutProgressing \<and> d_CurrentStepIndex d = i32 (idx + 1) \<and> splits_to d t \<and>
      (d_CurrentWeight d = w \<or>
       i32 (idx + 1) < i32 (int (length (ros_Steps (ro_Spec ro)))) \<and>
       step_SetWeight (ros_Steps (ro_Spec ro) ! nat (i32 (idx + 1))) = Some (d_CurrentWeight d))
    else d_CurrentStepIndex d = idx \<and>
      (d_Phase d = RolloutRollingBack \<and> d_CurrentWeight d = 0 \<and> d_CanaryReplicas d = 0 \<and> d_StableReplicas d = t \<or>
       d_Phase d \<in> {RolloutFailed, RolloutProgressing} \<and> d_CurrentWeight d = w \<and> splits_to d t))"
  by (auto simp: healthDecision_def Let_def splits_to_def pods_ready_def split: option.splits)

lemma i32_succ_le: "is_i32 x \<Longrightarrow> i32 (x + 1) \<le> x + 1"
proof -
  assume "is_i32 x"
  then have "0 \<le> x + 1 + 2 ^ 31" by (simp add: is_i32_def)
  then have "(x + 1 + 2 ^ 31) mod 2 ^ 32 \<le> x + 1 + 2 ^ 31" by (rule zmod_le_nonneg_dividend)
  then show ?thesis by (simp add: i32_def)
qed

lemma healthDecision_give_up:
  assumes "d_Phase (healthDecision ro w r n t h) \<in> {RolloutFailed, RolloutRollingBack}"
    "is_i32 (rst_ConsecutiveFailures (ro_Status ro))"
  shows "\<not> (pods_ready r n \<and> h) \<and> 0 < hc_FailureThreshold (ros_HealthCheck (ro_Spec ro)) \<and>
    hc_FailureThreshold (ros_HealthCheck (ro_Spec ro)) \<le> rst_ConsecutiveFailures (ro_Status ro) + 1"
  using assms i32_succ_le [OF assms(2)]
  by (auto simp: healthDecision_def Let_def pods_ready_def split: if_splits)

lemma splits_to_sum:
  assumes "splits_to d t" "0 \<le> d_CurrentWeight d" "d_CurrentWeight d \<le> 100" "0 \<le> t" "is_i32 t"
  shows "d_CanaryReplicas d = d_CurrentWeight d * t div 100 \<and> d_CanaryReplicas d + d_StableReplicas d = t"
  using assms split_sum [OF assms(2-5)] weightReplicas_floor [OF assms(2-5)] by (simp add: splits_to_def)

lemma cur_step_in:
  "index_ok ro \<Longrightarrow> rst_CurrentStepIndex (ro_Status ro) < int (length (ros_Steps (ro_Spec ro))) \<Longrightarrow>
   cur_step ro \<in> set (ros_Steps (ro_Spec ro))"
  by (simp add: cur_step_def index_ok_def nat_less_iff)

lemma step_weight_valid:
  "valid_steps spec \<Longrightarrow> s \<in> set (ros_Steps spec) \<Longrightarrow> step_SetWeight s = Some w \<Longrightarrow>
   0 \<le> w \<and> w \<le> 100 \<and> w \<in> weights_of spec"
  by (auto simp: valid_steps_def weights_of_def)

text \<open>All of it in one statement, from which the laws follow.\<close>

lemma Evaluate_cases:
  assumes v: "valid_steps (ro_Spec ro)" and i: "index_ok ro" and d: "Evaluate now ro r n t h = Some d"
  obtains (finished) "rst_CurrentStepIndex (ro_Status ro) = int (length (ros_Steps (ro_Spec ro)))"
      "d_Phase d = RolloutHealthy" "d_CurrentStepIndex d = rst_CurrentStepIndex (ro_Status ro)"
      "d_CurrentWeight d = rst_CurrentWeight (ro_Status ro)" "splits_to d t"
  | (held) "rst_CurrentStepIndex (ro_Status ro) < int (length (ros_Steps (ro_Spec ro)))"
      "step_Pause (cur_step ro) \<noteq> None \<or> step_SetWeight (cur_step ro) = None"
      "d_Phase d \<in> {RolloutPaused, RolloutProgressing}"
      "d_CurrentStepIndex d \<in> {rst_CurrentStepIndex (ro_Status ro), rst_CurrentStepIndex (ro_Status ro) + 1}"
      "d_CurrentWeight d = rst_CurrentWeight (ro_Status ro)" "splits_to d t"
  | (scaling) w where "rst_CurrentStepIndex (ro_Status ro) < int (length (ros_Steps (ro_Spec ro)))"
      "step_Pause (cur_step ro) = None" "step_SetWeight (cur_step ro) = Some w"
      "rst_CurrentWeight (ro_Status ro) \<noteq> w" "d_Phase d = RolloutProgressing"
      "d_CurrentStepIndex d = rst_CurrentStepIndex (ro_Status ro)" "d_CurrentWeight d = w" "splits_to d t"
  | (judged) w where "rst_CurrentStepIndex (ro_Status ro) < int (length (ros_Steps (ro_Spec ro)))"
      "step_Pause (cur_step ro) = None" "step_SetWeight (cur_step ro) = Some w"
      "rst_CurrentWeight (ro_Status ro) = w" "d = healthDecision ro w r n t h"
proof (cases "rst_CurrentStepIndex (ro_Status ro) < int (length (ros_Steps (ro_Spec ro)))")
  case False
  with i have "rst_CurrentStepIndex (ro_Status ro) = int (length (ros_Steps (ro_Spec ro)))"
    by (simp add: index_ok_def)
  with d Evaluate_end [OF v, of now r n t h] show ?thesis
    by (intro finished) (auto simp: splits_to_def)
next
  case True
  note e = Evaluate_step [OF v i True, of now r n t h]
  show ?thesis
  proof (cases "step_Pause (cur_step ro)")
    case (Some pause)
    with d e have "d = pauseDecision now ro pause t h" by simp
    with pauseDecision_shape [OF v i True, of now pause t h] Some True show ?thesis
      by (intro held) auto
  next
    case None
    note np = None
    show ?thesis
    proof (cases "step_SetWeight (cur_step ro)")
      case None
      with d e np True show ?thesis by (intro held) (auto simp: splits_to_def)
    next
      case (Some w)
      note sw = Some
      show ?thesis
      proof (cases "rst_CurrentWeight (ro_Status ro) = w")
        case eq: True
        with d e np sw True show ?thesis by (intro judged) auto
      next
        case False
        with d e np sw True show ?thesis by (intro scaling) (auto simp: splits_to_def)
      qed
    qed
  qed
qed

lemma healthDecision_index:
  assumes "valid_steps (ro_Spec ro)" "index_ok ro"
    "rst_CurrentStepIndex (ro_Status ro) < int (length (ros_Steps (ro_Spec ro)))"
  shows "d_CurrentStepIndex (healthDecision ro w r n t h) =
    (if pods_ready r n \<and> h then rst_CurrentStepIndex (ro_Status ro) + 1 else rst_CurrentStepIndex (ro_Status ro))"
  using healthDecision_shape [of ro w r n t h] index_succ [OF assms]
  by (cases "pods_ready r n \<and> h") (simp_all add: Let_def)

lemma healthDecision_weight:
  assumes "valid_steps (ro_Spec ro)" "index_ok ro"
    "rst_CurrentStepIndex (ro_Status ro) < int (length (ros_Steps (ro_Spec ro)))"
  shows "d_CurrentWeight (healthDecision ro w r n t h) = w \<or> d_CurrentWeight (healthDecision ro w r n t h) = 0 \<or>
    d_CurrentWeight (healthDecision ro w r n t h) \<in> weights_of (ro_Spec ro)"
proof -
  have "step_SetWeight (ros_Steps (ro_Spec ro) ! nat (rst_CurrentStepIndex (ro_Status ro) + 1)) = Some v \<Longrightarrow>
      rst_CurrentStepIndex (ro_Status ro) + 1 < int (length (ros_Steps (ro_Spec ro))) \<Longrightarrow> v \<in> weights_of (ro_Spec ro)" for v
    using assms(2) by (auto simp: weights_of_def index_ok_def nat_less_iff intro!: bexI [OF _ nth_mem])
  then show ?thesis
    using healthDecision_shape [of ro w r n t h] index_succ [OF assms] valid_steps_length [OF assms(1)]
    by (auto simp: Let_def split: if_splits)
qed

section \<open>Walking a rollout\<close>

text \<open>
  The statuses the reconciler records from one decision to the next, for any readings of the canary
  and of the clock and any annotations; a Failed or RolledBack rollout is not evaluated any more.
\<close>

abbreviation rollout_at :: "ObjectMeta \<Rightarrow> RolloutSpec \<Rightarrow> RolloutStatus \<Rightarrow> Rollout" where
  "rollout_at m spec st \<equiv> \<lparr>ro_Meta = m, ro_Spec = spec, ro_Status = st\<rparr>"

inductive walk_step ::
  "(gotime \<Rightarrow> Rollout \<Rightarrow> int \<Rightarrow> int \<Rightarrow> int \<Rightarrow> bool \<Rightarrow> Decision option) \<Rightarrow> RolloutSpec \<Rightarrow>
   RolloutStatus \<Rightarrow> RolloutStatus \<Rightarrow> bool"
  for eval spec where
  walk_decide: "rst_Phase st \<notin> {RolloutFailed, RolloutRolledBack} \<Longrightarrow>
     eval now (rollout_at m spec st) r n t h = Some d \<Longrightarrow>
     walk_step eval spec st (recordDecision now probed d st)"

definition walk_start :: "gotime \<Rightarrow> RolloutStatus" where
  "walk_start now = rollout_status0\<lparr>rst_Phase := RolloutProgressing, rst_StartTime := Some now\<rparr>"

inductive walk_reachable ::
  "(gotime \<Rightarrow> Rollout \<Rightarrow> int \<Rightarrow> int \<Rightarrow> int \<Rightarrow> bool \<Rightarrow> Decision option) \<Rightarrow> RolloutSpec \<Rightarrow> RolloutStatus \<Rightarrow> bool"
  for eval spec where
  walk_init: "walk_reachable eval spec (walk_start now)"
| walk_next: "walk_reachable eval spec st \<Longrightarrow> walk_step eval spec st st' \<Longrightarrow> walk_reachable eval spec st'"

inductive_cases walk_stepE: "walk_step eval spec st st'"

definition walk_inv :: "RolloutSpec \<Rightarrow> RolloutStatus \<Rightarrow> bool" where
  "walk_inv spec st \<longleftrightarrow>
     0 \<le> rst_CurrentStepIndex st \<and> rst_CurrentStepIndex st \<le> int (length (ros_Steps spec)) \<and>
     (rst_CurrentWeight st = 0 \<or> rst_CurrentWeight st \<in> weights_of spec) \<and>
     (rst_Phase st \<in> {RolloutHealthy, RolloutFailed} \<longrightarrow> rst_CompletionTime st \<noteq> None)"

lemma recordDecision_sel [simp]:
  "rst_Phase (recordDecision now probed d st) = d_Phase d"
  "rst_CurrentStepIndex (recordDecision now probed d st) = d_CurrentStepIndex d"
  "rst_CurrentWeight (recordDecision now probed d st) = d_CurrentWeight d"
  "rst_ConsecutiveFailures (recordDecision now probed d st) = d_ConsecutiveFailures d"
  "rst_StableReplicas (recordDecision now probed d st) = d_StableReplicas d"
  "rst_CanaryReplicas (recordDecision now probed d st) = d_CanaryReplicas d"
  by (simp_all add: recordDecision_def Let_def)

lemma recordDecision_completion:
  "d_Phase d \<in> {RolloutHealthy, RolloutFailed, RolloutRolledBack} \<Longrightarrow>
   rst_CompletionTime (recordDecision now probed d st) \<noteq> None"
  by (simp add: recordDecision_def Let_def)

lemma index_ok_at [simp]:
  "index_ok (rollout_at m spec st) \<longleftrightarrow>
     0 \<le> rst_CurrentStepIndex st \<and> rst_CurrentStepIndex st \<le> int (length (ros_Steps spec))"
  by (simp add: index_ok_def)

lemma cur_step_at [simp]: "cur_step (rollout_at m spec st) = ros_Steps spec ! nat (rst_CurrentStepIndex st)"
  by (simp add: cur_step_def)

text \<open>A reconcile of a canary that is always up and healthy, and several of them in a row.\<close>

definition good_tick ::
  "(gotime \<Rightarrow> Rollout \<Rightarrow> int \<Rightarrow> int \<Rightarrow> int \<Rightarrow> bool \<Rightarrow> Decision option) \<Rightarrow> gotime \<Rightarrow> ObjectMeta \<Rightarrow> RolloutSpec \<Rightarrow>
   int \<Rightarrow> int \<Rightarrow> int \<Rightarrow> RolloutStatus \<Rightarrow> RolloutStatus" where
  "good_tick eval now m spec r n t st =
     (case eval now (rollout_at m spec st) r n t True of
        None \<Rightarrow> st
      | Some d \<Rightarrow> recordDecision now True d st)"

text \<open>Every step sets a weight and none pauses.\<close>

definition weight_steps :: "RolloutSpec \<Rightarrow> bool" where
  "weight_steps spec \<longleftrightarrow> (\<forall>s\<in>set (ros_Steps spec). step_Pause s = None \<and> step_SetWeight s \<noteq> None)"

definition ticks_left :: "RolloutSpec \<Rightarrow> RolloutStatus \<Rightarrow> nat" where
  "ticks_left spec st =
     2 * (length (ros_Steps spec) - nat (rst_CurrentStepIndex st)) +
     (if step_SetWeight (ros_Steps spec ! nat (rst_CurrentStepIndex st)) = Some (rst_CurrentWeight st) then 0 else 1)"

context canary_engine
begin

lemma walk_step_inv:
  assumes "walk_step eval spec st st'" "valid_steps spec" "walk_inv spec st"
  shows "walk_inv spec st'"
  using assms(1)
proof (cases rule: walk_step.cases)
  case (walk_decide now m r n t h d probed)
  have v: "valid_steps (ro_Spec (rollout_at m spec st))" and i: "index_ok (rollout_at m spec st)"
    using assms(2,3) by (simp_all add: walk_inv_def)
  show ?thesis
    using eval_index [OF v i walk_decide(3)] eval_weight [OF v i walk_decide(3)] assms(3)
      recordDecision_completion [of d now probed st]
    unfolding walk_inv_def walk_decide(1) by auto
qed

lemma walk_reachable_inv:
  "walk_reachable eval spec st \<Longrightarrow> valid_steps spec \<Longrightarrow> walk_inv spec st"
proof (induction rule: walk_reachable.induct)
  case (walk_init now)
  then show ?case by (simp add: walk_inv_def walk_start_def rollout_status0_def)
next
  case (walk_next st st')
  then show ?case using walk_step_inv by blast
qed

text \<open>The engine never fails on a reachable status.\<close>

lemma walk_total:
  assumes "walk_reachable eval spec st" "valid_steps spec"
  shows "\<exists>d. eval now (rollout_at m spec st) r n t h = Some d"
  using walk_reachable_inv [OF assms] assms(2) by (intro eval_total) (simp_all add: walk_inv_def)

text \<open>Leaving a weight step takes a canary at that weight whose pods are up and healthy.\<close>

lemma walk_gate:
  assumes "walk_reachable eval spec st" "valid_steps spec"
    and "eval now (rollout_at m spec st) r n t h = Some d" "d_CurrentStepIndex d \<noteq> rst_CurrentStepIndex st"
    and "step_Pause (ros_Steps spec ! nat (rst_CurrentStepIndex st)) = None"
    and "step_SetWeight (ros_Steps spec ! nat (rst_CurrentStepIndex st)) = Some w"
  shows "d_CurrentStepIndex d = rst_CurrentStepIndex st + 1 \<and> rst_CurrentWeight st = w \<and> pods_ready r n \<and> h"
proof -
  have i: "index_ok (rollout_at m spec st)" and v: "valid_steps (ro_Spec (rollout_at m spec st))"
    using walk_reachable_inv [OF assms(1,2)] assms(2) by (simp_all add: walk_inv_def)
  have "d_CurrentStepIndex d = rst_CurrentStepIndex st + 1"
    using eval_index [OF v i assms(3)] assms(4) by simp
  with eval_gate [OF v i assms(3)] assms(5,6) show ?thesis by simp
qed

lemma good_tick_finished:
  assumes "valid_steps spec" "rst_CurrentStepIndex st = int (length (ros_Steps spec))"
  shows "rst_Phase (good_tick eval now m spec r n t st) = RolloutHealthy \<and>
    rst_CurrentStepIndex (good_tick eval now m spec r n t st) = int (length (ros_Steps spec))"
proof -
  have v: "valid_steps (ro_Spec (rollout_at m spec st))" and i: "index_ok (rollout_at m spec st)"
    using assms by simp_all
  obtain d where d: "eval now (rollout_at m spec st) r n t True = Some d" using eval_total [OF v i] by blast
  with eval_end [OF v i _ d] assms(2) show ?thesis by (simp add: good_tick_def)
qed

lemma good_tick_progress:
  assumes "valid_steps spec" "weight_steps spec" "pods_ready r n"
    and "0 \<le> rst_CurrentStepIndex st" "rst_CurrentStepIndex st < int (length (ros_Steps spec))"
  shows "ticks_left spec (good_tick eval now m spec r n t st) < ticks_left spec st \<and>
    0 \<le> rst_CurrentStepIndex (good_tick eval now m spec r n t st) \<and>
    rst_CurrentStepIndex (good_tick eval now m spec r n t st) \<le> int (length (ros_Steps spec))"
proof -
  let ?i = "rst_CurrentStepIndex st"
  have v: "valid_steps (ro_Spec (rollout_at m spec st))" and i: "index_ok (rollout_at m spec st)"
    and lt: "rst_CurrentStepIndex (ro_Status (rollout_at m spec st)) < int (length (ros_Steps (ro_Spec (rollout_at m spec st))))"
    using assms by simp_all
  have "ros_Steps spec ! nat ?i \<in> set (ros_Steps spec)" using assms by (simp add: nat_less_iff)
  then obtain w where w: "step_Pause (ros_Steps spec ! nat ?i) = None" "step_SetWeight (ros_Steps spec ! nat ?i) = Some w"
    using assms(2) by (auto simp: weight_steps_def)
  obtain d where d: "eval now (rollout_at m spec st) r n t True = Some d" using eval_total [OF v i] by blast
  show ?thesis
  proof (cases "rst_CurrentWeight st = w")
    case True
    then have "d_CurrentStepIndex d = ?i + 1" using eval_advance [OF v i lt _ _ _ assms(3) _ d] w by simp
    then show ?thesis using assms(4,5) d by (auto simp: good_tick_def ticks_left_def nat_add_distrib)
  next
    case False
    then have "d_CurrentWeight d = w \<and> d_CurrentStepIndex d = ?i" using eval_scale [OF v i lt _ _ _ d] w by simp
    then show ?thesis using assms(4,5) d w False by (auto simp: good_tick_def ticks_left_def)
  qed
qed

lemma good_ticks_complete:
  assumes "valid_steps spec" "weight_steps spec" "pods_ready r n"
  shows "0 \<le> rst_CurrentStepIndex st \<Longrightarrow> rst_CurrentStepIndex st \<le> int (length (ros_Steps spec)) \<Longrightarrow>
    ticks_left spec st \<le> k \<Longrightarrow> rst_Phase ((good_tick eval now m spec r n t ^^ Suc k) st) = RolloutHealthy"
proof (induction k arbitrary: st)
  case 0
  then have "rst_CurrentStepIndex st = int (length (ros_Steps spec))"
    by (auto simp: ticks_left_def)
  with good_tick_finished [OF assms(1)] show ?case by simp
next
  case (Suc k)
  let ?st = "good_tick eval now m spec r n t st"
  show ?case
  proof (cases "rst_CurrentStepIndex st < int (length (ros_Steps spec))")
    case True
    with good_tick_progress [OF assms Suc.prems(1), of now m t] Suc.prems(3)
    have "rst_Phase ((good_tick eval now m spec r n t ^^ Suc k) ?st) = RolloutHealthy"
      by (intro Suc.IH) auto
    then show ?thesis by (simp only: funpow_Suc_right o_def)
  next
    case False
    have "rst_CurrentStepIndex ((good_tick eval now m spec r n t ^^ j) st) = int (length (ros_Steps spec))" for j
      using False Suc.prems(2) good_tick_finished [OF assms(1)] by (induction j) auto
    with good_tick_finished [OF assms(1)] show ?thesis by simp
  qed
qed

end

lemma Evaluate_total:
  assumes "valid_steps (ro_Spec ro)" "index_ok ro"
  shows "\<exists>d. Evaluate now ro r n t h = Some d"
  using Evaluate_end [OF assms(1)] Evaluate_step [OF assms]
  by (cases "rst_CurrentStepIndex (ro_Status ro) < int (length (ros_Steps (ro_Spec ro)))") auto

lemma Evaluate_weight:
  assumes "valid_steps (ro_Spec ro)" "index_ok ro" "Evaluate now ro r n t h = Some d"
  shows "d_CurrentWeight d = rst_CurrentWeight (ro_Status ro) \<or> d_CurrentWeight d = 0 \<or>
    d_CurrentWeight d \<in> weights_of (ro_Spec ro)"
proof (cases rule: Evaluate_cases [OF assms])
  case (3 w)
  then show ?thesis
    using step_weight_valid [OF assms(1) cur_step_in [OF assms(2) 3(1)] 3(3)] by simp
next
  case (4 w)
  then show ?thesis using healthDecision_weight [OF assms(1,2) 4(1), of w r n t h] by simp
qed simp_all

lemma Evaluate_split:
  assumes "valid_steps (ro_Spec ro)" "index_ok ro" "Evaluate now ro r n t h = Some d"
    and "0 \<le> rst_CurrentWeight (ro_Status ro)" "rst_CurrentWeight (ro_Status ro) \<le> 100" "0 \<le> t" "is_i32 t"
  shows "d_CanaryReplicas d = d_CurrentWeight d * t div 100 \<and> d_CanaryReplicas d + d_StableReplicas d = t"
proof -
  have "0 \<le> d_CurrentWeight d \<and> d_CurrentWeight d \<le> 100"
    using Evaluate_weight [OF assms(1-3)] assms(1,4,5) by (auto simp: valid_steps_def)
  moreover have "splits_to d t \<or> d_CurrentWeight d = 0 \<and> d_CanaryReplicas d = 0 \<and> d_StableReplicas d = t"
  proof (cases rule: Evaluate_cases [OF assms(1-3)])
    case (4 w)
    then show ?thesis
      using healthDecision_shape [of ro w r n t h] by (auto simp: Let_def split: if_splits)
  qed simp_all
  ultimately show ?thesis using splits_to_sum assms(6,7) by auto
qed

lemma Evaluate_give_up:
  assumes "valid_steps (ro_Spec ro)" "index_ok ro" "Evaluate now ro r n t h = Some d"
    and "is_i32 (rst_ConsecutiveFailures (ro_Status ro))" "d_Phase d \<in> {RolloutFailed, RolloutRollingBack}"
  shows "\<not> (pods_ready r n \<and> h) \<and> 0 < hc_FailureThreshold (ros_HealthCheck (ro_Spec ro)) \<and>
    hc_FailureThreshold (ros_HealthCheck (ro_Spec ro)) \<le> rst_ConsecutiveFailures (ro_Status ro) + 1"
proof (cases rule: Evaluate_cases [OF assms(1-3)])
  case (4 w)
  then show ?thesis using healthDecision_give_up [of ro w r n t h] assms(4,5) by blast
qed (use assms(5) in auto)

interpretation engine: canary_engine Evaluate
proof unfold_locales
  fix ro now r n t h d w
  assume v: "valid_steps (ro_Spec ro)" and i: "index_ok ro"
  show "\<exists>d. Evaluate now ro r n t h = Some d" by (rule Evaluate_total [OF v i])
  assume d: "Evaluate now ro r n t h = Some d"
  show "d_CurrentStepIndex d = rst_CurrentStepIndex (ro_Status ro) \<or>
      d_CurrentStepIndex d = rst_CurrentStepIndex (ro_Status ro) + 1 \<and>
        rst_CurrentStepIndex (ro_Status ro) < int (length (ros_Steps (ro_Spec ro)))"
    by (cases rule: Evaluate_cases [OF v i d])
      (auto simp: healthDecision_index [OF v i])
  show "d_CurrentWeight d = rst_CurrentWeight (ro_Status ro) \<or> d_CurrentWeight d = 0 \<or>
      d_CurrentWeight d \<in> weights_of (ro_Spec ro)"
    by (rule Evaluate_weight [OF v i d])
  show "0 \<le> rst_CurrentWeight (ro_Status ro) \<Longrightarrow> rst_CurrentWeight (ro_Status ro) \<le> 100 \<Longrightarrow> 0 \<le> t \<Longrightarrow> is_i32 t \<Longrightarrow>
      d_CanaryReplicas d = d_CurrentWeight d * t div 100 \<and> d_CanaryReplicas d + d_StableReplicas d = t"
    by (rule Evaluate_split [OF v i d])
  show "is_i32 (rst_ConsecutiveFailures (ro_Status ro)) \<Longrightarrow> d_Phase d \<in> {RolloutFailed, RolloutRollingBack} \<Longrightarrow>
      \<not> (pods_ready r n \<and> h) \<and> 0 < hc_FailureThreshold (ros_HealthCheck (ro_Spec ro)) \<and>
      hc_FailureThreshold (ros_HealthCheck (ro_Spec ro)) \<le> rst_ConsecutiveFailures (ro_Status ro) + 1"
    by (rule Evaluate_give_up [OF v i d])
  show "rst_CurrentStepIndex (ro_Status ro) = int (length (ros_Steps (ro_Spec ro))) \<Longrightarrow>
      d_Phase d = RolloutHealthy \<and> d_CurrentStepIndex d = rst_CurrentStepIndex (ro_Status ro)"
    by (cases rule: Evaluate_cases [OF v i d]) auto
  show "d_CurrentStepIndex d = rst_CurrentStepIndex (ro_Status ro) + 1 \<Longrightarrow> step_Pause (cur_step ro) = None \<Longrightarrow>
      step_SetWeight (cur_step ro) = Some w \<Longrightarrow> rst_CurrentWeight (ro_Status ro) = w \<and> pods_ready r n \<and> h"
    by (cases rule: Evaluate_cases [OF v i d])
      (auto simp: healthDecision_index [OF v i] split: if_splits)
  show "rst_CurrentStepIndex (ro_Status ro) < int (length (ros_Steps (ro_Spec ro))) \<Longrightarrow>
      step_Pause (cur_step ro) = None \<Longrightarrow> step_SetWeight (cur_step ro) = Some w \<Longrightarrow>
      rst_CurrentWeight (ro_Status ro) \<noteq> w \<Longrightarrow>
      d_CurrentWeight d = w \<and> d_CurrentStepIndex d = rst_CurrentStepIndex (ro_Status ro)"
    by (cases rule: Evaluate_cases [OF v i d]) auto
  show "rst_CurrentStepIndex (ro_Status ro) < int (length (ros_Steps (ro_Spec ro))) \<Longrightarrow>
      step_Pause (cur_step ro) = None \<Longrightarrow> step_SetWeight (cur_step ro) = Some w \<Longrightarrow>
      rst_CurrentWeight (ro_Status ro) = w \<Longrightarrow> pods_ready r n \<Longrightarrow> h \<Longrightarrow>
      d_CurrentStepIndex d = rst_CurrentStepIndex (ro_Status ro) + 1"
    by (cases rule: Evaluate_cases [OF v i d]) (auto simp: healthDecision_index [OF v i])
qed

text \<open>A rollback of the engine is undone by its next decision.\<close>

lemma rollback_resurrected:
  assumes "valid_steps (ro_Spec ro)" "index_ok ro" "Evaluate now ro ready desired n healthy = Some d"
    and "d_Phase d = RolloutRollingBack" "rst_CurrentWeight (ro_Status ro) \<noteq> 0"
    and "ro' = ro\<lparr>ro_Meta := m, ro_Status := recordDecision now probed d (ro_Status ro)\<rparr>"
  shows "rst_Phase (ro_Status ro') \<notin> {RolloutFailed, RolloutRolledBack} \<and>
    (\<exists>d'. Evaluate now' ro' ready' desired' n healthy' = Some d' \<and> d_Phase d' = RolloutProgressing \<and>
       d_CurrentWeight d' = rst_CurrentWeight (ro_Status ro) \<and>
       d_CanaryReplicas d' = weightReplicas (rst_CurrentWeight (ro_Status ro)) n)"
proof (cases rule: Evaluate_cases [OF assms(1-3)])
  case (4 w)
  have i: "d_CurrentStepIndex d = rst_CurrentStepIndex (ro_Status ro)" and z: "d_CurrentWeight d = 0"
    using healthDecision_shape [of ro w ready desired n healthy] 4(5) assms(4)
    by (auto simp: Let_def split: if_splits)
  have s: "cur_step ro' = cur_step ro" using i by (simp add: assms(6) cur_step_def)
  have "index_ok ro'" using assms(2) i by (simp add: assms(6) index_ok_def)
  moreover have "valid_steps (ro_Spec ro')" using assms(1) by (simp add: assms(6))
  moreover have "rst_CurrentStepIndex (ro_Status ro') < int (length (ros_Steps (ro_Spec ro')))"
    using 4(1) i by (simp add: assms(6))
  ultimately show ?thesis
    using Evaluate_step [of ro' now' ready' desired' n healthy'] 4 assms(4,5) i z s
    by (simp add: assms(6))
qed (use assms(4) in auto)

end
