(* ===== verification/Canary_Props.thy ===== *)
theory Canary_Props
  imports Canary_Engine
begin

text \<open>The properties of the canary engine and their witnesses.\<close>

section \<open>A rollout for the witnesses\<close>

definition ex_step :: "int \<Rightarrow> CanaryStep" where
  "ex_step w = \<lparr>step_SetWeight = Some w, step_Pause = None\<rparr>"

definition ex_spec :: "CanaryStep list \<Rightarrow> RolloutSpec" where
  "ex_spec steps = \<lparr>ros_WorkloadRef = ''shop'', ros_Replicas = Some 10, ros_StableImage = ''shop:1'',
     ros_CanaryImage = ''shop:2'', ros_Steps = steps,
     ros_HealthCheck = \<lparr>hc_Type = HealthCheckPodReady, hc_IntervalSeconds = 30, hc_FailureThreshold = 3,
       hc_HTTPPath = '''', hc_PrometheusQueryExpr = '''', hc_PrometheusThreshold = ''''\<rparr>,
     ros_TrafficRouting = \<lparr>tf_Type = TrafficRoutingDeploymentWeight, tf_IngressRef = ''''\<rparr>,
     ros_AutoRollback = True\<rparr>"

definition ex_two_steps :: RolloutSpec where
  "ex_two_steps = ex_spec [ex_step 20, ex_step 100]"

lemma ex_two_steps_valid: "valid_steps ex_two_steps" "weight_steps ex_two_steps"
  by (auto simp: ex_two_steps_def ex_spec_def ex_step_def valid_steps_def weights_of_def weight_steps_def)

definition ex_at :: "int \<Rightarrow> int \<Rightarrow> int \<Rightarrow> RolloutStatus" where
  "ex_at idx w cf = rollout_status0\<lparr>rst_Phase := RolloutProgressing, rst_CurrentStepIndex := idx,
     rst_CurrentWeight := w, rst_ConsecutiveFailures := cf\<rparr>"

lemmas ex_engine_simps = ex_at_def ex_two_steps_def ex_spec_def ex_step_def rollout_status0_def
  index_ok_def Evaluate_def healthDecision_def atWeight_def RollbackDecision_def decision0_def Let_def
  i32_def weightReplicas_def i64_def signed_divide_int_def

section \<open>Decisions\<close>

text \<open>No replica is lost or invented: for a rollout with percentages as weights, whatever the
  canary and its health, the canary gets exactly the floor of weight times total over 100 replicas,
  and stable and canary add up to the total (so both are between 0 and the total).\<close>

theorem evaluate_conserves_replicas:
  assumes "valid_steps (ro_Spec ro)" "index_ok ro" "Evaluate now ro ready desired n healthy = Some d"
    and "0 \<le> rst_CurrentWeight (ro_Status ro)" "rst_CurrentWeight (ro_Status ro) \<le> 100" "0 \<le> n" "is_i32 n"
  shows "d_CanaryReplicas d = d_CurrentWeight d * n div 100 \<and> d_CanaryReplicas d + d_StableReplicas d = n \<and>
    0 \<le> d_CanaryReplicas d \<and> 0 \<le> d_StableReplicas d"
proof -
  have w: "0 \<le> d_CurrentWeight d" "d_CurrentWeight d \<le> 100"
    using engine.eval_weight [OF assms(1-3)] assms(1,4,5) by (auto simp: valid_steps_def)
  then have "0 \<le> d_CurrentWeight d * n div 100" "d_CurrentWeight d * n div 100 \<le> n"
    using weightReplicas_bounds [OF w assms(6,7)] weightReplicas_floor [OF w assms(6,7)] by simp_all
  then show ?thesis using engine.eval_split [OF assms] by linarith
qed

lemma evaluate_conserves_replicas_witness:
  "\<exists>d. Evaluate 0 (rollout_at meta0 ex_two_steps (ex_at 0 0 0)) 0 0 10 False = Some d \<and>
     d_CanaryReplicas d = 2 \<and> d_StableReplicas d = 8"
proof -
  let ?ro = "rollout_at meta0 ex_two_steps (ex_at 0 0 0)"
  have e: "Evaluate 0 ?ro 0 0 10 False = Some ((atWeight RolloutProgressing 0 20 10 ''scaling to weight'')
      \<lparr>d_RequeueAfter := healthInterval ex_two_steps\<rparr>)"
    by (simp add: ex_engine_simps)
  have "index_ok ?ro" by (simp add: ex_engine_simps)
  from evaluate_conserves_replicas [OF _ this e] e ex_two_steps_valid show ?thesis
    by (simp add: ex_at_def rollout_status0_def is_i32_def)
qed

text \<open>C8: A step is never skipped and a weight step is only left when it was passed: if a reachable
  rollout's index moves, it moves by one, and off a weight step only when the canary was already
  scaled to that weight, at least one canary pod was wanted, all of them were available and the
  health check held.\<close>

theorem evaluate_health_gate:
  assumes "walk_reachable Evaluate spec st" "valid_steps spec"
    and "Evaluate now (rollout_at m spec st) ready desired n healthy = Some d"
    and "d_CurrentStepIndex d \<noteq> rst_CurrentStepIndex st"
    and "step_Pause (ros_Steps spec ! nat (rst_CurrentStepIndex st)) = None"
    and "step_SetWeight (ros_Steps spec ! nat (rst_CurrentStepIndex st)) = Some w"
  shows "d_CurrentStepIndex d = rst_CurrentStepIndex st + 1 \<and> rst_CurrentWeight st = w \<and>
    0 < desired \<and> desired \<le> ready \<and> healthy"
  using engine.walk_gate [OF assms] by (simp add: pods_ready_def)

definition ex_reached :: RolloutStatus where
  "ex_reached = recordDecision 0 True
     ((atWeight RolloutProgressing 0 20 10 ''scaling to weight'')\<lparr>d_RequeueAfter := healthInterval ex_two_steps\<rparr>)
     (walk_start 0)"

lemma ex_reached_reachable: "walk_reachable Evaluate ex_two_steps ex_reached"
proof -
  have e: "Evaluate 0 (rollout_at meta0 ex_two_steps (walk_start 0)) 0 0 10 False =
      Some ((atWeight RolloutProgressing 0 20 10 ''scaling to weight'')\<lparr>d_RequeueAfter := healthInterval ex_two_steps\<rparr>)"
    by (simp add: ex_engine_simps walk_start_def)
  have "walk_step Evaluate ex_two_steps (walk_start 0) ex_reached"
    unfolding ex_reached_def by (rule walk_decide, simp add: walk_start_def, rule e)
  then show ?thesis by (rule walk_next [OF walk_init])
qed

lemma evaluate_health_gate_witness:
  "\<exists>d. Evaluate 1 (rollout_at meta0 ex_two_steps ex_reached) 2 2 10 True = Some d \<and>
     d_CurrentStepIndex d = 1 \<and> rst_CurrentWeight ex_reached = 20"
proof -
  have s: "step_Pause (ros_Steps ex_two_steps ! nat (rst_CurrentStepIndex ex_reached)) = None"
    "step_SetWeight (ros_Steps ex_two_steps ! nat (rst_CurrentStepIndex ex_reached)) = Some 20"
    by (simp_all add: ex_reached_def ex_two_steps_def ex_spec_def ex_step_def)
  have i: "index_ok (rollout_at meta0 ex_two_steps ex_reached)"
    and lt: "rst_CurrentStepIndex ex_reached < int (length (ros_Steps ex_two_steps))"
    by (simp_all add: ex_reached_def ex_two_steps_def ex_spec_def)
  obtain d where d: "Evaluate 1 (rollout_at meta0 ex_two_steps ex_reached) 2 2 10 True = Some d"
    using engine.eval_total [OF _ i] ex_two_steps_valid(1) by fastforce
  have m: "d_CurrentStepIndex d = rst_CurrentStepIndex ex_reached + 1"
    using engine.eval_advance [OF _ i _ _ _ _ _ _ d] lt s ex_two_steps_valid(1)
    by (simp add: pods_ready_def ex_reached_def)
  then have "d_CurrentStepIndex d \<noteq> rst_CurrentStepIndex ex_reached" by simp
  from evaluate_health_gate [OF ex_reached_reachable ex_two_steps_valid(1) d this s] d m show ?thesis
    by (simp add: ex_reached_def)
qed

text \<open>C25: The engine only gives up on a canary that failed: it decides Failed or RollingBack only
  when the canary is not both up and healthy, a threshold is configured, and counting this check the
  consecutive failures reach it. It rolls back (weight 0, no canary replica, all replicas stable)
  exactly under automatic rollback, and fails the rollout at its weight otherwise.\<close>

theorem evaluate_gives_up_after_threshold:
  assumes "valid_steps (ro_Spec ro)" "index_ok ro" "is_i32 (rst_ConsecutiveFailures (ro_Status ro))"
    and "Evaluate now ro ready desired n healthy = Some d" "d_Phase d \<in> {RolloutFailed, RolloutRollingBack}"
  shows "\<not> (0 < desired \<and> desired \<le> ready \<and> healthy) \<and>
    0 < hc_FailureThreshold (ros_HealthCheck (ro_Spec ro)) \<and>
    hc_FailureThreshold (ros_HealthCheck (ro_Spec ro)) \<le> rst_ConsecutiveFailures (ro_Status ro) + 1 \<and>
    (d_Phase d = RolloutRollingBack \<longleftrightarrow> ros_AutoRollback (ro_Spec ro)) \<and>
    (d_Phase d = RolloutRollingBack \<longrightarrow> d_CurrentWeight d = 0 \<and> d_CanaryReplicas d = 0 \<and> d_StableReplicas d = n) \<and>
    (d_Phase d = RolloutFailed \<longrightarrow> d_CurrentWeight d = rst_CurrentWeight (ro_Status ro))"
proof -
  have g: "\<not> (0 < desired \<and> desired \<le> ready \<and> healthy) \<and>
    0 < hc_FailureThreshold (ros_HealthCheck (ro_Spec ro)) \<and>
    hc_FailureThreshold (ros_HealthCheck (ro_Spec ro)) \<le> rst_ConsecutiveFailures (ro_Status ro) + 1"
    using engine.eval_give_up [OF assms(1-5)] by (auto simp: pods_ready_def)
  show ?thesis
  proof (cases rule: Evaluate_cases [OF assms(1,2,4)])
    case (4 w)
    with assms(5) g show ?thesis
      by (auto simp: healthDecision_def Let_def split: if_splits)
  qed (use assms(5) in auto)
qed

lemma evaluate_gives_up_after_threshold_witness:
  "\<exists>d. Evaluate 0 (rollout_at meta0 ex_two_steps (ex_at 0 20 2)) 2 2 10 False = Some d \<and>
     d_Phase d = RolloutRollingBack \<and> d_StableReplicas d = 10"
proof -
  let ?ro = "rollout_at meta0 ex_two_steps (ex_at 0 20 2)"
  obtain d where d: "Evaluate 0 ?ro 2 2 10 False = Some d" "d_Phase d = RolloutRollingBack"
    by (simp add: ex_engine_simps)
  have "index_ok ?ro" "is_i32 (rst_ConsecutiveFailures (ro_Status ?ro))"
    by (simp_all add: ex_engine_simps is_i32_def)
  from evaluate_gives_up_after_threshold [OF _ this d(1)] d ex_two_steps_valid show ?thesis by simp
qed

section \<open>Walks\<close>

text \<open>C23: Along every walk of a rollout, whatever is observed, the step index stays between 0 and
  the number of steps, so \<open>Evaluate\<close> never panics; the weight is 0 or one that a step names; and a
  rollout that became Healthy or Failed has a completion time.\<close>

theorem walk_invariant:
  assumes "walk_reachable Evaluate spec st" "valid_steps spec"
  shows "0 \<le> rst_CurrentStepIndex st \<and> rst_CurrentStepIndex st \<le> int (length (ros_Steps spec)) \<and>
    (rst_CurrentWeight st = 0 \<or> (\<exists>s\<in>set (ros_Steps spec). step_SetWeight s = Some (rst_CurrentWeight st))) \<and>
    (rst_Phase st \<in> {RolloutHealthy, RolloutFailed} \<longrightarrow> rst_CompletionTime st \<noteq> None) \<and>
    (\<forall>now m ready desired n healthy. Evaluate now (rollout_at m spec st) ready desired n healthy \<noteq> None)"
  using engine.walk_reachable_inv [OF assms] engine.walk_total [OF assms]
  by (auto simp: walk_inv_def weights_of_def)

lemma walk_invariant_witness:
  "rst_CurrentWeight ex_reached = 20 \<and> 0 \<le> rst_CurrentStepIndex ex_reached \<and> rst_CurrentStepIndex ex_reached \<le> 2"
  using walk_invariant [OF ex_reached_reachable ex_two_steps_valid(1)]
  by (simp add: ex_reached_def ex_two_steps_def ex_spec_def)

text \<open>C24: A rollout of weight steps whose canary stays up and healthy completes: from its start, any
  2 n + 2 or more reconciles (n the number of steps) end in phase Healthy.\<close>

theorem healthy_rollout_completes:
  assumes "valid_steps spec" "weight_steps spec" "0 < desired" "desired \<le> ready"
    and "2 * length (ros_Steps spec) + 1 \<le> k"
  shows "rst_Phase ((good_tick Evaluate now m spec ready desired n ^^ Suc k) (walk_start t0)) = RolloutHealthy"
proof (rule engine.good_ticks_complete [OF assms(1,2)])
  show "pods_ready ready desired" using assms(3,4) by (simp add: pods_ready_def)
  show "ticks_left spec (walk_start t0) \<le> k"
    using assms(5) by (simp add: ticks_left_def walk_start_def rollout_status0_def)
qed (simp_all add: walk_start_def rollout_status0_def)

lemma healthy_rollout_completes_witness:
  "rst_Phase ((good_tick Evaluate 0 meta0 ex_two_steps 2 2 10 ^^ 6) (walk_start 0)) = RolloutHealthy"
proof -
  have "rst_Phase ((good_tick Evaluate 0 meta0 ex_two_steps 2 2 10 ^^ Suc 5) (walk_start 0)) = RolloutHealthy"
    by (rule healthy_rollout_completes [OF ex_two_steps_valid])
      (simp_all add: ex_two_steps_def ex_spec_def)
  then show ?thesis by (simp add: numeral_eq_Suc)
qed

text \<open>The completion above needs a canary of at least one pod. A step whose weight rounds down
  to no canary replica (weight times total below 100) is never left, however healthy everything is
  and however often the rollout is reconciled: the reconciler scales the canary to 0, and 0 wanted
  pods never count as ready.\<close>

theorem zero_replica_step_stuck:
  assumes "valid_steps spec" "0 \<le> rst_CurrentStepIndex st"
    and "rst_CurrentStepIndex st < int (length (ros_Steps spec))"
    and "step_Pause (ros_Steps spec ! nat (rst_CurrentStepIndex st)) = None"
    and "step_SetWeight (ros_Steps spec ! nat (rst_CurrentStepIndex st)) = Some w"
    and "rst_CurrentWeight st = w" "rst_ConsecutiveFailures st = 0" "0 \<le> n" "is_i32 n" "w * n < 100"
  shows "rst_CurrentStepIndex ((good_tick Evaluate now m spec ready (weightReplicas w n) n ^^ k) st) =
      rst_CurrentStepIndex st"
proof -
  have w: "0 \<le> w" "w \<le> 100"
    using step_weight_valid [OF assms(1) nth_mem assms(5)] assms(2,3) by (simp_all add: nat_less_iff)
  have z: "weightReplicas w n = 0"
    using weightReplicas_floor [OF w assms(8,9)] assms(8,10) w by simp
  let ?P = "\<lambda>s. rst_CurrentStepIndex s = rst_CurrentStepIndex st \<and> rst_CurrentWeight s = w \<and>
    rst_ConsecutiveFailures s = 0"
  have step: "?P (good_tick Evaluate now m spec ready (weightReplicas w n) n s)" if "?P s" for s
    using that assms(2-5) z Evaluate_step [of "rollout_at m spec s" now ready 0 n True] assms(1)
    by (auto simp: good_tick_def healthDecision_def Let_def)
  have "?P ((good_tick Evaluate now m spec ready (weightReplicas w n) n ^^ k) st)"
    using assms(6,7) step by (induction k) auto
  then show ?thesis by simp
qed

lemma zero_replica_step_stuck_witness:
  "rst_CurrentStepIndex ((good_tick Evaluate 0 meta0 ex_two_steps 5 (weightReplicas 20 2) 2 ^^ 1000) (ex_at 0 20 0)) = 0"
proof -
  have "rst_CurrentStepIndex ((good_tick Evaluate 0 meta0 ex_two_steps 5 (weightReplicas 20 2) 2 ^^ 1000) (ex_at 0 20 0)) =
      rst_CurrentStepIndex (ex_at 0 20 0)"
    by (rule zero_replica_step_stuck [OF ex_two_steps_valid(1)])
      (simp_all add: ex_at_def rollout_status0_def ex_two_steps_def ex_spec_def ex_step_def is_i32_def)
  then show ?thesis by (simp add: ex_at_def rollout_status0_def)
qed

section \<open>Pauses\<close>

text \<open>C26: A pause step ends only by its clock: if \<open>Evaluate\<close> moves off a pause step, the pause has a
  duration, the pause-start annotation carries this very step index and an entry time, at least the
  duration has passed since then, and the canary is healthy; the weight is held. A pause without a
  duration is never left.\<close>

theorem pause_ends_by_clock:
  assumes "valid_steps (ro_Spec ro)" "index_ok ro"
    and "rst_CurrentStepIndex (ro_Status ro) < int (length (ros_Steps (ro_Spec ro)))"
    and "step_Pause (cur_step ro) = Some pause" "Evaluate now ro ready desired n healthy = Some d"
    and "d_CurrentStepIndex d \<noteq> rst_CurrentStepIndex (ro_Status ro)"
  shows "\<exists>dur startedAt. pause_Duration pause = Some dur \<and>
    ParsePauseStart (map_get (om_Annotations (ro_Meta ro)) PauseStartAnnotation) =
      Some (rst_CurrentStepIndex (ro_Status ro), startedAt) \<and>
    dur \<le> since now startedAt \<and> healthy \<and> d_CurrentWeight d = rst_CurrentWeight (ro_Status ro)"
  using assms(4-6) Evaluate_step [OF assms(1-3), of now ready desired n healthy]
  by (auto simp: pauseDecision_def Let_def split: option.splits if_splits)

definition ex_pause :: Rollout where
  "ex_pause = rollout_at (meta0\<lparr>om_Annotations := [PauseStartAnnotation \<mapsto> FormatPauseStart 0 0]\<rparr>)
     (ex_spec [\<lparr>step_SetWeight = None, step_Pause = Some \<lparr>pause_Duration = Some (3600 * second)\<rparr>\<rparr>])
     (ex_at 0 20 0)"

lemma pause_start_zero: "ParsePauseStart (FormatPauseStart 0 0) = Some (0, 0)"
  by code_simp

lemma pause_ends_by_clock_witness:
  "\<exists>d startedAt. Evaluate (3600 * second) ex_pause 2 2 10 True = Some d \<and>
     ParsePauseStart (FormatPauseStart 0 0) = Some (0, startedAt) \<and> 3600 * second \<le> since (3600 * second) startedAt"
proof -
  have v: "valid_steps (ro_Spec ex_pause)" "index_ok ex_pause"
    "rst_CurrentStepIndex (ro_Status ex_pause) < int (length (ros_Steps (ro_Spec ex_pause)))"
    by (simp_all add: ex_pause_def ex_spec_def ex_at_def rollout_status0_def valid_steps_def weights_of_def)
  have p: "step_Pause (cur_step ex_pause) = Some \<lparr>pause_Duration = Some (3600 * second)\<rparr>"
    by (simp add: ex_pause_def cur_step_def ex_spec_def ex_at_def rollout_status0_def)
  obtain d where d: "Evaluate (3600 * second) ex_pause 2 2 10 True = Some d"
    "d_CurrentStepIndex d \<noteq> rst_CurrentStepIndex (ro_Status ex_pause)"
    by (simp add: Evaluate_step [OF v] p pauseDecision_def Let_def)
      (simp add: ex_pause_def map_get_def pause_start_zero ex_at_def rollout_status0_def since_def second_def i32_def)
  from pause_ends_by_clock [OF v p d] d(1) show ?thesis
    by (auto simp: ex_pause_def map_get_def ex_at_def rollout_status0_def)
qed

text \<open>The pause clock survives the round trip through the annotation: the value the reconciler
  stamps is parsed back to the same step index and the same time, to the second.\<close>

theorem pause_start_roundtrip:
  assumes "is_i32 stepIndex" "- (2 ^ 63) \<le> t" "t < 2 ^ 63"
  shows "ParsePauseStart (FormatPauseStart stepIndex t) = Some (stepIndex, t div second * second)"
proof -
  have "CHR ''|'' \<notin> set (itoa stepIndex)" using itoa_chars by fastforce
  then have "cut CHR ''|'' (FormatPauseStart stepIndex t) = Some (itoa stepIndex, rfc3339_format t)"
    by (simp add: FormatPauseStart_def cut_append)
  moreover have "atoi (itoa stepIndex) = Some stepIndex"
    using assms(1) by (intro atoi_itoa) (simp_all add: is_i32_def)
  moreover obtain y m d where c: "civil_of_days (day_number t) = (y, m, d)"
    by (cases "civil_of_days (day_number t)") auto
  moreover have "rfc3339_parse (rfc3339_format t) = Some (t div second * second)"
    using rfc3339_roundtrip [OF c] year_of_clock [OF c assms(2,3)] by simp
  ultimately show ?thesis using assms(1) by (simp add: ParsePauseStart_def)
qed

lemma pause_start_roundtrip_witness:
  "ParsePauseStart (FormatPauseStart 1 1700000000500000000) = Some (1, 1700000000000000000)"
  using pause_start_roundtrip [of 1 1700000000500000000] by (simp add: is_i32_def second_def)

end
