(* ===== verification/Health.thy ===== *)
theory Health
  imports Go_Std
begin

text \<open>
  \<open>src/pkg/health/health.go\<close>: the active health probes. The network and IEEE
  floating point are parameters: \<open>http_get url timeout\<close> is the status code and the first bytes (at
  most 4096) of the body of a GET, or \<open>None\<close> for a transport error; \<open>parseFloat\<close> is the value
  \<open>strconv.ParseFloat\<close> parses to, and \<open>fle\<close> the comparison \<open><=\<close> of two floats.
\<close>

type_synonym http_get = "string \<Rightarrow> duration \<Rightarrow> (int \<times> string) option"
type_synonym 'f parse_float = "string \<Rightarrow> 'f option"
type_synonym 'f float_le = "'f \<Rightarrow> 'f \<Rightarrow> bool"

text \<open>\<open>strings.Fields\<close> on ASCII text.\<close>

fun Fields :: "string \<Rightarrow> string list" where
  "Fields [] = []"
| "Fields (c # cs) =
     (if is_space c then Fields cs
      else (case Fields cs of
              [] \<Rightarrow> [[c]]
            | f # fs \<Rightarrow> if cs = [] \<or> is_space (hd cs) then [c] # f # fs else (c # f) # fs))"

text \<open>The answer of \<open>HTTPProbeErr\<close> is the status code; an error is \<open>Inl\<close> of the code (0 without one).\<close>

definition HTTPProbeErr :: "http_get \<Rightarrow> string \<Rightarrow> duration \<Rightarrow> int + int" where
  "HTTPProbeErr http_get url timeout =
     (let timeout = (if timeout \<le> 0 then 5 * second else timeout) in
      case http_get url timeout of
        None \<Rightarrow> Inl 0
      | Some (code, body) \<Rightarrow> if code < 200 \<or> code \<ge> 300 then Inl code else Inr code)"

definition HTTPProbe :: "http_get \<Rightarrow> string \<Rightarrow> duration \<Rightarrow> bool" where
  "HTTPProbe http_get url timeout = (case HTTPProbeErr http_get url timeout of Inl _ \<Rightarrow> False | Inr _ \<Rightarrow> True)"

text \<open>\<open>None\<close> is the error of a value or threshold that does not parse.\<close>

definition ThresholdMet :: "'f parse_float \<Rightarrow> 'f float_le \<Rightarrow> string \<Rightarrow> string \<Rightarrow> bool option" where
  "ThresholdMet parseFloat fle value threshold =
     (case parseFloat (TrimSpace value) of
        None \<Rightarrow> None
      | Some v \<Rightarrow>
          (case parseFloat (TrimSpace threshold) of
             None \<Rightarrow> None
           | Some t \<Rightarrow> Some (fle v t)))"

definition PrometheusQueryOK ::
  "http_get \<Rightarrow> 'f parse_float \<Rightarrow> 'f float_le \<Rightarrow> string \<Rightarrow> string \<Rightarrow> string \<Rightarrow> duration \<Rightarrow> bool" where
  "PrometheusQueryOK http_get parseFloat fle endpoint expr threshold timeout =
     (let url = (if CHR ''?'' \<in> set endpoint then endpoint @ ''&query='' @ expr
                 else endpoint @ ''?query='' @ expr);
          timeout = (if timeout \<le> 0 then 5 * second else timeout) in
      case http_get url timeout of
        None \<Rightarrow> False
      | Some (code, body) \<Rightarrow>
          if code \<noteq> 200 then False
          else if body = [] then False
          else
            (let fields = Fields (TrimSpace body) in
             if fields = [] then False
             else case ThresholdMet parseFloat fle (last fields) threshold of
                    None \<Rightarrow> False
                  | Some met \<Rightarrow> met))"

section \<open>Fail-safe\<close>

lemma HTTPProbe_iff:
  "HTTPProbe http_get url timeout \<longleftrightarrow>
     (\<exists>code body. http_get url (if timeout \<le> 0 then 5 * second else timeout) = Some (code, body) \<and>
        200 \<le> code \<and> code < 300)"
  by (auto simp: HTTPProbe_def HTTPProbeErr_def Let_def split: option.splits)

lemma ThresholdMet_True:
  "ThresholdMet parseFloat fle value threshold = Some True \<Longrightarrow>
     \<exists>v t. parseFloat (TrimSpace value) = Some v \<and> parseFloat (TrimSpace threshold) = Some t \<and> fle v t"
  by (auto simp: ThresholdMet_def split: option.splits)

lemma PrometheusQueryOK_D:
  assumes "PrometheusQueryOK http_get parseFloat fle endpoint expr threshold timeout"
  shows "\<exists>url body. http_get url (if timeout \<le> 0 then 5 * second else timeout) = Some (200, body) \<and>
    Fields (TrimSpace body) \<noteq> [] \<and>
    ThresholdMet parseFloat fle (last (Fields (TrimSpace body))) threshold = Some True"
proof -
  let ?url = "if CHR ''?'' \<in> set endpoint then endpoint @ ''&query='' @ expr else endpoint @ ''?query='' @ expr"
  let ?t = "if timeout \<le> 0 then 5 * second else timeout"
  show ?thesis
  proof (cases "http_get ?url ?t")
    case None
    with assms show ?thesis by (simp add: PrometheusQueryOK_def)
  next
    case (Some r)
    obtain code body where r: "r = (code, body)" by fastforce
    with Some assms have "code = 200" "Fields (TrimSpace body) \<noteq> []"
      "(case ThresholdMet parseFloat fle (last (Fields (TrimSpace body))) threshold of None \<Rightarrow> False | Some met \<Rightarrow> met)"
      unfolding PrometheusQueryOK_def Let_def by (simp_all split: if_split_asm)
    moreover from this(3) have "ThresholdMet parseFloat fle (last (Fields (TrimSpace body))) threshold = Some True"
      by (simp split: option.split_asm)
    ultimately show ?thesis using Some r by blast
  qed
qed

end
