(* ===== verification/Rollout_Controller.thy ===== *)
theory Rollout_Controller
  imports Kube Canary_Engine Health
begin

text \<open>
  \<open>src/internal/controller/rollout_controller.go\<close>: the reconciler of progressive delivery. It owns
  the stable and the canary Deployment, the Service and the canary Ingress of a rollout, consumes
  the operator's commands, and applies and records what the canary engine decides. A clock reading
  \<open>now\<close> stands for the readings within one reconcile; a panic (a negative step index) is an error.
\<close>

section \<open>Configuration\<close>

record 'f RolloutEnv =
  re_HttpGet :: http_get
  re_ParseFloat :: "'f parse_float"
  re_FloatLe :: "'f float_le"
  re_PrometheusEndpoint :: string
  re_SvcTargetPort :: string
  re_CanaryIngressEnabled :: bool

definition defaultRolloutReplicas :: int where "defaultRolloutReplicas = 2"
definition healthCheckInterval :: duration where "healthCheckInterval = 30 * second"

definition appLabel :: string where "appLabel = ''app''"
definition rolloutLabel :: string where "rolloutLabel = ''sdp.io/rollout''"
definition managedByLabel :: string where "managedByLabel = ''sdp.io/managed''"
definition managedByRollout :: string where "managedByRollout = ''rollout''"
definition annRolloutAction :: string where "annRolloutAction = ''sdp.io/rollout-action''"
definition annRolloutPaused :: string where "annRolloutPaused = ''sdp.io/rollout-paused''"
definition annRolloutAborted :: string where "annRolloutAborted = ''sdp.io/rollout-aborted''"
definition annRolloutOper :: string where "annRolloutOper = ''sdp.io/rollout-operator''"

lemmas rollout_constants = appLabel_def rolloutLabel_def managedByLabel_def managedByRollout_def
  annRolloutAction_def annRolloutPaused_def annRolloutAborted_def annRolloutOper_def

section \<open>Pure helpers\<close>

text \<open>The controller has its own copy of the engine's \<open>weightReplicas\<close>.\<close>

definition controllerWeightReplicas :: "int \<Rightarrow> int \<Rightarrow> int" where
  "controllerWeightReplicas weight n = (if n \<le> 0 then 0 else i32 (i64 (weight * n) sdiv 100))"

definition resolveTotalReplicas :: "int option \<Rightarrow> int option \<Rightarrow> int" where
  "resolveTotalReplicas specReplicas liveReplicas =
     (case specReplicas of
        Some n \<Rightarrow> n
      | None \<Rightarrow> (case liveReplicas of Some n \<Rightarrow> n | None \<Rightarrow> defaultRolloutReplicas))"

definition canaryReplicaState :: "Deployment option \<Rightarrow> int \<times> int" where
  "canaryReplicaState dep =
     (case dep of
        None \<Rightarrow> (0, 0)
      | Some d \<Rightarrow> (dep_AvailableReplicas d, (case dep_Replicas d of Some n \<Rightarrow> n | None \<Rightarrow> 0)))"

definition canaryDeploymentHasReplicaFailure :: "Deployment option \<Rightarrow> bool" where
  "canaryDeploymentHasReplicaFailure dep =
     (case dep of
        None \<Rightarrow> False
      | Some d \<Rightarrow> list_ex (\<lambda>c. cond_Type c = ''ReplicaFailure'' \<and> cond_Status c = ''True'') (dep_Conditions d))"

definition rolloutSvcTargetPortEnv :: "string \<Rightarrow> int" where
  "rolloutSvcTargetPortEnv v =
     (if v = '''' then 0
      else case atoi v of None \<Rightarrow> 0 | Some n \<Rightarrow> if n \<le> 0 then 0 else i32 n)"

fun firstContainerPort :: "Container list \<Rightarrow> int option" where
  "firstContainerPort [] = None"
| "firstContainerPort (c # cs) = (case con_Ports c of [] \<Rightarrow> firstContainerPort cs | p # _ \<Rightarrow> Some p)"

definition resolveServiceTargetPort :: "Deployment option \<Rightarrow> int \<Rightarrow> int" where
  "resolveServiceTargetPort stableDep envPort =
     (if envPort > 0 then envPort
      else case stableDep of
        None \<Rightarrow> 8080
      | Some d \<Rightarrow> (case firstContainerPort (dep_Containers d) of Some p \<Rightarrow> p | None \<Rightarrow> 8080))"

text \<open>\<open>Inl\<close> is the panic of a negative index.\<close>

definition currentStep :: "Rollout \<Rightarrow> CanaryStep option result" where
  "currentStep ro =
     (let i = rst_CurrentStepIndex (ro_Status ro) in
      if i < int (length (ros_Steps (ro_Spec ro))) then
        if i < 0 then Inl (Err ''panic: index out of range'')
        else Inr (Some (ros_Steps (ro_Spec ro) ! nat i))
      else Inr None)"

definition canaryHealthy :: "'f RolloutEnv \<Rightarrow> Rollout \<Rightarrow> bool \<Rightarrow> bool" where
  "canaryHealthy env ro podsReady =
     (if \<not> podsReady then False
      else
        let hc = ros_HealthCheck (ro_Spec ro); timeout = seconds (hc_IntervalSeconds hc) in
        case hc_Type hc of
          HealthCheckHTTPProbe \<Rightarrow>
            (let path = (if hc_HTTPPath hc = '''' then ''/'' else hc_HTTPPath hc);
                 url = ''http://'' @ ros_WorkloadRef (ro_Spec ro) @ ''-sdp.'' @ om_Namespace (ro_Meta ro) @
                   ''.svc.cluster.local:80'' @ path in
             case HTTPProbeErr (re_HttpGet env) url timeout of Inl _ \<Rightarrow> False | Inr _ \<Rightarrow> True)
        | HealthCheckPrometheusQuery \<Rightarrow>
            if re_PrometheusEndpoint env = '''' then False
            else PrometheusQueryOK (re_HttpGet env) (re_ParseFloat env) (re_FloatLe env)
              (re_PrometheusEndpoint env) (hc_PrometheusQueryExpr hc) (hc_PrometheusThreshold hc) timeout
        | _ \<Rightarrow> True)"

section \<open>Managed objects\<close>

definition workloadDeployment :: "Rollout \<Rightarrow> string \<Rightarrow> int \<Rightarrow> string \<Rightarrow> Deployment" where
  "workloadDeployment ro name replicas img =
     \<lparr>dep_Meta = meta0
        \<lparr>om_Name := name, om_Namespace := om_Namespace (ro_Meta ro),
         om_Labels := [appLabel \<mapsto> ros_WorkloadRef (ro_Spec ro), rolloutLabel \<mapsto> ros_WorkloadRef (ro_Spec ro),
                       managedByLabel \<mapsto> managedByRollout]\<rparr>,
      dep_Replicas = Some replicas,
      dep_Selector = [appLabel \<mapsto> ros_WorkloadRef (ro_Spec ro)],
      dep_PodLabels = [appLabel \<mapsto> ros_WorkloadRef (ro_Spec ro)],
      dep_Containers = [container0\<lparr>con_Name := ''app'', con_Image := img\<rparr>],
      dep_AvailableReplicas = 0, dep_Conditions = []\<rparr>"

definition buildStable :: "Rollout \<Rightarrow> int \<Rightarrow> Deployment" where
  "buildStable ro replicas =
     workloadDeployment ro (ros_WorkloadRef (ro_Spec ro)) replicas (ros_StableImage (ro_Spec ro))"

text \<open>A failed \<open>SetControllerReference\<close> is logged and the object left as it is.\<close>

definition ownedBy :: "'c kclient \<Rightarrow> Rollout \<Rightarrow> ObjectMeta \<Rightarrow> ObjectMeta" where
  "ownedBy k ro m = (case setControllerReference k ''Rollout'' (ro_Meta ro) m of Inl _ \<Rightarrow> m | Inr m' \<Rightarrow> m')"

definition getStable :: "'c kclient \<Rightarrow> Rollout \<Rightarrow> ('c, Deployment option) kio" where
  "getStable k ro = do {
     res \<leftarrow> getDep k (okey (om_Namespace (ro_Meta ro)) (ros_WorkloadRef (ro_Spec ro)));
     ret (case res of Inl _ \<Rightarrow> None | Inr d \<Rightarrow> Some d)
   }"

definition ensureWorkload :: "'c kclient \<Rightarrow> Rollout \<Rightarrow> ('c, int) kio" where
  "ensureWorkload k ro = do {
     dep \<leftarrow> getStable k ro;
     let live = (case dep of None \<Rightarrow> None | Some d \<Rightarrow> dep_Replicas d);
     let n = resolveTotalReplicas (ros_Replicas (ro_Spec ro)) live;
     case dep of
       Some _ \<Rightarrow> ret n
     | None \<Rightarrow> do {
         let stableDep = buildStable ro n;
         _ \<leftarrow> createDep k (stableDep\<lparr>dep_Meta := ownedBy k ro (dep_Meta stableDep)\<rparr>);
         ret n
       }
   }"

definition ensureCanary :: "'c kclient \<Rightarrow> Rollout \<Rightarrow> ('c, Deployment option) kio" where
  "ensureCanary k ro = do {
     let name = ros_WorkloadRef (ro_Spec ro) @ ''-canary'';
     res \<leftarrow> getDep k (okey (om_Namespace (ro_Meta ro)) name);
     case res of
       Inr d \<Rightarrow> ret (Some d)
     | Inl err \<Rightarrow>
         if err \<noteq> NotFound then ret None
         else do {
           let dep = workloadDeployment ro name 0 (ros_CanaryImage (ro_Spec ro));
           let dep = dep\<lparr>dep_Meta := ownedBy k ro (dep_Meta dep)\<rparr>;
           res \<leftarrow> createDep k dep;
           case res of
             Inr d \<Rightarrow> ret (Some d)
           | Inl err \<Rightarrow> if err \<noteq> AlreadyExists then ret None else ret (Some dep)
         }
   }"

definition ensureService ::
  "'c kclient \<Rightarrow> 'f RolloutEnv \<Rightarrow> Rollout \<Rightarrow> Deployment option \<Rightarrow> ('c, Service option) kio" where
  "ensureService k env ro stableDep = do {
     let name = ros_WorkloadRef (ro_Spec ro) @ ''-sdp'';
     res \<leftarrow> getSvc k (okey (om_Namespace (ro_Meta ro)) name);
     case res of
       Inr svc \<Rightarrow> ret (Some svc)
     | Inl err \<Rightarrow>
         if err \<noteq> NotFound then ret None
         else do {
           let targetPort = resolveServiceTargetPort stableDep (rolloutSvcTargetPortEnv (re_SvcTargetPort env));
           let svc =
             \<lparr>svc_Meta = meta0
                \<lparr>om_Name := name, om_Namespace := om_Namespace (ro_Meta ro),
                 om_Labels := [rolloutLabel \<mapsto> ros_WorkloadRef (ro_Spec ro), managedByLabel \<mapsto> managedByRollout]\<rparr>,
              svc_Type = ''ClusterIP'',
              svc_Selector = [appLabel \<mapsto> ros_WorkloadRef (ro_Spec ro)],
              svc_Ports = [\<lparr>sp_Name = ''http'', sp_Port = 80, sp_TargetPort = targetPort\<rparr>]\<rparr>;
           let svc = svc\<lparr>svc_Meta := ownedBy k ro (svc_Meta svc)\<rparr>;
           res \<leftarrow> createSvc k svc;
           case res of
             Inr s \<Rightarrow> ret (Some s)
           | Inl err \<Rightarrow> if err \<noteq> AlreadyExists then ret None else ret (Some svc)
         }
   }"

text \<open>
  The patched Deployment is decoded into \<open>dep\<close>; when the patch fails the local copy keeps the new
  replica count and the failure is only logged.
\<close>

definition scaleDeployment :: "'c kclient \<Rightarrow> Deployment \<Rightarrow> int \<Rightarrow> ('c, Deployment) kio" where
  "scaleDeployment k dep replicas =
     (if dep_Replicas dep = Some replicas then ret dep
      else do {
        let dep' = dep\<lparr>dep_Replicas := Some replicas\<rparr>;
        res \<leftarrow> patchDep k dep dep';
        ret (case res of Inl _ \<Rightarrow> dep' | Inr d \<Rightarrow> d)
      })"

definition canaryIngressSpec :: "string \<Rightarrow> string \<Rightarrow> string \<Rightarrow> string \<Rightarrow> IngressSpec" where
  "canaryIngressSpec host path workloadRef ns =
     \<lparr>ing_Host = host, ing_Path = path, ing_PathType = ''Prefix'',
      ing_ServiceName = workloadRef @ ''-sdp'', ing_ServicePort = 80\<rparr>"

definition annCanaryWeight :: string where
  "annCanaryWeight = ''nginx.ingress.kubernetes.io/canary-weight''"

definition ensureCanaryIngress :: "'c kclient \<Rightarrow> 'f RolloutEnv \<Rightarrow> Rollout \<Rightarrow> int \<Rightarrow> ('c, unit) kio" where
  "ensureCanaryIngress k env ro weight =
     (if tf_Type (ros_TrafficRouting (ro_Spec ro)) \<noteq> TrafficRoutingIngressCanary then ret ()
      else if \<not> re_CanaryIngressEnabled env then ret ()
      else do {
        let name = ros_WorkloadRef (ro_Spec ro) @ ''-sdp-canary'';
        let host = ros_WorkloadRef (ro_Spec ro) @ ''.sdp.local'';
        let path = (if tf_IngressRef (ros_TrafficRouting (ro_Spec ro)) = '''' then ''/''
                    else tf_IngressRef (ros_TrafficRouting (ro_Spec ro)));
        res \<leftarrow> getIng k (okey (om_Namespace (ro_Meta ro)) name);
        case res of
          Inl err \<Rightarrow>
            if err = NotFound then do {
              let ing =
                \<lparr>ing_Meta = meta0
                   \<lparr>om_Name := name, om_Namespace := om_Namespace (ro_Meta ro),
                    om_Labels := [rolloutLabel \<mapsto> ros_WorkloadRef (ro_Spec ro), managedByLabel \<mapsto> managedByRollout],
                    om_Annotations := [''kubernetes.io/ingress.class'' \<mapsto> ''nginx'',
                                       ''nginx.ingress.kubernetes.io/canary'' \<mapsto> ''true'',
                                       annCanaryWeight \<mapsto> itoa weight]\<rparr>,
                 ing_Spec = canaryIngressSpec host path (ros_WorkloadRef (ro_Spec ro)) (om_Namespace (ro_Meta ro))\<rparr>;
              _ \<leftarrow> createIng k (ing\<lparr>ing_Meta := ownedBy k ro (ing_Meta ing)\<rparr>);
              ret ()
            }
            else ret ()
        | Inr ing \<Rightarrow> do {
            _ \<leftarrow> patchIng k ing (ing\<lparr>ing_Meta := (ing_Meta ing)
              \<lparr>om_Annotations := (om_Annotations (ing_Meta ing))(annCanaryWeight \<mapsto> itoa weight)\<rparr>\<rparr>);
            ret ()
          }
      })"

definition applyDecision ::
  "'c kclient \<Rightarrow> 'f RolloutEnv \<Rightarrow> Rollout \<Rightarrow> Decision \<Rightarrow> Deployment option \<Rightarrow> ('c, unit) kio" where
  "applyDecision k env ro d canaryDep = do {
     stableDep \<leftarrow> getStable k ro;
     stableDep \<leftarrow> (case stableDep of
         None \<Rightarrow> ret None
       | Some s \<Rightarrow> do { s' \<leftarrow> scaleDeployment k s (d_StableReplicas d); ret (Some s') });
     _ \<leftarrow> (case canaryDep of
         None \<Rightarrow> ret ()
       | Some c \<Rightarrow> do { _ \<leftarrow> scaleDeployment k c (d_CanaryReplicas d); ret () });
     _ \<leftarrow> ensureService k env ro stableDep;
     ensureCanaryIngress k env ro (d_CurrentWeight d)
   }"

section \<open>Operator commands\<close>

definition setAnnotations :: "(string \<rightharpoonup> string) \<Rightarrow> Rollout \<Rightarrow> Rollout" where
  "setAnnotations ann ro = ro\<lparr>ro_Meta := (ro_Meta ro)\<lparr>om_Annotations := ann\<rparr>\<rparr>"

abbreviation ro_ann :: "Rollout \<Rightarrow> string \<Rightarrow> string" where
  "ro_ann ro key \<equiv> map_get (om_Annotations (ro_Meta ro)) key"

text \<open>The status that \<open>promote\<close> sets.\<close>

definition promoteStatus :: "gotime \<Rightarrow> string \<Rightarrow> Rollout \<Rightarrow> RolloutStatus" where
  "promoteStatus now operatorSuffix ro =
     (let st = ro_Status ro; steps = ros_Steps (ro_Spec ro) in
      if rst_CurrentStepIndex st \<ge> int (length steps) then
        (let st = st\<lparr>rst_Phase := RolloutHealthy\<rparr>;
             st = (if rst_CompletionTime st = None then st\<lparr>rst_CompletionTime := Some now\<rparr> else st) in
         st\<lparr>rst_Message := ''promoted to completion'' @ operatorSuffix\<rparr>)
      else
        (let next = i32 (rst_CurrentStepIndex st + 1);
             weight =
               (if next < int (length steps) then
                  (case step_SetWeight (steps ! nat next) of Some sw \<Rightarrow> sw | None \<Rightarrow> rst_CurrentWeight st)
                else rst_CurrentWeight st) in
         st\<lparr>rst_CurrentStepIndex := next, rst_CurrentWeight := weight, rst_Phase := RolloutProgressing,
            rst_Message := ''promoted'' @ operatorSuffix\<rparr>))"

text \<open>
  The effect of one command on the rollout once the action annotation is cleared: an error, or the
  rollout to persist.
\<close>

definition applyAction ::
  "'c kclient \<Rightarrow> gotime \<Rightarrow> string \<Rightarrow> string \<Rightarrow> Rollout \<Rightarrow> ('c, Rollout result) kio" where
  "applyAction k now action operatorSuffix ro =
     (let ann = om_Annotations (ro_Meta ro) in
      if action = RolloutActionPause then
        (if rst_Phase (ro_Status ro) = RolloutHealthy \<or> rst_Phase (ro_Status ro) = RolloutDegraded then
           ret (Inr (ro\<lparr>ro_Status := (ro_Status ro)\<lparr>rst_Message :=
             ''pause ignored: rollout already '' @ rollout_phase_string (rst_Phase (ro_Status ro))\<rparr>\<rparr>))
         else do {
           res \<leftarrow> patchRO k ro (setAnnotations (ann(annRolloutPaused \<mapsto> ''true'')) ro);
           case res of
             Inl err \<Rightarrow> ret (Inl err)
           | Inr ro' \<Rightarrow> ret (Inr (ro'\<lparr>ro_Status := (ro_Status ro')
               \<lparr>rst_Phase := RolloutPaused, rst_Message := ''paused'' @ operatorSuffix\<rparr>\<rparr>))
         })
      else if action = RolloutActionPromote then
        (if ro_ann ro annRolloutAborted = ''true'' then
           ret (Inr (ro\<lparr>ro_Status := (ro_Status ro)\<lparr>rst_Message := ''promote ignored: rollout was rolled back''\<rparr>\<rparr>))
         else do {
           res \<leftarrow> (if ro_ann ro annRolloutPaused = ''true''
                  then patchRO k ro (setAnnotations (ann(annRolloutPaused := None)) ro)
                  else ret (Inr ro));
           case res of
             Inl err \<Rightarrow> ret (Inl err)
           | Inr ro' \<Rightarrow>
               if rst_CurrentStepIndex (ro_Status ro') < int (length (ros_Steps (ro_Spec ro'))) \<and>
                  i32 (rst_CurrentStepIndex (ro_Status ro') + 1) < 0
               then ret (Inl (Err ''panic: index out of range''))
               else ret (Inr (ro'\<lparr>ro_Status := promoteStatus now operatorSuffix ro'\<rparr>))
         })
      else if action = RolloutActionRollback then do {
        res \<leftarrow> patchRO k ro (setAnnotations (ann(annRolloutPaused := None, annRolloutAborted \<mapsto> ''true'')) ro);
        case res of
          Inl err \<Rightarrow> ret (Inl err)
        | Inr ro' \<Rightarrow> ret (Inr (ro'\<lparr>ro_Status := (ro_Status ro')
            \<lparr>rst_Phase := RolloutRollingBack, rst_Message := ''rollback requested'' @ operatorSuffix\<rparr>\<rparr>))
      }
      else ret (Inr (ro\<lparr>ro_Status := (ro_Status ro)\<lparr>rst_Message := ''ignored unknown rollout action '' @ action\<rparr>\<rparr>)))"

text \<open>The result is \<open>(acted, err)\<close>.\<close>

definition applyControlCommand :: "'c kclient \<Rightarrow> gotime \<Rightarrow> Rollout \<Rightarrow> ('c, bool \<times> go_error option) kio" where
  "applyControlCommand k now ro =
     (let action = ro_ann ro annRolloutAction in
      if action = '''' then ret (False, None)
      else do {
        let operator = ro_ann ro annRolloutOper;
        res \<leftarrow> patchRO k ro (setAnnotations
          ((om_Annotations (ro_Meta ro))(annRolloutAction := None, annRolloutOper := None)) ro);
        case res of
          Inl err \<Rightarrow> ret (True, Some err)
        | Inr ro1 \<Rightarrow> do {
            acted \<leftarrow> applyAction k now action
              (if operator \<noteq> '''' then '' by '' @ operator else '' by operator'') ro1;
            case acted of
              Inl err \<Rightarrow> ret (True, Some err)
            | Inr ro2 \<Rightarrow> do {
                res2 \<leftarrow> statusRO k ro2;
                ret (True, errOf res2)
              }
          }
      })"

section \<open>Reconcile\<close>

definition initRollout :: "gotime \<Rightarrow> Rollout \<Rightarrow> Rollout" where
  "initRollout now ro =
     (if rst_Phase (ro_Status ro) = RolloutUnset
      then ro\<lparr>ro_Status := (ro_Status ro)\<lparr>rst_Phase := RolloutProgressing, rst_CurrentStepIndex := 0,
        rst_CurrentWeight := 0, rst_StartTime := Some now\<rparr>\<rparr>
      else ro)"

text \<open>The hold after an operator's rollback.\<close>

definition abortedStatus :: "gotime \<Rightarrow> int \<Rightarrow> RolloutStatus \<Rightarrow> RolloutStatus" where
  "abortedStatus now n st =
     (let st = st\<lparr>rst_Phase := RolloutRolledBack, rst_CurrentWeight := 0, rst_CanaryReplicas := 0,
                  rst_StableReplicas := n\<rparr> in
      if rst_CompletionTime st = None then st\<lparr>rst_CompletionTime := Some now\<rparr> else st)"

definition holdAborted ::
  "'c kclient \<Rightarrow> 'f RolloutEnv \<Rightarrow> gotime \<Rightarrow> Rollout \<Rightarrow> ('c, reconcile_result) kio" where
  "holdAborted k env now ro = do {
     n \<leftarrow> ensureWorkload k ro;
     canaryDep \<leftarrow> ensureCanary k ro;
     applyDecision k env ro (decision0\<lparr>d_Phase := RolloutRolledBack, d_CurrentWeight := 0, d_CanaryReplicas := 0,
       d_StableReplicas := n, d_Message := ''rolled back by operator''\<rparr>) canaryDep;
     res \<leftarrow> statusRO k (ro\<lparr>ro_Status := abortedStatus now n (ro_Status ro)\<rparr>);
     ret (0, errOf res)
   }"

definition holdPaused :: "'c kclient \<Rightarrow> 'f RolloutEnv \<Rightarrow> Rollout \<Rightarrow> ('c, reconcile_result) kio" where
  "holdPaused k env ro = do {
     n \<leftarrow> ensureWorkload k ro;
     canaryDep \<leftarrow> ensureCanary k ro;
     let weight = rst_CurrentWeight (ro_Status ro);
     applyDecision k env ro (decision0\<lparr>d_Phase := RolloutPaused, d_CurrentStepIndex := rst_CurrentStepIndex (ro_Status ro),
       d_CurrentWeight := weight, d_CanaryReplicas := controllerWeightReplicas weight n,
       d_StableReplicas := i32 (n - controllerWeightReplicas weight n),
       d_Message := ''paused by operator''\<rparr>) canaryDep;
     res \<leftarrow> statusRO k (ro\<lparr>ro_Status := (ro_Status ro)
       \<lparr>rst_Phase := RolloutPaused, rst_Message := ''paused by operator''\<rparr>\<rparr>);
     ret (healthCheckInterval, errOf res)
   }"

text \<open>
  The stamp of a timed pause: \<open>Some\<close> is an early return of \<open>Reconcile\<close>, \<open>None\<close> goes on.
\<close>

definition stampPause ::
  "'c kclient \<Rightarrow> gotime \<Rightarrow> ObjectKey \<Rightarrow> Rollout \<Rightarrow> ('c, reconcile_result option) kio" where
  "stampPause k now req ro =
     (case currentStep ro of
        Inl err \<Rightarrow> ret (Some (0, Some err))
      | Inr None \<Rightarrow> ret None
      | Inr (Some step) \<Rightarrow>
          (case step_Pause step of
             None \<Rightarrow> ret None
           | Some pause \<Rightarrow>
               (case pause_Duration pause of
                  None \<Rightarrow> ret None
                | Some dur \<Rightarrow>
                    if ParsePauseStart (ro_ann ro PauseStartAnnotation) \<noteq> None then ret None
                    else do {
                      got \<leftarrow> getRO k req;
                      case got of
                        Inl _ \<Rightarrow> ret None
                      | Inr fresh \<Rightarrow> do {
                          res \<leftarrow> patchRO k fresh (setAnnotations ((om_Annotations (ro_Meta fresh))
                            (PauseStartAnnotation \<mapsto> FormatPauseStart (rst_CurrentStepIndex (ro_Status ro)) now)) fresh);
                          case res of
                            Inl err \<Rightarrow> ret (Some (0, Some err))
                          | Inr _ \<Rightarrow> ret (Some (dur, None))
                        }
                    })))"

text \<open>One decision: observe the canary, ask the engine, apply and record.\<close>

definition probeDue :: "gotime \<Rightarrow> Rollout \<Rightarrow> bool" where
  "probeDue now ro \<longleftrightarrow>
     (case rst_LastHealthCheckTime (ro_Status ro) of None \<Rightarrow> True | Some t \<Rightarrow> since now t \<ge> healthCheckInterval)"

definition observeHealth :: "'f RolloutEnv \<Rightarrow> gotime \<Rightarrow> Rollout \<Rightarrow> int \<Rightarrow> int \<Rightarrow> bool" where
  "observeHealth env now ro canaryReady canaryDesired =
     (let healthy = (canaryReady \<ge> canaryDesired \<and> canaryDesired > 0) in
      if probeDue now ro then canaryHealthy env ro healthy else healthy)"

definition alertPhases :: "RolloutPhase set" where
  "alertPhases = {RolloutDegraded, RolloutRollingBack, RolloutFailed, RolloutRolledBack}"

definition evaluateRollout ::
  "'c kclient \<Rightarrow> 'f RolloutEnv \<Rightarrow> gotime \<Rightarrow> Rollout \<Rightarrow> ('c, reconcile_result) kio" where
  "evaluateRollout k env now ro = do {
     n \<leftarrow> ensureWorkload k ro;
     canaryDep \<leftarrow> ensureCanary k ro;
     let (canaryReady, canaryDesired) = canaryReplicaState canaryDep;
     let healthy = observeHealth env now ro canaryReady canaryDesired;
     if canaryDeploymentHasReplicaFailure canaryDep \<and> ros_AutoRollback (ro_Spec ro) then do {
       applyDecision k env ro (RollbackDecision ro n) canaryDep;
       emit (AlertEvent ''rollout'' (om_Name (ro_Meta ro)) ''canary replica failure'');
       res \<leftarrow> statusRO k (ro\<lparr>ro_Status := (ro_Status ro)
         \<lparr>rst_Phase := RolloutRolledBack, rst_CompletionTime := Some now\<rparr>\<rparr>);
       ret (0, errOf res)
     }
     else
       case Evaluate now ro canaryReady canaryDesired n healthy of
         None \<Rightarrow> ret (0, Some (Err ''panic: index out of range''))
       | Some d \<Rightarrow> do {
           applyDecision k env ro d canaryDep;
           emit (WeightMetric (d_CurrentWeight d));
           _ \<leftarrow> (if d_Phase d \<in> alertPhases
                then emit (AlertEvent ''rollout'' (om_Name (ro_Meta ro)) (d_Message d)) else ret ());
           res \<leftarrow> statusRO k (ro\<lparr>ro_Status := recordDecision now (probeDue now ro) d (ro_Status ro)\<rparr>);
           case res of
             Inl err \<Rightarrow> ret (0, Some err)
           | Inr _ \<Rightarrow> ret (d_RequeueAfter d, None)
         }
   }"

definition Rollout_Reconcile ::
  "'c kclient \<Rightarrow> 'f RolloutEnv \<Rightarrow> gotime \<Rightarrow> ObjectKey \<Rightarrow> ('c, reconcile_result) kio" where
  "Rollout_Reconcile k env now req = do {
     got \<leftarrow> getRO k req;
     case got of
       Inl err \<Rightarrow> ret (0, ignoreNotFound err)
     | Inr ro0 \<Rightarrow> do {
         let ro = initRollout now ro0;
         (acted, e) \<leftarrow> applyControlCommand k now ro;
         if e \<noteq> None \<or> acted then ret (healthCheckInterval, e)
         else if ro_ann ro annRolloutAborted = ''true'' then holdAborted k env now ro
         else if ro_ann ro annRolloutPaused = ''true'' then holdPaused k env ro
         else if rst_Phase (ro_Status ro) = RolloutFailed \<or> rst_Phase (ro_Status ro) = RolloutRolledBack
         then ret (0, None)
         else do {
           early \<leftarrow> stampPause k now req ro;
           case early of
             Some res \<Rightarrow> ret res
           | None \<Rightarrow> evaluateRollout k env now ro
         }
       }
   }"

section \<open>What the operations request\<close>

text \<open>Observing: the reads and creations of the two Deployments.\<close>

definition observe_event :: "Rollout \<Rightarrow> effect \<Rightarrow> bool" where
  "observe_event ro e \<longleftrightarrow>
     (\<exists>a. e = GetDep (okey (om_Namespace (ro_Meta ro)) (ros_WorkloadRef (ro_Spec ro))) a) \<or>
     (\<exists>a. e = GetDep (okey (om_Namespace (ro_Meta ro)) (ros_WorkloadRef (ro_Spec ro) @ ''-canary'')) a) \<or>
     (\<exists>d a. e = CreateDep d a \<and> dep_Selector d = [appLabel \<mapsto> ros_WorkloadRef (ro_Spec ro)])"

text \<open>The Deployments the API server presented as the stable and as the canary one.\<close>

definition stable_objs :: "Rollout \<Rightarrow> effect list \<Rightarrow> Deployment set" where
  "stable_objs ro es =
     {d. GetDep (okey (om_Namespace (ro_Meta ro)) (ros_WorkloadRef (ro_Spec ro))) (Inr d) \<in> set es}"

definition canary_objs :: "Rollout \<Rightarrow> effect list \<Rightarrow> Deployment set" where
  "canary_objs ro es =
     (let name = ros_WorkloadRef (ro_Spec ro) @ ''-canary'' in
      {d. GetDep (okey (om_Namespace (ro_Meta ro)) name) (Inr d) \<in> set es \<or>
          (\<exists>x m. x = (workloadDeployment ro name 0 (ros_CanaryImage (ro_Spec ro)))\<lparr>dep_Meta := m\<rparr> \<and>
             (CreateDep x (Inr d) \<in> set es \<or> CreateDep x (Inl AlreadyExists) \<in> set es \<and> d = x))})"

text \<open>
  Applying a decision: the only change to a Deployment is its replica count, to \<open>s\<close> for one in \<open>S\<close>
  (the stable ones) and to \<open>c\<close> for one in \<open>C\<close> (the canaries).
\<close>

definition scale_event :: "Deployment set \<Rightarrow> Deployment set \<Rightarrow> int \<Rightarrow> int \<Rightarrow> effect \<Rightarrow> bool" where
  "scale_event S C s c e \<longleftrightarrow>
     (\<exists>base\<in>S. \<exists>a. e = PatchDep base (base\<lparr>dep_Replicas := Some s\<rparr>) a) \<or>
     (\<exists>base\<in>C. \<exists>a. e = PatchDep base (base\<lparr>dep_Replicas := Some c\<rparr>) a) \<or>
     (\<exists>key a. e = GetDep key a) \<or> (\<exists>key a. e = GetSvc key a) \<or> (\<exists>o1 a. e = CreateSvc o1 a) \<or>
     (\<exists>key a. e = GetIng key a) \<or> (\<exists>o1 a. e = CreateIng o1 a) \<or> (\<exists>b o1 a. e = PatchIng b o1 a)"

lemma scale_event_simps [simp]:
  "base \<in> S \<Longrightarrow> scale_event S C s c (PatchDep base (base\<lparr>dep_Replicas := Some s\<rparr>) a1)"
  "base \<in> C \<Longrightarrow> scale_event S C s c (PatchDep base (base\<lparr>dep_Replicas := Some c\<rparr>) a1)"
  "scale_event S C s c (GetDep key a2)" "scale_event S C s c (GetSvc key a3)" "scale_event S C s c (CreateSvc svc a4)"
  "scale_event S C s c (GetIng key a5)" "scale_event S C s c (CreateIng ing a6)" "scale_event S C s c (PatchIng ing0 ing a7)"
  "\<not> scale_event S C s c (StatusRO ro a8)" "\<not> scale_event S C s c (PatchRO ro0 ro a9)" "\<not> scale_event S C s c (CreateDep dep a10)"
  by (auto simp: scale_event_def)

text \<open>The events of \<open>applyDecision\<close> when \<open>cd\<close> is the canary it was given.\<close>

definition scaled :: "Rollout \<Rightarrow> Deployment set \<Rightarrow> int \<Rightarrow> int \<Rightarrow> effect list \<Rightarrow> bool" where
  "scaled ro C s c es \<longleftrightarrow> list_all (scale_event (stable_objs ro es) C s c) es"

lemma scaledD: "scaled ro C s c es \<Longrightarrow> e \<in> set es \<Longrightarrow> scale_event (stable_objs ro es) C s c e"
  by (simp add: scaled_def list_all_iff)

lemma scaled_no_other [simp]:
  "scaled ro C s c es \<Longrightarrow> StatusRO p a \<notin> set es" "scaled ro C s c es \<Longrightarrow> PatchRO p p' b \<notin> set es"
  by (auto dest: scaledD)

lemma canary_objs_mono: "set es \<subseteq> set es' \<Longrightarrow> canary_objs ro es \<subseteq> canary_objs ro es'"
  by (auto simp: canary_objs_def Let_def)

lemma scale_event_mono:
  "scale_event S C s c e \<Longrightarrow> S \<subseteq> S' \<Longrightarrow> C \<subseteq> C' \<Longrightarrow> scale_event S' C' s c e"
  unfolding scale_event_def by blast

lemma scaled_mono: "scaled ro C s c es \<Longrightarrow> C \<subseteq> C' \<Longrightarrow> scaled ro C' s c es"
  unfolding scaled_def list_all_iff using scale_event_mono by blast

lemma observe_event_simps [simp]:
  "\<not> observe_event ro (StatusRO ro' a1)" "\<not> observe_event ro (PatchDep d0 d a2)" "\<not> observe_event ro (PatchRO ro0 ro' a3)"
  by (auto simp: observe_event_def)

lemma getStable_emits:
  "emits (getStable k ro) (\<lambda>res new. list_all (observe_event ro) new \<and> list_all (scale_event S C s c) new \<and>
     (\<forall>d. res = Some d \<longrightarrow> d \<in> stable_objs ro new))"
  unfolding getStable_def by (intro emitsI wp_intro) (auto simp: observe_event_def stable_objs_def split: sum.splits)

text \<open>Where the total comes from: the spec, else the stable Deployment as first read.\<close>

definition total_of :: "Rollout \<Rightarrow> effect list \<Rightarrow> int \<Rightarrow> bool" where
  "total_of ro es n \<longleftrightarrow> (\<exists>x rest. es = GetDep (okey (om_Namespace (ro_Meta ro)) (ros_WorkloadRef (ro_Spec ro))) x # rest \<and>
     n = resolveTotalReplicas (ros_Replicas (ro_Spec ro)) (case x of Inl _ \<Rightarrow> None | Inr d \<Rightarrow> dep_Replicas d))"

lemma total_of_append: "total_of ro es n \<Longrightarrow> total_of ro (es @ es') n"
  by (auto simp: total_of_def)

lemma total_of_spec: "total_of ro es n \<Longrightarrow> ros_Replicas (ro_Spec ro) = Some m \<Longrightarrow> n = m"
  by (auto simp: total_of_def resolveTotalReplicas_def)

text \<open>The two keys, and where they are read.\<close>

abbreviation stable_key :: "Rollout \<Rightarrow> ObjectKey" where
  "stable_key ro \<equiv> okey (om_Namespace (ro_Meta ro)) (ros_WorkloadRef (ro_Spec ro))"

abbreviation canary_key :: "Rollout \<Rightarrow> ObjectKey" where
  "canary_key ro \<equiv> okey (om_Namespace (ro_Meta ro)) (ros_WorkloadRef (ro_Spec ro) @ ''-canary'')"

text \<open>
  How a reconcile brings the cluster to a split: what it reads and creates of the two Deployments, and which replica
  counts it asks for. The stable Deployment is read first; if that fails, it is created with the whole total.
\<close>

definition workload_read :: "Rollout \<Rightarrow> int \<Rightarrow> effect list \<Rightarrow> bool" where
  "workload_read ro n es \<longleftrightarrow> (\<exists>x m z.
     n = resolveTotalReplicas (ros_Replicas (ro_Spec ro)) (case x of Inl _ \<Rightarrow> None | Inr d \<Rightarrow> dep_Replicas d) \<and>
     es = GetDep (stable_key ro) x # (case x of Inl _ \<Rightarrow> [CreateDep ((buildStable ro n)\<lparr>dep_Meta := m\<rparr>) z] | Inr _ \<Rightarrow> []))"

text \<open>
  Then the canary Deployment is read, and created without a replica if it is not there; \<open>cd\<close> is the one the reconcile goes on
  with: the one that was read or created, none when reading or creating it failed.
\<close>

definition canary_got :: "Rollout \<Rightarrow> Deployment option \<Rightarrow> effect list \<Rightarrow> bool" where
  "canary_got ro cd es \<longleftrightarrow> (\<exists>y mid. es = GetDep (canary_key ro) y # mid \<and>
     (case y of
        Inr dep \<Rightarrow> mid = [] \<and> cd = Some dep
      | Inl err \<Rightarrow>
          if err = NotFound then
            (\<exists>x m z. x = (workloadDeployment ro (ros_WorkloadRef (ro_Spec ro) @ ''-canary'') 0 (ros_CanaryImage (ro_Spec ro)))\<lparr>dep_Meta := m\<rparr> \<and>
               mid = [CreateDep x z] \<and>
               cd = (case z of Inr dep \<Rightarrow> Some dep | Inl err' \<Rightarrow> if err' = AlreadyExists then Some x else None))
          else mid = [] \<and> cd = None))"

text \<open>The replica counts that are asked for, in order: the Deployment as it was read, and as it is to be.\<close>

fun asked :: "effect list \<Rightarrow> (Deployment \<times> Deployment) list" where
  "asked [] = []"
| "asked (PatchDep base d a # es) = (base, d) # asked es"
| "asked (e # es) = asked es"

text \<open>A Deployment that is there is asked for \<open>n\<close> replicas unless it has them already; of one that is not, nothing is asked.\<close>

definition ask :: "int \<Rightarrow> Deployment option \<Rightarrow> (Deployment \<times> Deployment) list" where
  "ask n d = (case d of None \<Rightarrow> []
     | Some dep \<Rightarrow> if dep_Replicas dep = Some n then [] else [(dep, dep\<lparr>dep_Replicas := Some n\<rparr>)])"

text \<open>Last the stable Deployment is read again; when it is there it is brought to \<open>s\<close>, and the canary to \<open>c\<close>.\<close>

definition applied :: "Rollout \<Rightarrow> Deployment option \<Rightarrow> int \<Rightarrow> int \<Rightarrow> effect list \<Rightarrow> bool" where
  "applied ro cd s c es \<longleftrightarrow> (\<exists>x post. es = GetDep (stable_key ro) x # post \<and> (\<forall>key b. GetDep key b \<notin> set post) \<and>
     asked post = ask s (case x of Inl _ \<Rightarrow> None | Inr dep \<Rightarrow> Some dep) @ ask c cd)"

text \<open>The three together, with the total \<open>n\<close>; before them, no other Deployment is touched.\<close>

definition brought_to :: "Rollout \<Rightarrow> int \<Rightarrow> int \<Rightarrow> int \<Rightarrow> effect list \<Rightarrow> bool" where
  "brought_to ro n s c es \<longleftrightarrow> (\<exists>pre o1 o2 cd o3. es = pre @ o1 @ o2 @ o3 \<and> (\<forall>key b. GetDep key b \<notin> set pre) \<and> asked pre = [] \<and>
     workload_read ro n o1 \<and> canary_got ro cd o2 \<and> applied ro cd s c o3)"

lemma asked_append: "asked (es @ es') = asked es @ asked es'"
  by (induction es rule: asked.induct) simp_all

lemma asked_nothing: "(\<And>base d a. PatchDep base d a \<notin> set es) \<Longrightarrow> asked es = []"
  by (induction es rule: asked.induct) auto

lemma brought_toI:
  "workload_read ro n o1 \<Longrightarrow> canary_got ro cd o2 \<Longrightarrow> applied ro cd s c sc \<Longrightarrow> brought_to ro n s c (o1 @ o2 @ sc)"
  unfolding brought_to_def by (intro exI [of _ "[]"] exI [of _ o1] exI [of _ o2] exI [of _ cd] exI [of _ sc]) simp

lemma ensureWorkload_emits:
  "emits (ensureWorkload k ro) (\<lambda>n new. list_all (observe_event ro) new \<and> total_of ro new n \<and> workload_read ro n new)"
  unfolding ensureWorkload_def getStable_def Let_def
  by (intro emitsI wp_intro)
    (auto simp: observe_event_def buildStable_def workloadDeployment_def total_of_def workload_read_def split: sum.splits)

lemma ensureCanary_emits:
  "emits (ensureCanary k ro) (\<lambda>res new. list_all (observe_event ro) new \<and>
     (\<forall>d. res = Some d \<longrightarrow> d \<in> canary_objs ro new) \<and> canary_got ro res new)"
  unfolding ensureCanary_def Let_def
  by (intro emitsI wp_intro) (auto simp: observe_event_def workloadDeployment_def canary_objs_def canary_got_def Let_def)

lemma scaleDeployment_emits:
  "emits (scaleDeployment k dep n) (\<lambda>res new. new = [] \<and> dep_Replicas dep = Some n \<or>
     dep_Replicas dep \<noteq> Some n \<and> (\<exists>a. new = [PatchDep dep (dep\<lparr>dep_Replicas := Some n\<rparr>) a]))"
  unfolding scaleDeployment_def Let_def by (intro emitsI wp_intro) auto

lemma ensureService_emits: "emits (ensureService k env ro sd) (\<lambda>res new. list_all (scale_event S C s c) new)"
  unfolding ensureService_def Let_def by (intro emitsI wp_intro) simp_all

lemma ensureCanaryIngress_emits: "emits (ensureCanaryIngress k env ro w) (\<lambda>res new. list_all (scale_event S C s c) new)"
  unfolding ensureCanaryIngress_def Let_def by (intro emitsI wp_intro) simp_all

lemma scaledI:
  assumes "list_all (scale_event {} C s c) e0" "list_all (scale_event (stable_objs ro e0) C s c) e1"
  shows "scaled ro C s c (e0 @ e1)"
proof -
  have "stable_objs ro e0 \<subseteq> stable_objs ro (e0 @ e1)" by (auto simp: stable_objs_def)
  with assms show ?thesis
    unfolding scaled_def list_all_iff set_append using scale_event_mono by blast
qed

lemma ensureService_no_get: "emits (ensureService k env ro sd) (\<lambda>res new. (\<forall>key b. GetDep key b \<notin> set new) \<and> asked new = [])"
  unfolding ensureService_def Let_def by (intro emitsI wp_intro) simp_all

lemma ensureCanaryIngress_no_get: "emits (ensureCanaryIngress k env ro w) (\<lambda>res new. (\<forall>key b. GetDep key b \<notin> set new) \<and> asked new = [])"
  unfolding ensureCanaryIngress_def Let_def by (intro emitsI wp_intro) simp_all

lemma applyDecision_applied:
  "emits (applyDecision k env ro d cd) (\<lambda>res new. applied ro cd (d_StableReplicas d) (d_CanaryReplicas d) new)"
  unfolding applyDecision_def getStable_def applied_def
  by (intro emitsI wp_intro wp_emits [OF scaleDeployment_emits] wp_emits [OF ensureService_no_get]
      wp_emits [OF ensureCanaryIngress_no_get]) (auto simp: ask_def asked_append)

lemma applyDecision_scaled:
  "emits (applyDecision k env ro d cd)
     (\<lambda>res new. scaled ro (set_option cd) (d_StableReplicas d) (d_CanaryReplicas d) new)"
proof (rule emitsI)
  fix es
  show "wp (applyDecision k env ro d cd)
      (\<lambda>r es'. \<exists>new. es' = es @ new \<and> scaled ro (set_option cd) (d_StableReplicas d) (d_CanaryReplicas d) new) es"
    unfolding applyDecision_def
    apply (rule wp_bind, rule wp_emits [OF getStable_emits [where S = "{}" and C = "set_option cd"
        and s = "d_StableReplicas d" and c = "d_CanaryReplicas d"]])
    subgoal for stableDep e0
      by (intro wp_intro wp_emits [OF scaleDeployment_emits]
          wp_emits [OF ensureService_emits [where S = "stable_objs ro e0" and C = "set_option cd"
            and s = "d_StableReplicas d" and c = "d_CanaryReplicas d"]]
          wp_emits [OF ensureCanaryIngress_emits [where S = "stable_objs ro e0" and C = "set_option cd"
            and s = "d_StableReplicas d" and c = "d_CanaryReplicas d"]])
        (auto intro!: scaledI)
    done
qed

lemmas applyDecision_emits = emits_conj [OF applyDecision_scaled applyDecision_applied]

inductive evaluate_path ::
  "'f RolloutEnv \<Rightarrow> gotime \<Rightarrow> Rollout \<Rightarrow> reconcile_result \<Rightarrow> effect list \<Rightarrow> bool"
  for env now ro where
  ep_failure: "list_all (observe_event ro) obs \<Longrightarrow> total_of ro obs n \<Longrightarrow>
     dep \<in> canary_objs ro obs \<Longrightarrow> canaryDeploymentHasReplicaFailure (Some dep) \<Longrightarrow> ros_AutoRollback (ro_Spec ro) \<Longrightarrow>
     scaled ro (canary_objs ro obs) n 0 sc \<Longrightarrow> brought_to ro n n 0 (obs @ sc) \<Longrightarrow>
     evaluate_path env now ro (0, errOf a)
       (obs @ sc @ [AlertEvent ''rollout'' (om_Name (ro_Meta ro)) ''canary replica failure'',
          StatusRO (ro\<lparr>ro_Status := (ro_Status ro)\<lparr>rst_Phase := RolloutRolledBack, rst_CompletionTime := Some now\<rparr>\<rparr>) a])"
| ep_panic: "list_all (observe_event ro) obs \<Longrightarrow> Evaluate now ro r t n h = None \<Longrightarrow>
     evaluate_path env now ro (0, Some (Err ''panic: index out of range'')) obs"
| ep_decide: "list_all (observe_event ro) obs \<Longrightarrow> total_of ro obs n \<Longrightarrow>
     set_option cd \<subseteq> canary_objs ro obs \<Longrightarrow> canaryReplicaState cd = (r, t) \<Longrightarrow>
     Evaluate now ro r t n (observeHealth env now ro r t) = Some d \<Longrightarrow>
     scaled ro (canary_objs ro obs) (d_StableReplicas d) (d_CanaryReplicas d) sc \<Longrightarrow>
     alerts = (if d_Phase d \<in> alertPhases then [AlertEvent ''rollout'' (om_Name (ro_Meta ro)) (d_Message d)] else []) \<Longrightarrow>
     res = (case a of Inl err \<Rightarrow> (0, Some err) | Inr _ \<Rightarrow> (d_RequeueAfter d, None)) \<Longrightarrow>
     brought_to ro n (d_StableReplicas d) (d_CanaryReplicas d) (obs @ sc) \<Longrightarrow>
     evaluate_path env now ro res
       (obs @ sc @ WeightMetric (d_CurrentWeight d) # alerts @
        [StatusRO (ro\<lparr>ro_Status := recordDecision now (probeDue now ro) d (ro_Status ro)\<rparr>) a])"

lemma canary_seen:
  "\<forall>d. cd = Some d \<longrightarrow> d \<in> canary_objs ro o2 \<Longrightarrow> set_option cd \<subseteq> canary_objs ro (o1 @ o2)"
  using canary_objs_mono [of o2 "o1 @ o2" ro] by (cases cd) auto

lemma failure_Some: "canaryDeploymentHasReplicaFailure cd \<Longrightarrow> \<exists>d. cd = Some d"
  by (cases cd) (simp_all add: canaryDeploymentHasReplicaFailure_def)

lemma scaled_canary:
  assumes "\<forall>d. cd = Some d \<longrightarrow> d \<in> canary_objs ro o2" "scaled ro (set_option cd) s c sc"
  shows "scaled ro (canary_objs ro (o1 @ o2)) s c sc"
  using assms canary_objs_mono [of o2 "o1 @ o2" ro] by (intro scaled_mono [OF assms(2)]) (auto simp: set_eq_iff)

lemma evaluateRollout_emits: "emits (evaluateRollout k env now ro) (evaluate_path env now ro)"
proof (rule emitsI)
  fix es
  let ?res = "\<lambda>d a. case a of Inl err \<Rightarrow> (0, Some err) | Inr _ \<Rightarrow> (d_RequeueAfter d, None)"
  let ?st = "\<lambda>d a. StatusRO (ro\<lparr>ro_Status := recordDecision now (probeDue now ro) d (ro_Status ro)\<rparr>) a"
  have dec: "evaluate_path env now ro (?res d a)
      (o1 @ o2 @ sc @ WeightMetric (d_CurrentWeight d) # alerts @ [?st d a])"
    if "list_all (observe_event ro) o1 \<and> total_of ro o1 n \<and> workload_read ro n o1"
      "list_all (observe_event ro) o2 \<and> (\<forall>d. cd = Some d \<longrightarrow> d \<in> canary_objs ro o2) \<and> canary_got ro cd o2"
      "canaryReplicaState cd = (r, t)" "Evaluate now ro r t n (observeHealth env now ro r t) = Some d"
      "scaled ro (set_option cd) (d_StableReplicas d) (d_CanaryReplicas d) sc \<and>
       applied ro cd (d_StableReplicas d) (d_CanaryReplicas d) sc"
      "alerts = (if d_Phase d \<in> alertPhases then [AlertEvent ''rollout'' (om_Name (ro_Meta ro)) (d_Message d)] else [])"
    for o1 o2 cd sc alerts r t n d and a :: "Rollout result"
    using ep_decide [of ro "o1 @ o2" n cd r t now env d sc alerts "?res d a" a] that canary_seen [of cd ro o2 o1] total_of_append [of ro o1 n o2]
      scaled_canary [of cd ro o2 "d_StableReplicas d" "d_CanaryReplicas d" sc o1]
      brought_toI [of ro n o1 cd o2 "d_StableReplicas d" "d_CanaryReplicas d" sc] by simp
  show "wp (evaluateRollout k env now ro) (\<lambda>r es'. \<exists>new. es' = es @ new \<and> evaluate_path env now ro r new) es"
    unfolding evaluateRollout_def Let_def
    apply (intro wp_intro wp_emits [OF ensureWorkload_emits] wp_emits [OF ensureCanary_emits]
        wp_emits [OF applyDecision_emits])
    subgoal for n o1 cd o2 r t u sc a
      using ep_failure [of ro "o1 @ o2" n "the cd" sc env now a] canary_seen [of cd ro o2 o1] total_of_append [of ro o1 n o2] failure_Some [of cd]
        scaled_canary [of cd ro o2 n 0 sc o1] brought_toI [of ro n o1 cd o2 n 0 sc] by auto
    subgoal for n o1 cd o2 r t
      using ep_panic [of ro "o1 @ o2" now r t n "observeHealth env now ro r t" env] by simp
    subgoal for n o1 cd o2 r t d u sc a err
      using dec [of o1 n o2 cd r t d sc "[AlertEvent ''rollout'' (om_Name (ro_Meta ro)) (d_Message d)]" a] by simp
    subgoal for n o1 cd o2 r t d u sc a x
      using dec [of o1 n o2 cd r t d sc "[AlertEvent ''rollout'' (om_Name (ro_Meta ro)) (d_Message d)]" a] by simp
    subgoal for n o1 cd o2 r t d u sc a err
      using dec [of o1 n o2 cd r t d sc "[]" a] by simp
    subgoal for n o1 cd o2 r t d u sc a x
      using dec [of o1 n o2 cd r t d sc "[]" a] by simp
    done
qed

subsection \<open>Holds and commands\<close>

text \<open>A hold: it scales to a fixed split and writes one status.\<close>

inductive hold_path ::
  "Rollout \<Rightarrow> (int \<Rightarrow> int) \<Rightarrow> (int \<Rightarrow> int) \<Rightarrow> (int \<Rightarrow> RolloutStatus) \<Rightarrow> go_error option \<Rightarrow> effect list \<Rightarrow> bool"
  for ro s c st where
  hold: "list_all (observe_event ro) obs \<Longrightarrow> total_of ro obs n \<Longrightarrow>
     scaled ro (canary_objs ro obs) (s n) (c n) sc \<Longrightarrow> brought_to ro n (s n) (c n) (obs @ sc) \<Longrightarrow>
     hold_path ro s c st (errOf a) (obs @ sc @ [StatusRO (ro\<lparr>ro_Status := st n\<rparr>) a])"

lemma holdI:
  "list_all (observe_event ro) o1 \<and> total_of ro o1 n \<and> workload_read ro n o1 \<Longrightarrow>
   list_all (observe_event ro) o2 \<and> (\<forall>d. cd = Some d \<longrightarrow> d \<in> canary_objs ro o2) \<and> canary_got ro cd o2 \<Longrightarrow>
   scaled ro (set_option cd) (s n) (c n) sc \<and> applied ro cd (s n) (c n) sc \<Longrightarrow>
   hold_path ro s c st (errOf a) (o1 @ o2 @ sc @ [StatusRO (ro\<lparr>ro_Status := st n\<rparr>) a])"
  using hold [of ro "o1 @ o2" n s c sc st a] scaled_canary [of cd ro o2 "s n" "c n" sc o1]
    total_of_append [of ro o1 n o2] brought_toI [of ro n o1 cd o2 "s n" "c n" sc] by simp

lemma holdAborted_emits:
  "emits (holdAborted k env now ro) (\<lambda>res new. fst res = 0 \<and>
     hold_path ro (\<lambda>n. n) (\<lambda>n. 0) (\<lambda>n. abortedStatus now n (ro_Status ro)) (snd res) new)"
  unfolding holdAborted_def Let_def
  by (intro emitsI wp_intro wp_emits [OF ensureWorkload_emits] wp_emits [OF ensureCanary_emits]
        wp_emits [OF applyDecision_emits])
    (simp, rule holdI [where c = "\<lambda>_. 0" and st = "\<lambda>n. abortedStatus now n (ro_Status ro)" and s = "\<lambda>n. n"], simp_all)

definition pausedStatus :: "Rollout \<Rightarrow> RolloutStatus" where
  "pausedStatus ro = (ro_Status ro)\<lparr>rst_Phase := RolloutPaused, rst_Message := ''paused by operator''\<rparr>"

lemma holdPaused_emits:
  "emits (holdPaused k env ro) (\<lambda>res new. fst res = healthCheckInterval \<and>
     hold_path ro (\<lambda>n. i32 (n - controllerWeightReplicas (rst_CurrentWeight (ro_Status ro)) n))
       (controllerWeightReplicas (rst_CurrentWeight (ro_Status ro))) (\<lambda>n. pausedStatus ro) (snd res) new)"
  unfolding holdPaused_def Let_def pausedStatus_def [symmetric]
  by (intro emitsI wp_intro wp_emits [OF ensureWorkload_emits] wp_emits [OF ensureCanary_emits]
        wp_emits [OF applyDecision_emits])
    (simp, rule holdI [where st = "\<lambda>_. pausedStatus ro"
        and s = "\<lambda>n. i32 (n - controllerWeightReplicas (rst_CurrentWeight (ro_Status ro)) n)"
        and c = "\<lambda>n. controllerWeightReplicas (rst_CurrentWeight (ro_Status ro)) n"], simp_all)

text \<open>The stamp of a pause touches nothing but the pause-start annotation.\<close>

lemma stampPause_emits:
  "emits (stampPause k now req ro) (\<lambda>res new.
     (\<forall>e\<in>set new. (\<exists>a. e = GetRO req a) \<or>
        (\<exists>fresh v a. e = PatchRO fresh (setAnnotations ((om_Annotations (ro_Meta fresh))(PauseStartAnnotation \<mapsto> v)) fresh) a)) \<and>
     (res = None \<longrightarrow> (\<exists>s. currentStep ro = Inr s)))"
  unfolding stampPause_def by (intro emitsI wp_intro) auto

text \<open>What a command requests: the clearing patch first, then at most one more, then the status.\<close>

definition cleared :: "Rollout \<Rightarrow> Rollout" where
  "cleared ro = setAnnotations ((om_Annotations (ro_Meta ro))(annRolloutAction := None, annRolloutOper := None)) ro"

text \<open>What an action makes of the rollout \<open>rb\<close> the server holds, \<open>ro1\<close> before the action's own patch.\<close>

definition action_outcome :: "gotime \<Rightarrow> string \<Rightarrow> Rollout \<Rightarrow> Rollout \<Rightarrow> Rollout \<Rightarrow> bool" where
  "action_outcome now action ro1 rb p \<longleftrightarrow> ro_Spec p = ro_Spec rb \<and> ro_Meta p = ro_Meta rb \<and>
     (if action = RolloutActionPromote then
        (if ro_ann ro1 annRolloutAborted = ''true''
         then rb = ro1 \<and> (\<exists>msg. ro_Status p = (ro_Status ro1)\<lparr>rst_Message := msg\<rparr>)
         else \<exists>sfx. ro_Status p = promoteStatus now sfx rb)
      else if action = RolloutActionPause \<or> action = RolloutActionRollback then
        (\<exists>ph msg. ro_Status p = (ro_Status rb)\<lparr>rst_Phase := ph, rst_Message := msg\<rparr> \<and>
           (action = RolloutActionRollback \<longrightarrow> ph = RolloutRollingBack) \<and>
           (action = RolloutActionPause \<longrightarrow> ph = RolloutPaused \<or>
              ph = rst_Phase (ro_Status rb) \<and> ph \<in> {RolloutHealthy, RolloutDegraded}))
      else rb = ro1 \<and> (\<exists>msg. ro_Status p = (ro_Status ro1)\<lparr>rst_Message := msg\<rparr>))"

inductive command_path :: "gotime \<Rightarrow> Rollout \<Rightarrow> go_error option \<Rightarrow> effect list \<Rightarrow> bool" for now ro where
  cmd_clear: "command_path now ro (Some e) [PatchRO ro (cleared ro) (Inl e)]"
| cmd_patch: "command_path now ro (Some e) [PatchRO ro (cleared ro) (Inr ro1), PatchRO ro1 ro2 (Inl e)]"
| cmd_panic: "ps = [] \<or> (\<exists>ro2 b. ps = [PatchRO ro1 ro2 b]) \<Longrightarrow> ro_ann ro annRolloutAction = RolloutActionPromote \<Longrightarrow>
     command_path now ro (Some (Err ''panic: index out of range'')) (PatchRO ro (cleared ro) (Inr ro1) # ps)"
| cmd_status: "ps = [] \<and> rb = ro1 \<or> ps = [PatchRO ro1 ro2 (Inr rb)] \<Longrightarrow> action_outcome now (ro_ann ro annRolloutAction) ro1 rb p \<Longrightarrow>
     command_path now ro (errOf a) (PatchRO ro (cleared ro) (Inr ro1) # ps @ [StatusRO p a])"

lemma actions_distinct [simp]:
  "RolloutActionPause \<noteq> RolloutActionPromote" "RolloutActionPromote \<noteq> RolloutActionPause"
  "RolloutActionPause \<noteq> RolloutActionRollback" "RolloutActionRollback \<noteq> RolloutActionPause"
  "RolloutActionPromote \<noteq> RolloutActionRollback" "RolloutActionRollback \<noteq> RolloutActionPromote"
  by (simp_all add: RolloutActionPause_def RolloutActionPromote_def RolloutActionRollback_def)

lemma outcome_message:
  "action \<notin> {RolloutActionPause, RolloutActionRollback} \<Longrightarrow>
   (action = RolloutActionPromote \<Longrightarrow> ro_ann ro1 annRolloutAborted = ''true'') \<Longrightarrow>
   action_outcome now action ro1 ro1 (ro1\<lparr>ro_Status := (ro_Status ro1)\<lparr>rst_Message := m\<rparr>\<rparr>)"
  unfolding action_outcome_def by simp blast

lemma outcome_phase:
  "action = RolloutActionPause \<and> (ph = RolloutPaused \<or> ph = rst_Phase (ro_Status rb) \<and> ph \<in> {RolloutHealthy, RolloutDegraded}) \<or>
   action = RolloutActionRollback \<and> ph = RolloutRollingBack \<Longrightarrow>
   action_outcome now action ro1 rb (rb\<lparr>ro_Status := (ro_Status rb)\<lparr>rst_Phase := ph, rst_Message := m\<rparr>\<rparr>)"
  unfolding action_outcome_def
  by (elim disjE conjE) (simp; (intro exI [of _ ph] exI [of _ m])?; auto)+

lemma outcome_ignored:
  assumes "rst_Phase (ro_Status ro1) \<in> {RolloutHealthy, RolloutDegraded}"
  shows "action_outcome now RolloutActionPause ro1 ro1 (ro1\<lparr>ro_Status := (ro_Status ro1)\<lparr>rst_Message := m\<rparr>\<rparr>)"
  using outcome_phase [of RolloutActionPause "rst_Phase (ro_Status ro1)" ro1 now ro1 m] assms by auto

lemma outcome_promote:
  "ro_ann ro1 annRolloutAborted \<noteq> ''true'' \<Longrightarrow>
   action_outcome now RolloutActionPromote ro1 rb (rb\<lparr>ro_Status := promoteStatus now sfx rb\<rparr>)"
  unfolding action_outcome_def by simp blast

lemma applyAction_emits:
  "emits (applyAction k now action sfx ro1) (\<lambda>res new.
     (\<exists>e ro2. res = Inl e \<and> new = [PatchRO ro1 ro2 (Inl e)]) \<or>
     (res = Inl (Err ''panic: index out of range'') \<and> action = RolloutActionPromote \<and>
        (new = [] \<or> (\<exists>ro2 b. new = [PatchRO ro1 ro2 b]))) \<or>
     (\<exists>p ro2 rb. res = Inr p \<and> (new = [] \<and> rb = ro1 \<or> new = [PatchRO ro1 ro2 (Inr rb)]) \<and>
        action_outcome now action ro1 rb p))"
  unfolding applyAction_def Let_def
  by (intro emitsI wp_intro) (auto simp: outcome_ignored outcome_promote intro!: outcome_message outcome_phase)

lemma applyControlCommand_none: "ro_ann ro annRolloutAction = '''' \<Longrightarrow> applyControlCommand k now ro = ret (False, None)"
  by (simp add: applyControlCommand_def)

lemma applyControlCommand_emits:
  assumes "ro_ann ro annRolloutAction \<noteq> ''''"
  shows "emits (applyControlCommand k now ro) (\<lambda>x new. fst x \<and> command_path now ro (snd x) new)"
  unfolding applyControlCommand_def Let_def cleared_def [symmetric]
  by (simp only: assms if_False, intro emitsI wp_intro wp_emits [OF applyAction_emits])
    (auto intro: command_path.intros)

subsection \<open>A reconcile\<close>

definition stamp_event :: "ObjectKey \<Rightarrow> effect \<Rightarrow> bool" where
  "stamp_event req e \<longleftrightarrow> (\<exists>a. e = GetRO req a) \<or>
     (\<exists>fresh v a. e = PatchRO fresh
        (setAnnotations ((om_Annotations (ro_Meta fresh))(PauseStartAnnotation \<mapsto> v)) fresh) a)"

text \<open>Nothing is stamped over a stamp that can be parsed, whichever step it is for.\<close>

definition stamped :: "ObjectKey \<Rightarrow> Rollout \<Rightarrow> effect list \<Rightarrow> bool" where
  "stamped req ro es \<longleftrightarrow> list_all (stamp_event req) es \<and>
     (ParsePauseStart (ro_ann ro PauseStartAnnotation) \<noteq> None \<longrightarrow> es = [])"

text \<open>\<open>ro\<close> stands for the rollout as read, its phase initialised.\<close>

definition commanded :: "Rollout \<Rightarrow> bool" where
  "commanded ro \<longleftrightarrow> ro_ann ro annRolloutAction \<noteq> ''''"

definition held :: "Rollout \<Rightarrow> bool" where
  "held ro \<longleftrightarrow> ro_ann ro annRolloutAborted = ''true'' \<or> ro_ann ro annRolloutPaused = ''true''"

inductive rollout_path ::
  "'f RolloutEnv \<Rightarrow> gotime \<Rightarrow> ObjectKey \<Rightarrow> reconcile_result \<Rightarrow> effect list \<Rightarrow> bool"
  for env now req where
  rp_missing: "rollout_path env now req (0, ignoreNotFound err) [GetRO req (Inl err)]"
| rp_command: "ro = initRollout now ro0 \<Longrightarrow> commanded ro \<Longrightarrow> command_path now ro e es \<Longrightarrow>
     rollout_path env now req (healthCheckInterval, e) (GetRO req (Inr ro0) # es)"
| rp_aborted: "ro = initRollout now ro0 \<Longrightarrow> \<not> commanded ro \<Longrightarrow> ro_ann ro annRolloutAborted = ''true'' \<Longrightarrow>
     hold_path ro (\<lambda>n. n) (\<lambda>n. 0) (\<lambda>n. abortedStatus now n (ro_Status ro)) e es \<Longrightarrow>
     rollout_path env now req (0, e) (GetRO req (Inr ro0) # es)"
| rp_paused: "ro = initRollout now ro0 \<Longrightarrow> \<not> commanded ro \<Longrightarrow> ro_ann ro annRolloutAborted \<noteq> ''true'' \<Longrightarrow>
     ro_ann ro annRolloutPaused = ''true'' \<Longrightarrow>
     hold_path ro (\<lambda>n. i32 (n - controllerWeightReplicas (rst_CurrentWeight (ro_Status ro)) n))
       (controllerWeightReplicas (rst_CurrentWeight (ro_Status ro))) (\<lambda>n. pausedStatus ro) e es \<Longrightarrow>
     rollout_path env now req (healthCheckInterval, e) (GetRO req (Inr ro0) # es)"
| rp_terminal: "ro = initRollout now ro0 \<Longrightarrow> \<not> commanded ro \<Longrightarrow> \<not> held ro \<Longrightarrow>
     rst_Phase (ro_Status ro) \<in> {RolloutFailed, RolloutRolledBack} \<Longrightarrow>
     rollout_path env now req (0, None) [GetRO req (Inr ro0)]"
| rp_stamped: "ro = initRollout now ro0 \<Longrightarrow> \<not> commanded ro \<Longrightarrow> \<not> held ro \<Longrightarrow>
     rst_Phase (ro_Status ro) \<notin> {RolloutFailed, RolloutRolledBack} \<Longrightarrow> stamped req ro es \<Longrightarrow>
     rollout_path env now req res (GetRO req (Inr ro0) # es)"
| rp_evaluate: "ro = initRollout now ro0 \<Longrightarrow> \<not> commanded ro \<Longrightarrow> \<not> held ro \<Longrightarrow>
     rst_Phase (ro_Status ro) \<notin> {RolloutFailed, RolloutRolledBack} \<Longrightarrow> stamped req ro es1 \<Longrightarrow>
     evaluate_path env now ro res es2 \<Longrightarrow>
     rollout_path env now req res (GetRO req (Inr ro0) # es1 @ es2)"

lemma stampPause_events: "emits (stampPause k now req ro) (\<lambda>res new. stamped req ro new)"
proof (cases "ParsePauseStart (ro_ann ro PauseStartAnnotation) = None")
  case True
  then show ?thesis
    by (intro emits_mono [OF stampPause_emits]) (simp add: stamped_def stamp_event_def list_all_iff)
next
  case False
  then show ?thesis
    unfolding stampPause_def by (intro emitsI wp_intro) (auto simp: stamped_def)
qed

lemma stamped_no_other [simp]:
  "stamped req ro es \<Longrightarrow> StatusRO p a \<notin> set es" "stamped req ro es \<Longrightarrow> PatchDep d0 d b \<notin> set es"
  by (auto simp: stamped_def list_all_iff stamp_event_def)

lemma Rollout_Reconcile_emits: "emits (Rollout_Reconcile k env now req) (rollout_path env now req)"
proof (rule emitsI)
  fix es
  have none: "ro_ann ro annRolloutAction = '''' \<Longrightarrow> emits (applyControlCommand k now ro) (\<lambda>x new. x = (False, None) \<and> new = [])" for ro
    by (simp add: applyControlCommand_none, intro emitsI wp_intro) simp
  have cmd: "emits (applyControlCommand k now ro) (\<lambda>x new.
      (if commanded ro then fst x \<and> command_path now ro (snd x) new else x = (False, None) \<and> new = []))" for ro
    using applyControlCommand_emits [of ro k now] none [of ro] by (cases "commanded ro") (simp_all add: commanded_def)
  show "wp (Rollout_Reconcile k env now req) (\<lambda>r es'. \<exists>new. es' = es @ new \<and> rollout_path env now req r new) es"
    unfolding Rollout_Reconcile_def Let_def
    apply (intro wp_intro wp_emits [OF cmd] wp_emits [OF holdAborted_emits] wp_emits [OF holdPaused_emits]
        wp_emits [OF stampPause_events] wp_emits [OF evaluateRollout_emits])
    subgoal by (simp add: rp_missing)
    subgoal for r ro0 x es1 acted e
      using rp_command [of "initRollout now ro0" now ro0 e es1 env req]
      by (simp split: if_splits)
    subgoal for r ro0 x es1 acted e res es2
      using rp_aborted [of "initRollout now ro0" now ro0 "snd res" es2 env req]
      by (cases res) (simp split: if_splits)
    subgoal for r ro0 x es1 acted e res es2
      using rp_paused [of "initRollout now ro0" now ro0 "snd res" es2 env req]
      by (cases res) (simp split: if_splits)
    subgoal for r ro0 x es1 acted e
      using rp_terminal [of "initRollout now ro0" now ro0 env req]
      by (simp add: held_def split: if_splits)
    subgoal for r ro0 x es1 acted e early es2 res
      using rp_evaluate [of "initRollout now ro0" now ro0 req es2 env] 
      by (simp add: held_def split: if_splits)
    subgoal for r ro0 x es1 acted e early es2 res
      using rp_stamped [of "initRollout now ro0" now ro0 req es2 env] 
      by (simp add: held_def split: if_splits)
    done
qed

lemma Rollout_path:
  "exec (Rollout_Reconcile k env now req) c = (res, c', es) \<Longrightarrow> rollout_path env now req res es"
  by (rule emits_exec [OF Rollout_Reconcile_emits])

end
