(* ===== verification/Rollout_Props.thy ===== *)
theory Rollout_Props
  imports Rollout_Controller Mem_Api
begin

text \<open>
  The properties of the rollout reconciler and of the health checks, and their witnesses. They read
  the transcript of one \<open>Reconcile\<close> through \<open>rollout_path\<close> (theory \<open>Rollout_Controller\<close>), whatever the
  API server answers.
\<close>

section \<open>Rollouts for the witnesses\<close>

definition ex_env :: "int RolloutEnv" where
  "ex_env = \<lparr>re_HttpGet = (\<lambda>url timeout. None), re_ParseFloat = atoi, re_FloatLe = (\<le>),
     re_PrometheusEndpoint = '''', re_SvcTargetPort = '''', re_CanaryIngressEnabled = False\<rparr>"

definition ex_rollout :: "(string \<rightharpoonup> string) \<Rightarrow> int option \<Rightarrow> CanaryStep list \<Rightarrow> RolloutStatus \<Rightarrow> Rollout" where
  "ex_rollout ann n steps st =
     \<lparr>ro_Meta = meta0\<lparr>om_Name := ''shop'', om_Namespace := ''ns'', om_Annotations := ann\<rparr>,
      ro_Spec = \<lparr>ros_WorkloadRef = ''shop'', ros_Replicas = n, ros_StableImage = ''shop:1'',
        ros_CanaryImage = ''shop:2'', ros_Steps = steps,
        ros_HealthCheck = \<lparr>hc_Type = HealthCheckPodReady, hc_IntervalSeconds = 30, hc_FailureThreshold = 3,
          hc_HTTPPath = '''', hc_PrometheusQueryExpr = '''', hc_PrometheusThreshold = ''''\<rparr>,
        ros_TrafficRouting = \<lparr>tf_Type = TrafficRoutingDeploymentWeight, tf_IngressRef = ''''\<rparr>,
        ros_AutoRollback = True\<rparr>,
      ro_Status = st\<rparr>"

definition ex_status :: "RolloutPhase \<Rightarrow> int \<Rightarrow> int \<Rightarrow> RolloutStatus" where
  "ex_status phase idx w = rollout_status0\<lparr>rst_Phase := phase, rst_CurrentStepIndex := idx, rst_CurrentWeight := w\<rparr>"

definition ex_w :: "int \<Rightarrow> CanaryStep" where
  "ex_w w = \<lparr>step_SetWeight = Some w, step_Pause = None\<rparr>"

text \<open>The evaluation keeps the rollouts folded and reads them through these views.\<close>

lemma ex_rollout_views [simp]:
  "om_Name (ro_Meta (ex_rollout ann n steps st)) = ''shop''"
  "om_Namespace (ro_Meta (ex_rollout ann n steps st)) = ''ns''"
  "om_Annotations (ro_Meta (ex_rollout ann n steps st)) = ann"
  "ros_WorkloadRef (ro_Spec (ex_rollout ann n steps st)) = ''shop''"
  "ros_Replicas (ro_Spec (ex_rollout ann n steps st)) = n"
  "ros_StableImage (ro_Spec (ex_rollout ann n steps st)) = ''shop:1''"
  "ros_CanaryImage (ro_Spec (ex_rollout ann n steps st)) = ''shop:2''"
  "ros_Steps (ro_Spec (ex_rollout ann n steps st)) = steps"
  "ros_AutoRollback (ro_Spec (ex_rollout ann n steps st))"
  "hc_Type (ros_HealthCheck (ro_Spec (ex_rollout ann n steps st))) = HealthCheckPodReady"
  "hc_IntervalSeconds (ros_HealthCheck (ro_Spec (ex_rollout ann n steps st))) = 30"
  "hc_FailureThreshold (ros_HealthCheck (ro_Spec (ex_rollout ann n steps st))) = 3"
  "tf_Type (ros_TrafficRouting (ro_Spec (ex_rollout ann n steps st))) = TrafficRoutingDeploymentWeight"
  "ro_Status (ex_rollout ann n steps st) = st"
  by (simp_all add: ex_rollout_def)

lemma ex_status_views [simp]:
  "rst_Phase (ex_status p i w) = p" "rst_CurrentStepIndex (ex_status p i w) = i"
  "rst_CurrentWeight (ex_status p i w) = w" "rst_LastHealthCheckTime (ex_status p i w) = None"
  "rst_ConsecutiveFailures (ex_status p i w) = 0"
  by (simp_all add: ex_status_def rollout_status0_def)

lemma ex_w_views [simp]: "step_SetWeight (ex_w w) = Some w" "step_Pause (ex_w w) = None"
  by (simp_all add: ex_w_def)

lemma ex_valid:
  "(\<forall>s\<in>set steps. \<forall>w. step_SetWeight s = Some w \<longrightarrow> 0 \<le> w \<and> w \<le> 100) \<Longrightarrow> length steps < 100 \<Longrightarrow>
   valid_steps (ro_Spec (ex_rollout ann n steps st))"
  by (auto simp: valid_steps_def weights_of_def)

text \<open>The cluster of a rollout whose stable Deployment has \<open>s\<close> replicas and whose canary has \<open>c\<close>, up.\<close>

definition ex_cluster :: "Rollout \<Rightarrow> int \<Rightarrow> int \<Rightarrow> Cluster" where
  "ex_cluster ro s c = cluster0\<lparr>cl_rollouts := [ro], cl_deployments :=
     [buildStable ro s, (workloadDeployment ro ''shop-canary'' c ''shop:2'')\<lparr>dep_AvailableReplicas := c\<rparr>]\<rparr>"

abbreviation ex_key :: ObjectKey where "ex_key \<equiv> okey ''ns'' ''shop''"

abbreviation ex_exec :: "gotime \<Rightarrow> Rollout \<Rightarrow> int \<Rightarrow> int \<Rightarrow> reconcile_result \<times> Cluster \<times> effect list" where
  "ex_exec now ro s c \<equiv> exec (Rollout_Reconcile mem_client ex_env now ex_key) (ex_cluster ro s c)"

lemmas ex_rollout_simps = run_simps ex_env_def ex_cluster_def workloadDeployment_def buildStable_def container0_def
  rollout_constants Rollout_Reconcile_def initRollout_def applyControlCommand_def applyAction_def
  holdAborted_def holdPaused_def stampPause_def evaluateRollout_def ensureWorkload_def ensureCanary_def
  getStable_def resolveTotalReplicas_def canaryReplicaState_def canaryDeploymentHasReplicaFailure_def
  applyDecision_def scaleDeployment_def ensureService_def ensureCanaryIngress_def observeHealth_def probeDue_def
  canaryHealthy_def currentStep_def setAnnotations_def ownedBy_def alertPhases_def
  RolloutActionPause_def RolloutActionPromote_def RolloutActionRollback_def

text \<open>A rollout at its first weight, 20, whose next step is 100.\<close>

definition ex_ro :: Rollout where
  "ex_ro = ex_rollout Map.empty (Some 10) [ex_w 20, ex_w 100] (ex_status RolloutProgressing 0 20)"

definition ex_advance :: Decision where
  "ex_advance = (atWeight RolloutProgressing 1 100 10 ''healthy at weight, advancing'')\<lparr>d_RequeueAfter := 30 * second\<rparr>"

lemma ex_ro_evaluate: "Evaluate 5 ex_ro 2 2 10 True = Some ex_advance"
  by (simp add: ex_ro_def Evaluate_def healthDecision_def ex_advance_def healthInterval_def seconds_def second_def i64_def i32_def Let_def)

lemma ex_advance_views: "d_CanaryReplicas ex_advance = 10" "d_StableReplicas ex_advance = 0"
  "d_Phase ex_advance = RolloutProgressing" "d_RequeueAfter ex_advance = 30 * second"
  by (simp_all add: ex_advance_def weightReplicas_def i32_def i64_def signed_divide_int_def)

lemma ex_ro_run:
  "\<exists>c' es a. ex_exec 5 ex_ro 8 2 = ((30 * second, None), c', GetRO ex_key (Inr ex_ro) # es) \<and>
     StatusRO (ex_ro\<lparr>ro_Status := recordDecision 5 True ex_advance (ro_Status ex_ro)\<rparr>) a \<in> set es \<and>
     map dep_Replicas (cl_deployments c') = [Some 0, Some 10]"
proof -
  note e = ex_ro_evaluate [unfolded ex_ro_def]
  show ?thesis unfolding ex_ro_def
    by (simp add: ex_rollout_simps e ex_advance_views cong: bind_weak_cong)
qed

section \<open>What a reconcile of a given rollout can be\<close>

lemma initRollout_views [simp]:
  "ro_Meta (initRollout now ro) = ro_Meta ro" "ro_Spec (initRollout now ro) = ro_Spec ro"
  by (simp_all add: initRollout_def)

lemma initRollout_known [simp]: "rst_Phase (ro_Status ro) \<noteq> RolloutUnset \<Longrightarrow> initRollout now ro = ro"
  by (simp add: initRollout_def)

lemma commanded_init [simp]: "commanded (initRollout now ro) \<longleftrightarrow> commanded ro"
  and held_init [simp]: "held (initRollout now ro) \<longleftrightarrow> held ro"
  by (simp_all add: commanded_def held_def)

lemma observe_no_other [simp]:
  "list_all (observe_event ro) es \<Longrightarrow> StatusRO p a \<notin> set es"
  "list_all (observe_event ro) es \<Longrightarrow> PatchRO p p' b \<notin> set es"
  "list_all (observe_event ro) es \<Longrightarrow> PatchDep d0 d a1 \<notin> set es"
  by (auto simp: list_all_iff)

text \<open>The path of a reconcile, when the rollout it read is known.\<close>

lemma Rollout_cases:
  assumes "exec (Rollout_Reconcile k env now req) c = (res, c', GetRO req (Inr ro) # es)"
  obtains (command) "commanded ro" "fst res = healthCheckInterval" "command_path now (initRollout now ro) (snd res) es"
  | (aborted) "\<not> commanded ro" "ro_ann ro annRolloutAborted = ''true''" "fst res = 0"
      "hold_path (initRollout now ro) (\<lambda>n. n) (\<lambda>n. 0)
        (\<lambda>n. abortedStatus now n (ro_Status (initRollout now ro))) (snd res) es"
  | (paused) "\<not> commanded ro" "ro_ann ro annRolloutAborted \<noteq> ''true''" "ro_ann ro annRolloutPaused = ''true''"
      "fst res = healthCheckInterval"
      "hold_path (initRollout now ro)
        (\<lambda>n. i32 (n - controllerWeightReplicas (rst_CurrentWeight (ro_Status (initRollout now ro))) n))
        (controllerWeightReplicas (rst_CurrentWeight (ro_Status (initRollout now ro))))
        (\<lambda>n. pausedStatus (initRollout now ro)) (snd res) es"
  | (over) "\<not> commanded ro" "\<not> held ro" "rst_Phase (ro_Status (initRollout now ro)) \<in> {RolloutFailed, RolloutRolledBack}"
      "res = (0, None)" "es = []"
  | (walk) es1 es2 where "\<not> commanded ro" "\<not> held ro"
      "rst_Phase (ro_Status (initRollout now ro)) \<notin> {RolloutFailed, RolloutRolledBack}"
      "es = es1 @ es2" "stamped req (initRollout now ro) es1"
      "es2 = [] \<or> evaluate_path env now (initRollout now ro) res es2"
  using Rollout_path [OF assms]
proof cases
  case (rp_stamped ro')
  then show ?thesis by (intro walk [of es "[]"]) auto
next
  case (rp_evaluate ro' es1 es2)
  then show ?thesis by (intro walk [of es1 es2]) auto
next
  case (rp_command ro' e)
  then show ?thesis by (intro command) auto
next
  case (rp_aborted ro' e)
  then show ?thesis by (intro aborted) auto
next
  case (rp_paused ro' e)
  then show ?thesis by (intro paused) auto
next
  case (rp_terminal ro')
  then show ?thesis by (intro over) auto
qed

text \<open>
  The Deployments a transcript changes: the stable ones get \<open>s\<close> replicas, the canaries \<open>c\<close>, and
  nothing else of them changes.
\<close>

definition replicas_to :: "Rollout \<Rightarrow> int \<Rightarrow> int \<Rightarrow> effect list \<Rightarrow> bool" where
  "replicas_to ro s c es \<longleftrightarrow> (\<forall>base d x. PatchDep base d x \<in> set es \<longrightarrow>
     base \<in> stable_objs ro es \<and> d = base\<lparr>dep_Replicas := Some s\<rparr> \<or>
     base \<in> canary_objs ro es \<and> d = base\<lparr>dep_Replicas := Some c\<rparr>)"

lemma objs_init [simp]:
  "stable_objs (initRollout now ro) es = stable_objs ro es" "canary_objs (initRollout now ro) es = canary_objs ro es"
  by (simp_all add: stable_objs_def canary_objs_def workloadDeployment_def)

lemma total_of_init [simp]: "total_of (initRollout now ro) es n = total_of ro es n"
  by (simp add: total_of_def)

lemma brought_to_init [simp]: "brought_to (initRollout now ro) n s c es = brought_to ro n s c es"
proof -
  have views: "ro_Meta (initRollout now ro) = ro_Meta ro" "ro_Spec (initRollout now ro) = ro_Spec ro"
    by simp_all
  then have "workloadDeployment (initRollout now ro) = workloadDeployment ro" "buildStable (initRollout now ro) = buildStable ro"
    by (simp_all add: fun_eq_iff workloadDeployment_def buildStable_def)
  with views show ?thesis by (simp only: brought_to_def workload_read_def canary_got_def applied_def)
qed

lemma brought_to_prepend [simp]:
  assumes "stamped req ro' es1" "brought_to ro n s c es"
  shows "brought_to ro n s c (es1 @ es)"
proof -
  have no: "GetDep key b \<notin> set es1" "PatchDep base d a \<notin> set es1" for key b base d a
    using assms(1) by (auto simp: stamped_def list_all_iff stamp_event_def)
  have "asked es1 = []" using no(2) by (rule asked_nothing)
  with no(1) assms(2) show ?thesis
    unfolding brought_to_def by (elim exE conjE) (rule_tac x = "es1 @ pre" in exI, simp add: asked_append, blast)
qed

lemma Evaluate_not_rolled_back: "Evaluate now ro r t n h = Some d \<Longrightarrow> d_Phase d \<noteq> RolloutRolledBack"
  by (auto simp: Evaluate_def Let_def healthDecision_def pauseDecision_def RollbackDecision_def atWeight_def decision0_def
      split: if_splits option.splits)

lemma replicas_to_init [simp]: "replicas_to (initRollout now ro) s c es = replicas_to ro s c es"
  by (simp add: replicas_to_def)

lemma replicas_toI:
  assumes "list_all (observe_event ro) obs" "scaled ro (canary_objs ro obs) s c sc"
    and "\<And>base d x. PatchDep base d x \<notin> set pre" "\<And>base d x. PatchDep base d x \<notin> set rest"
  shows "replicas_to ro s c (pre @ obs @ sc @ rest)"
  unfolding replicas_to_def
proof (intro allI impI)
  fix base d x assume "PatchDep base d x \<in> set (pre @ obs @ sc @ rest)"
  with assms have "PatchDep base d x \<in> set sc" by auto
  then have "scale_event (stable_objs ro sc) (canary_objs ro obs) s c (PatchDep base d x)"
    using assms(2) by (rule scaledD [rotated])
  moreover have "stable_objs ro sc \<subseteq> stable_objs ro (pre @ obs @ sc @ rest)" by (auto simp: stable_objs_def)
  moreover have "canary_objs ro obs \<subseteq> canary_objs ro (pre @ obs @ sc @ rest)" by (intro canary_objs_mono) auto
  ultimately show "base \<in> stable_objs ro (pre @ obs @ sc @ rest) \<and> d = base\<lparr>dep_Replicas := Some s\<rparr> \<or>
      base \<in> canary_objs ro (pre @ obs @ sc @ rest) \<and> d = base\<lparr>dep_Replicas := Some c\<rparr>"
    by (auto simp: scale_event_def)
qed

lemma hold_path_replicas:
  assumes "hold_path ro s c st e es"
  shows "\<exists>obs n a. set obs \<subseteq> set es \<and> total_of ro obs n \<and> e = errOf a \<and>
     StatusRO (ro\<lparr>ro_Status := st n\<rparr>) a \<in> set es \<and>
     (\<forall>p x. StatusRO p x \<in> set es \<longrightarrow> p = ro\<lparr>ro_Status := st n\<rparr>) \<and> replicas_to ro (s n) (c n) es"
  using assms
proof cases
  case (hold obs n sc a)
  have "replicas_to ro (s n) (c n) ([] @ obs @ sc @ [StatusRO (ro\<lparr>ro_Status := st n\<rparr>) a])"
    by (rule replicas_toI) (use hold in auto)
  with hold show ?thesis by (intro exI [of _ obs] exI [of _ n] exI [of _ a]) auto
qed

section \<open>Terminal phases and holds\<close>

text \<open>A Failed or RolledBack rollout stays as it is. Unless an operator's command or hold is
  stamped on it, reconciling it only reads it: no Deployment, Service or Ingress is touched, no
  status is written and nothing is requeued.\<close>

theorem rollout_terminal_final:
  assumes "exec (Rollout_Reconcile k env now req) c = (res, c', GetRO req (Inr ro) # es)"
    and "rst_Phase (ro_Status ro) \<in> {RolloutFailed, RolloutRolledBack}"
    and "\<not> commanded ro" "\<not> held ro"
  shows "es = [] \<and> res = (0, None)"
proof -
  have "initRollout now ro = ro" using assms(2) by (intro initRollout_known) auto
  with assms(2-4) show ?thesis
    by (cases rule: Rollout_cases [OF assms(1)]) (simp_all add: held_def)
qed

definition ex_failed :: Rollout where
  "ex_failed = ex_rollout Map.empty (Some 10) [ex_w 20, ex_w 100] (ex_status RolloutFailed 0 20)"

lemma ex_failed_run: "\<exists>res c' es. ex_exec 5 ex_failed 8 2 = (res, c', GetRO ex_key (Inr ex_failed) # es)"
  unfolding ex_failed_def by (simp add: ex_rollout_simps cong: bind_weak_cong)

lemma rollout_terminal_final_witness:
  "\<exists>c'. ex_exec 5 ex_failed 8 2 = ((0, None), c', [GetRO ex_key (Inr ex_failed)])"
proof -
  obtain res c' es where run: "ex_exec 5 ex_failed 8 2 = (res, c', GetRO ex_key (Inr ex_failed) # es)"
    using ex_failed_run by blast
  have "es = [] \<and> res = (0, None)"
    by (rule rollout_terminal_final [OF run])
      (simp_all add: ex_failed_def commanded_def held_def rollout_constants map_get_def)
  with run show ?thesis by blast
qed

text \<open>The hold after an operator's rollback: the stable Deployment gets all replicas, the canary
  none, and the status is RolledBack at weight 0 with that split and a completion time; nothing is
  requeued.\<close>

theorem rollback_hold:
  assumes "exec (Rollout_Reconcile k env now req) c = (res, c', GetRO req (Inr ro) # es)"
    and "ro_ann ro annRolloutAborted = ''true''" "\<not> commanded ro"
  shows "fst res = 0 \<and> (\<exists>n p a. StatusRO p a \<in> set es \<and> snd res = errOf a \<and>
     rst_Phase (ro_Status p) = RolloutRolledBack \<and> rst_CurrentWeight (ro_Status p) = 0 \<and>
     rst_CanaryReplicas (ro_Status p) = 0 \<and> rst_StableReplicas (ro_Status p) = n \<and>
     rst_CompletionTime (ro_Status p) \<noteq> None \<and>
     (\<forall>m. ros_Replicas (ro_Spec ro) = Some m \<longrightarrow> n = m) \<and>
     replicas_to ro n 0 es)"
proof -
  have ab: "rst_Phase (abortedStatus now n st) = RolloutRolledBack \<and> rst_CurrentWeight (abortedStatus now n st) = 0 \<and>
      rst_CanaryReplicas (abortedStatus now n st) = 0 \<and> rst_StableReplicas (abortedStatus now n st) = n \<and>
      rst_CompletionTime (abortedStatus now n st) \<noteq> None" for n st
    by (simp add: abortedStatus_def Let_def)
  from assms(2,3) show ?thesis
  proof (cases rule: Rollout_cases [OF assms(1)])
    case 2
    let ?st = "\<lambda>n. abortedStatus now n (ro_Status (initRollout now ro))"
    obtain obs n a where "total_of (initRollout now ro) obs n" "snd res = errOf a"
      "StatusRO (initRollout now ro\<lparr>ro_Status := ?st n\<rparr>) a \<in> set es" "replicas_to (initRollout now ro) n 0 es"
      using hold_path_replicas [OF 2(4)] by blast
    then show ?thesis
      using ab [of n "ro_Status (initRollout now ro)"] 2(3) total_of_spec [of "initRollout now ro" obs n]
      by (intro conjI exI [of _ n] exI [of _ "initRollout now ro\<lparr>ro_Status := ?st n\<rparr>"] exI [of _ a]) simp_all
  qed (auto simp: held_def)
qed

definition ex_aborted :: Rollout where
  "ex_aborted = ex_rollout [annRolloutAborted \<mapsto> ''true''] (Some 10) [ex_w 20, ex_w 100]
     (ex_status RolloutRollingBack 0 20)"

lemma ex_aborted_run:
  "\<exists>res c' es. ex_exec 5 ex_aborted 8 2 = (res, c', GetRO ex_key (Inr ex_aborted) # es) \<and>
     map dep_Replicas (cl_deployments c') = [Some 10, Some 0]"
  unfolding ex_aborted_def by (simp add: ex_rollout_simps decision0_def cong: bind_weak_cong)

lemma rollback_hold_witness:
  "\<exists>res c' es p a. ex_exec 5 ex_aborted 8 2 = (res, c', es) \<and>
     map dep_Replicas (cl_deployments c') = [Some 10, Some 0] \<and> StatusRO p a \<in> set es \<and>
     rst_Phase (ro_Status p) = RolloutRolledBack \<and> rst_StableReplicas (ro_Status p) = 10"
proof -
  obtain res c' es where run: "ex_exec 5 ex_aborted 8 2 = (res, c', GetRO ex_key (Inr ex_aborted) # es)"
    "map dep_Replicas (cl_deployments c') = [Some 10, Some 0]"
    using ex_aborted_run by metis
  have a: "ro_ann ex_aborted annRolloutAborted = ''true''" "\<not> commanded ex_aborted"
    "ros_Replicas (ro_Spec ex_aborted) = Some 10"
    by (simp_all add: ex_aborted_def commanded_def rollout_constants map_get_def)
  from rollback_hold [OF run(1) a(1,2)] a(3) obtain p a where "StatusRO p a \<in> set es"
    "rst_Phase (ro_Status p) = RolloutRolledBack" "rst_StableReplicas (ro_Status p) = 10"
    by auto
  with run show ?thesis by (metis list.set_intros(2))
qed

section \<open>The walk\<close>

lemma controllerWeightReplicas_eq: "controllerWeightReplicas = weightReplicas"
  by (simp add: fun_eq_iff controllerWeightReplicas_def weightReplicas_def)

lemma evaluate_path_status:
  assumes "evaluate_path env now ro res es" "StatusRO p a \<in> set es"
  shows "(\<exists>cd r t n d. set_option cd \<subseteq> canary_objs ro es \<and> canaryReplicaState cd = (r, t) \<and>
      Evaluate now ro r t n (observeHealth env now ro r t) = Some d \<and>
      p = ro\<lparr>ro_Status := recordDecision now (probeDue now ro) d (ro_Status ro)\<rparr> \<and>
      replicas_to ro (d_StableReplicas d) (d_CanaryReplicas d) es) \<or>
    ros_AutoRollback (ro_Spec ro) \<and> (\<exists>dep\<in>canary_objs ro es. canaryDeploymentHasReplicaFailure (Some dep)) \<and>
      p = ro\<lparr>ro_Status := (ro_Status ro)\<lparr>rst_Phase := RolloutRolledBack, rst_CompletionTime := Some now\<rparr>\<rparr>"
  using assms(1)
proof cases
  case (ep_decide obs n cd r t d sc alerts a')
  have "replicas_to ro (d_StableReplicas d) (d_CanaryReplicas d) es"
    using replicas_toI [OF ep_decide(2,7), of "[]"] ep_decide by simp
  moreover have "p = ro\<lparr>ro_Status := recordDecision now (probeDue now ro) d (ro_Status ro)\<rparr>"
    using ep_decide assms(2) by (auto split: if_splits)
  moreover have "canary_objs ro obs \<subseteq> canary_objs ro es"
    unfolding ep_decide(1) by (rule canary_objs_mono) auto
  ultimately show ?thesis using ep_decide(3-6) by blast
next
  case (ep_failure obs n dep sc a')
  have "canary_objs ro obs \<subseteq> canary_objs ro es"
    unfolding ep_failure(2) by (rule canary_objs_mono) auto
  with ep_failure assms(2) show ?thesis by auto
qed (use assms(2) in auto)

text \<open>C1: The reconciler refines the walk of the canary engine. Without an operator's command or
  hold, the status it writes is either the recorded decision of \<open>Evaluate\<close> for the replicas of the
  canary Deployment the API server presented (none when it presented none) and for their health,
  a step of the abstract walk from the status it read, or, under automatic
  rollback and for a canary Deployment that reports a replica failure, RolledBack with a completion time;
  it never changes the spec or the metadata.\<close>

theorem reconcile_refines_walk:
  assumes "exec (Rollout_Reconcile k env now req) c = (res, c', GetRO req (Inr ro) # es)"
    and "\<not> commanded ro" "\<not> held ro" "StatusRO p a \<in> set es"
  shows "ro_Spec p = ro_Spec ro \<and> ro_Meta p = ro_Meta ro \<and>
    (let st = ro_Status (initRollout now ro) in
     (\<exists>cd n d. set_option cd \<subseteq> canary_objs ro es \<and>
        (case canaryReplicaState cd of (ready, desired) \<Rightarrow>
           Evaluate now (initRollout now ro) ready desired n (observeHealth env now (initRollout now ro) ready desired) = Some d) \<and>
        ro_Status p = recordDecision now (probeDue now (initRollout now ro)) d st \<and>
        walk_step Evaluate (ro_Spec ro) st (ro_Status p)) \<or>
     ros_AutoRollback (ro_Spec ro) \<and> (\<exists>dep\<in>canary_objs ro es. canaryDeploymentHasReplicaFailure (Some dep)) \<and>
       ro_Status p = st\<lparr>rst_Phase := RolloutRolledBack, rst_CompletionTime := Some now\<rparr>)"
proof -
  let ?ro = "initRollout now ro"
  have eta: "?ro = rollout_at (ro_Meta ro) (ro_Spec ro) (ro_Status ?ro)"
    by (simp add: initRollout_def)
  from assms(2-4) show ?thesis
  proof (cases rule: Rollout_cases [OF assms(1)])
    case (5 es1 es2)
    with assms(4) have "evaluate_path env now ?ro res es2" "StatusRO p a \<in> set es2" by auto
    note st = evaluate_path_status [OF this]
    have sub: "canary_objs ro es2 \<subseteq> canary_objs ro es" unfolding 5(4) by (rule canary_objs_mono) simp
    from st show ?thesis
    proof (elim disjE exE conjE)
      fix cd r t n d
      assume cd: "set_option cd \<subseteq> canary_objs ?ro es2" "canaryReplicaState cd = (r, t)"
      assume d: "Evaluate now ?ro r t n (observeHealth env now ?ro r t) = Some d"
        "p = ?ro\<lparr>ro_Status := recordDecision now (probeDue now ?ro) d (ro_Status ?ro)\<rparr>"
      let ?E = "\<lambda>x. Evaluate now x r t n (observeHealth env now ?ro r t) = Some d"
      have "walk_step Evaluate (ro_Spec ro) (ro_Status ?ro) (recordDecision now (probeDue now ?ro) d (ro_Status ?ro))"
        by (rule walk_decide [where m = "ro_Meta ro" and now = now and r = r and n = t and t = n
            and h = "observeHealth env now ?ro r t"]) (use 5(3) subst [OF eta, of ?E] d(1) in simp_all)
      with d cd sub show ?thesis
        by (simp add: Let_def) (rule disjI1, rule exI [of _ cd], auto)
    qed (use sub in \<open>auto simp: Let_def\<close>)
  qed (auto simp: held_def)
qed

lemma reconcile_split:
  assumes "exec (Rollout_Reconcile k env now req) c = (res, c', GetRO req (Inr ro) # es)"
    and "\<not> commanded ro" and total: "\<And>obs t. set obs \<subseteq> set es \<Longrightarrow> total_of ro obs t \<Longrightarrow> t = n"
    and "0 \<le> n" "is_i32 n" "valid_steps (ro_Spec ro)" "index_ok (initRollout now ro)"
    and "0 \<le> rst_CurrentWeight (ro_Status (initRollout now ro))"
    and "rst_CurrentWeight (ro_Status (initRollout now ro)) \<le> 100"
  shows "\<exists>s c. s + c = n \<and> 0 \<le> s \<and> 0 \<le> c \<and> replicas_to ro s c es \<and>
    (\<forall>p a. StatusRO p a \<in> set es \<and> \<not> held ro \<and> rst_Phase (ro_Status p) \<noteq> RolloutRolledBack \<longrightarrow>
       rst_StableReplicas (ro_Status p) = s \<and> rst_CanaryReplicas (ro_Status p) = c \<and>
       c = rst_CurrentWeight (ro_Status p) * n div 100)"
proof -
  let ?ro = "initRollout now ro"
  have none: ?thesis if "\<And>base d x. PatchDep base d x \<notin> set es" "\<And>p a. StatusRO p a \<notin> set es"
    using that assms(4) by (intro exI [of _ n] exI [of _ 0]) (auto simp: replicas_to_def)
  let ?w = "rst_CurrentWeight (ro_Status ?ro)"
  note split = split_sum [OF assms(8,9,4,5)] weightReplicas_bounds [OF assms(8,9,4,5)]
  from assms(2) show ?thesis
  proof (cases rule: Rollout_cases [OF assms(1)])
    case 2
    obtain obs m where "set obs \<subseteq> set es" "total_of ro obs m" "replicas_to ro m 0 es"
      using hold_path_replicas [OF 2(4)] by auto
    with total [of obs m] assms(4) 2(2) show ?thesis
      by (intro exI [of _ n] exI [of _ 0]) (auto simp: held_def)
  next
    case 3
    obtain obs m where "set obs \<subseteq> set es" "total_of ro obs m"
      "replicas_to ro (i32 (m - weightReplicas ?w m)) (weightReplicas ?w m) es"
      using hold_path_replicas [OF 3(5)] by (auto simp: controllerWeightReplicas_eq)
    with total [of obs m] 3(3) split show ?thesis
      by (intro exI [of _ "i32 (n - weightReplicas ?w n)"] exI [of _ "weightReplicas ?w n"])
        (auto simp: held_def)
  next
    case 4
    then show ?thesis by (intro none) simp_all
  next
    case (5 es1 es2)
    show ?thesis
    proof (cases "es2 = []")
      case True
      with 5 show ?thesis by (intro none) auto
    next
      case False
      with 5(6) have "evaluate_path env now ?ro res es2" by simp
      then show ?thesis
      proof cases
        case (ep_failure obs m dep sc a)
        have "m = n" using total [of obs m] ep_failure(2,4) 5(4) by auto
        then have "replicas_to ?ro n 0 es"
          using replicas_toI [OF ep_failure(3,8), of es1] ep_failure 5(4,5) by simp
        moreover have "rst_Phase (ro_Status p) = RolloutRolledBack" if "StatusRO p x \<in> set es" for p x
          using that 5(4,5) ep_failure by auto
        ultimately show ?thesis using assms(4) by (intro exI [of _ n] exI [of _ 0]) auto
      next
        case (ep_panic r t m h)
        with Evaluate_total [of ?ro now r t m h] assms(6,7) show ?thesis by simp
      next
        case (ep_decide obs m cd r t d sc alerts a)
        have m: "m = n" using ep_decide(3) total [of obs m] ep_decide(1) 5(4) by auto
        have w: "0 \<le> d_CurrentWeight d" "d_CurrentWeight d \<le> 100"
          using engine.eval_weight [OF _ assms(7) ep_decide(6)] assms(6,8,9) by (auto simp: valid_steps_def)
        have "d_CanaryReplicas d = d_CurrentWeight d * n div 100" "d_CanaryReplicas d + d_StableReplicas d = n"
          using engine.eval_split [OF _ assms(7) ep_decide(6) assms(8,9)] assms(4-6) m by simp_all
        moreover have "0 \<le> d_CurrentWeight d * n div 100" "d_CurrentWeight d * n div 100 \<le> n"
          using weightReplicas_bounds [OF w assms(4,5)] weightReplicas_floor [OF w assms(4,5)] by simp_all
        moreover have "replicas_to ?ro (d_StableReplicas d) (d_CanaryReplicas d) es"
          using replicas_toI [OF ep_decide(2,7), of es1] ep_decide 5(4,5) by simp
        moreover have "rst_StableReplicas (ro_Status p) = d_StableReplicas d \<and>
            rst_CanaryReplicas (ro_Status p) = d_CanaryReplicas d \<and> rst_CurrentWeight (ro_Status p) = d_CurrentWeight d" if "StatusRO p x \<in> set es" for p x
          using that 5(4,5) ep_decide by (auto split: if_splits)
        ultimately show ?thesis
          by - (rule exI [of _ "d_StableReplicas d"], rule exI [of _ "d_CanaryReplicas d"], auto)
      qed
    qed
  qed (use assms(2) in simp)
qed

lemma ex_ro_unheld: "\<not> commanded ex_ro" "\<not> held ex_ro"
  by (simp_all add: ex_ro_def commanded_def held_def rollout_constants map_get_def)

lemma reconcile_refines_walk_witness:
  "\<exists>p :: Rollout. rst_CurrentWeight (ro_Status p) = 100 \<and> walk_step Evaluate (ro_Spec ex_ro) (ro_Status ex_ro) (ro_Status p)"
proof -
  let ?p = "ex_ro\<lparr>ro_Status := recordDecision 5 True ex_advance (ro_Status ex_ro)\<rparr>"
  obtain res c' es a where run: "ex_exec 5 ex_ro 8 2 = (res, c', GetRO ex_key (Inr ex_ro) # es)"
    and p: "StatusRO ?p a \<in> set es"
    using ex_ro_run by blast
  have "rst_Phase (ro_Status ?p) = RolloutProgressing" by (simp add: ex_advance_views)
  moreover have "initRollout 5 ex_ro = ex_ro" by (simp add: ex_ro_def)
  ultimately have "walk_step Evaluate (ro_Spec ex_ro) (ro_Status ex_ro) (ro_Status ?p)"
    using reconcile_refines_walk [OF run ex_ro_unheld p]
    by (auto simp: Let_def dest!: arg_cong [of _ _ rst_Phase])
  then show ?thesis by (intro exI [of _ ?p]) (simp add: ex_advance_def)
qed

text \<open>C9: No replica is lost or invented on the cluster. Without a pending command, for a rollout that
  names its replicas, everything one reconcile asks of Deployments is to set the replica count of the stable
  ones to \<open>s\<close> and of the canary ones to \<open>c\<close> with \<open>s + c\<close> the replicas of the spec and neither negative,
  and the status it records (unless it rolls back or holds) is that split, the canary having the floor of its weight.\<close>

theorem reconcile_conserves_replicas:
  assumes "exec (Rollout_Reconcile k env now req) c = (res, c', GetRO req (Inr ro) # es)"
    and "\<not> commanded ro" "ros_Replicas (ro_Spec ro) = Some n" "0 \<le> n" "is_i32 n" "valid_steps (ro_Spec ro)"
    and "index_ok (initRollout now ro)"
    and "0 \<le> rst_CurrentWeight (ro_Status (initRollout now ro))"
    and "rst_CurrentWeight (ro_Status (initRollout now ro)) \<le> 100"
  shows "\<exists>s c. s + c = n \<and> 0 \<le> s \<and> 0 \<le> c \<and> replicas_to ro s c es \<and>
    (\<forall>p a. StatusRO p a \<in> set es \<and> \<not> held ro \<and> rst_Phase (ro_Status p) \<noteq> RolloutRolledBack \<longrightarrow>
       rst_StableReplicas (ro_Status p) = s \<and> rst_CanaryReplicas (ro_Status p) = c \<and>
       c = rst_CurrentWeight (ro_Status p) * n div 100)"
proof (rule reconcile_split [OF assms(1,2) _ assms(4-9)])
  show "t = n" if "total_of ro obs t" for obs t by (rule total_of_spec [OF that assms(3)])
qed

lemma ex_steps_valid: "valid_steps (ro_Spec (ex_rollout ann n [ex_w 20, ex_w 100] st))"
  by (rule ex_valid) simp_all

lemma reconcile_conserves_replicas_witness:
  "\<exists>res c' es s c. ex_exec 5 ex_ro 8 2 = (res, c', GetRO ex_key (Inr ex_ro) # es) \<and>
     map dep_Replicas (cl_deployments c') = [Some 0, Some 10] \<and> s + c = 10 \<and> replicas_to ex_ro s c es"
proof -
  obtain res c' es where run: "ex_exec 5 ex_ro 8 2 = (res, c', GetRO ex_key (Inr ex_ro) # es)"
    "map dep_Replicas (cl_deployments c') = [Some 0, Some 10]"
    using ex_ro_run by metis
  have "initRollout 5 ex_ro = ex_ro" by (simp add: ex_ro_def)
  then have "\<exists>s c. s + c = 10 \<and> 0 \<le> s \<and> 0 \<le> c \<and> replicas_to ex_ro s c es \<and>
    (\<forall>p a. StatusRO p a \<in> set es \<and> \<not> held ex_ro \<and> rst_Phase (ro_Status p) \<noteq> RolloutRolledBack \<longrightarrow>
       rst_StableReplicas (ro_Status p) = s \<and> rst_CanaryReplicas (ro_Status p) = c \<and>
       c = rst_CurrentWeight (ro_Status p) * 10 div 100)"
    by (intro reconcile_conserves_replicas [OF run(1)])
      (simp_all add: ex_ro_unheld, simp_all add: ex_ro_def ex_steps_valid index_ok_def is_i32_def)
  then obtain s c where "s + c = 10" "replicas_to ex_ro s c es" by auto
  with run show ?thesis by metis
qed

text \<open>C10: A status is only written after the cluster was brought to it, as far as its Deployments could be had. Before a
  reconcile without a command writes a status, it has read the stable Deployment (creating it with the total when that failed), the
  canary (creating it without a replica when it was not there), and the stable one again, in this order. Then it
  has asked for replicas of exactly these two: \<open>s\<close> of the stable one and \<open>t\<close> of the canary, each unless it was found with them, and
  nothing of a Deployment that could neither be read nor created. A status that records a decision or an operator's rollback
  records \<open>s\<close> and \<open>t\<close>; under RolledBack \<open>s\<close> is the whole total and \<open>t\<close> is 0; under the hold of a pause they are the split
  of the recorded weight. (A failed read does not keep the status from being written.)\<close>

theorem status_follows_scaling:
  assumes "exec (Rollout_Reconcile k env now req) c = (res, c', GetRO req (Inr ro) # es)"
    and "\<not> commanded ro" "StatusRO p a \<in> set es"
  shows "\<exists>pre post n s t. es = pre @ post \<and> StatusRO p a \<in> set post \<and> brought_to ro n s t pre \<and>
    (rst_Phase (ro_Status p) = RolloutRolledBack \<longrightarrow> s = n \<and> t = 0) \<and>
    (\<not> held ro \<and> rst_Phase (ro_Status p) \<noteq> RolloutRolledBack \<or> ro_ann ro annRolloutAborted = ''true'' \<longrightarrow>
       rst_StableReplicas (ro_Status p) = s \<and> rst_CanaryReplicas (ro_Status p) = t) \<and>
    (held ro \<and> ro_ann ro annRolloutAborted \<noteq> ''true'' \<longrightarrow>
       t = weightReplicas (rst_CurrentWeight (ro_Status p)) n \<and> s = i32 (n - t))"
proof -
  let ?ro = "initRollout now ro"
  from assms(2) show ?thesis
  proof (cases rule: Rollout_cases [OF assms(1)])
    case 2
    from 2(4) show ?thesis
    proof cases
      case (hold obs n sc a')
      with assms(3) 2(2) show ?thesis
        by (intro exI [of _ "obs @ sc"] exI [of _ "[StatusRO p a]"] exI [of _ n] exI [of _ n] exI [of _ 0])
          (auto simp: abortedStatus_def Let_def)
    qed
  next
    case 3
    from 3(5) show ?thesis
    proof cases
      case (hold obs n sc a')
      with assms(3) 3(2,3) show ?thesis
        by (intro exI [of _ "obs @ sc"] exI [of _ "[StatusRO p a]"] exI [of _ n]
            exI [of _ "i32 (n - weightReplicas (rst_CurrentWeight (ro_Status ?ro)) n)"]
            exI [of _ "weightReplicas (rst_CurrentWeight (ro_Status ?ro)) n"])
          (auto simp: pausedStatus_def controllerWeightReplicas_eq held_def)
    qed
  next
    case (5 es1 es2)
    with assms(3) have "evaluate_path env now ?ro res es2" "StatusRO p a \<in> set es2" by auto
    then show ?thesis
    proof (cases rule: evaluate_path.cases)
      case (ep_failure obs n dep sc a')
      with \<open>StatusRO p a \<in> set es2\<close> 5 show ?thesis
        by (intro exI [of _ "es1 @ obs @ sc"] exI [of _ "drop (length (obs @ sc)) es2"] exI [of _ n] exI [of _ n] exI [of _ 0])
          (auto simp: held_def)
    next
      case (ep_decide obs n cd r t d sc alerts a')
      have "d_Phase d \<noteq> RolloutRolledBack" by (rule Evaluate_not_rolled_back [OF ep_decide(6)])
      with ep_decide \<open>StatusRO p a \<in> set es2\<close> 5 show ?thesis
        by (intro exI [of _ "es1 @ obs @ sc"] exI [of _ "drop (length (obs @ sc)) es2"] exI [of _ n]
            exI [of _ "d_StableReplicas d"] exI [of _ "d_CanaryReplicas d"])
          (auto simp: held_def split: if_splits)
    qed (use \<open>StatusRO p a \<in> set es2\<close> in auto)
  qed (use assms(3) in \<open>auto\<close>)
qed

lemma status_follows_scaling_witness:
  "\<exists>res c' pre post n. ex_exec 5 ex_ro 8 2 = (res, c', GetRO ex_key (Inr ex_ro) # pre @ post) \<and>
     map dep_Replicas (cl_deployments c') = [Some 0, Some 10] \<and> brought_to ex_ro n 0 10 pre"
proof -
  let ?p = "ex_ro\<lparr>ro_Status := recordDecision 5 True ex_advance (ro_Status ex_ro)\<rparr>"
  obtain res c' es a where run: "ex_exec 5 ex_ro 8 2 = (res, c', GetRO ex_key (Inr ex_ro) # es)"
    "StatusRO ?p a \<in> set es" "map dep_Replicas (cl_deployments c') = [Some 0, Some 10]"
    using ex_ro_run by metis
  have v: "rst_Phase (ro_Status ?p) = RolloutProgressing" "rst_StableReplicas (ro_Status ?p) = 0"
    "rst_CanaryReplicas (ro_Status ?p) = 10"
    by (simp_all add: ex_advance_views)
  have "\<exists>pre post n. es = pre @ post \<and> brought_to ex_ro n 0 10 pre"
    using status_follows_scaling [OF run(1) ex_ro_unheld(1) run(2)] ex_ro_unheld(2) v by auto
  with run(1,3) show ?thesis by metis
qed

text \<open>Where the text of the code says that the cluster is brought to the status, a server that cannot be read shows the difference: an operator's
  rollback is recorded as done, no canary left, while the canary of the cluster still has its two replicas.\<close>

definition ex_unread :: "Cluster kclient" where
  "ex_unread = mem_client\<lparr>deployments := (deployments mem_client)\<lparr>r_get := \<lambda>key. State (\<lambda>c. (Inl (Err ''timeout''), c))\<rparr>\<rparr>"

lemma rolled_back_unscaled:
  fixes ro :: Rollout
  defines "ro \<equiv> ex_rollout [annRolloutAborted \<mapsto> ''true''] (Some 10) [ex_w 20, ex_w 100] (ex_status RolloutProgressing 0 20)"
  shows "\<exists>c' es p a. exec (Rollout_Reconcile ex_unread ex_env 5 ex_key) (ex_cluster ro 8 2) = ((0, None), c', es) \<and>
     StatusRO p a \<in> set es \<and> rst_Phase (ro_Status p) = RolloutRolledBack \<and> rst_CanaryReplicas (ro_Status p) = 0 \<and>
     map dep_Replicas (cl_deployments c') = [Some 8, Some 2]"
  unfolding ro_def ex_unread_def
  by (simp add: ex_rollout_simps abortedStatus_def cong: bind_weak_cong)

text \<open>A rollout that does not name its replicas erodes. The total of a reconcile is then what the
  stable Deployment has at that moment, without the canary's share, and the canary's new share is taken out of
  it: when the API server presents the stable Deployment with \<open>n\<close> replicas, a recorded decision at weight \<open>w\<close>
  leaves it with \<open>n - w n / 100\<close>, which is the total of the next reconcile, so a rollout that stays at
  its weight shrinks at every reconcile by the share of the canary.\<close>

theorem unset_replicas_erode:
  assumes "exec (Rollout_Reconcile k env now req) c = (res, c', GetRO req (Inr ro) # es)"
    and "\<not> commanded ro" "ros_Replicas (ro_Spec ro) = None" "0 \<le> n" "is_i32 n" "valid_steps (ro_Spec ro)"
    and "index_ok (initRollout now ro)"
    and "0 \<le> rst_CurrentWeight (ro_Status (initRollout now ro))"
    and "rst_CurrentWeight (ro_Status (initRollout now ro)) \<le> 100"
    and "\<forall>a. GetDep (okey (om_Namespace (ro_Meta ro)) (ros_WorkloadRef (ro_Spec ro))) a \<in> set es \<longrightarrow>
      (\<exists>dep. a = Inr dep \<and> dep_Replicas dep = Some n)"
  shows "\<exists>s c. s + c = n \<and> 0 \<le> s \<and> 0 \<le> c \<and> replicas_to ro s c es \<and>
    (\<forall>p a. StatusRO p a \<in> set es \<and> \<not> held ro \<and> rst_Phase (ro_Status p) \<noteq> RolloutRolledBack \<longrightarrow>
       rst_StableReplicas (ro_Status p) = s \<and> rst_CanaryReplicas (ro_Status p) = c \<and>
       c = rst_CurrentWeight (ro_Status p) * n div 100)"
proof (rule reconcile_split [OF assms(1,2) _ assms(4-9)])
  show "t = n" if "set obs \<subseteq> set es" "total_of ro obs t" for obs t
    using that assms(3,10) by (auto simp: total_of_def resolveTotalReplicas_def)
qed

definition ex_unset :: Rollout where
  "ex_unset = ex_rollout Map.empty None [ex_w 20, ex_w 100] (ex_status RolloutProgressing 0 20)"

text \<open>Its canary is not up: the rollout waits at weight 20, and loses a replica by it.\<close>

definition ex_wait :: Decision where
  "ex_wait = (atWeight RolloutProgressing 0 20 8 ''waiting for canary health'')\<lparr>d_RequeueAfter := 30 * second\<rparr>"

definition ex_unset_cluster :: Cluster where
  "ex_unset_cluster = cluster0\<lparr>cl_rollouts := [ex_unset], cl_deployments :=
     [buildStable ex_unset 8, workloadDeployment ex_unset ''shop-canary'' 2 ''shop:2'']\<rparr>"

lemma ex_unset_evaluate: "Evaluate 5 ex_unset 0 2 8 False = Some ex_wait"
  by (simp add: ex_unset_def Evaluate_def healthDecision_def ex_wait_def healthInterval_def seconds_def second_def
      i64_def i32_def Let_def atWeight_def decision0_def)

lemma ex_wait_views: "d_CanaryReplicas ex_wait = 1" "d_StableReplicas ex_wait = 7"
  "d_Phase ex_wait = RolloutProgressing" "d_CurrentWeight ex_wait = 20"
  by (simp_all add: ex_wait_def weightReplicas_def i32_def i64_def signed_divide_int_def)

lemma ex_unset_run:
  "\<exists>res c' es a. exec (Rollout_Reconcile mem_client ex_env 5 ex_key) ex_unset_cluster =
       (res, c', GetRO ex_key (Inr ex_unset) # es) \<and>
     StatusRO (ex_unset\<lparr>ro_Status := recordDecision 5 True ex_wait (ro_Status ex_unset)\<rparr>) a \<in> set es \<and>
     map dep_Replicas (cl_deployments c') = [Some 7, Some 1] \<and>
     (\<forall>x. GetDep ex_key x \<in> set es \<longrightarrow> (\<exists>dep. x = Inr dep \<and> dep_Replicas dep = Some 8))"
proof -
  note e = ex_unset_evaluate [unfolded ex_unset_def]
  show ?thesis unfolding ex_unset_def ex_unset_cluster_def
    by (simp add: ex_rollout_simps e ex_wait_views cong: bind_weak_cong)
qed

lemma unset_replicas_erode_witness:
  "\<exists>res c' es s c. exec (Rollout_Reconcile mem_client ex_env 5 ex_key) ex_unset_cluster = (res, c', es) \<and>
     map dep_Replicas (cl_deployments ex_unset_cluster) = [Some 8, Some 2] \<and>
     map dep_Replicas (cl_deployments c') = [Some 7, Some 1] \<and> s = 7 \<and> c = (1 :: int)"
proof -
  obtain res c' es a where run: "exec (Rollout_Reconcile mem_client ex_env 5 ex_key) ex_unset_cluster =
       (res, c', GetRO ex_key (Inr ex_unset) # es)"
    and p: "StatusRO (ex_unset\<lparr>ro_Status := recordDecision 5 True ex_wait (ro_Status ex_unset)\<rparr>) a \<in> set es"
    and r: "map dep_Replicas (cl_deployments c') = [Some 7, Some 1]"
    and g: "\<forall>x. GetDep ex_key x \<in> set es \<longrightarrow> (\<exists>dep. x = Inr dep \<and> dep_Replicas dep = Some 8)"
    using ex_unset_run by metis
  have i: "initRollout 5 ex_unset = ex_unset" and u: "\<not> commanded ex_unset" "\<not> held ex_unset"
    by (simp_all add: ex_unset_def commanded_def held_def rollout_constants map_get_def)
  have "\<exists>s c. s + c = 8 \<and> 0 \<le> s \<and> 0 \<le> c \<and> replicas_to ex_unset s c es \<and>
    (\<forall>p a. StatusRO p a \<in> set es \<and> \<not> held ex_unset \<and> rst_Phase (ro_Status p) \<noteq> RolloutRolledBack \<longrightarrow>
       rst_StableReplicas (ro_Status p) = s \<and> rst_CanaryReplicas (ro_Status p) = c \<and>
       c = rst_CurrentWeight (ro_Status p) * 8 div 100)"
    by (rule unset_replicas_erode [OF run u(1)])
      (use g in \<open>simp_all add: i, simp_all add: ex_unset_def ex_steps_valid index_ok_def is_i32_def\<close>)
  then obtain s c :: int where "s + c = 8" "c = 20 * 8 div 100"
    using p u(2) by (fastforce simp: ex_wait_views)
  then have "s = 7" "c = 1" by simp_all
  with run r show ?thesis
    by (intro exI [of _ res] exI [of _ c'] exI [of _ "GetRO ex_key (Inr ex_unset) # es"] exI [of _ s] exI [of _ c])
      (simp add: ex_unset_cluster_def buildStable_def workloadDeployment_def)
qed

section \<open>Operator commands\<close>

text \<open>C31: A command comes first and is consumed. When an action annotation is on the rollout, the
  reconcile first patches it away (with the operator's name), touches no Deployment, Service or
  Ingress, and asks to run again after the health interval; when that patch or the action's own
  patch is refused, it writes no status and returns the error, and the spec and the metadata it
  writes are those the API server holds.\<close>

theorem command_consumed_first:
  assumes "exec (Rollout_Reconcile k env now req) c = (res, c', GetRO req (Inr ro) # es)" "commanded ro"
  shows "fst res = healthCheckInterval \<and>
    (\<exists>a es'. es = PatchRO (initRollout now ro) (cleared (initRollout now ro)) a # es' \<and>
       (\<forall>e. a = Inl e \<longrightarrow> es' = [] \<and> snd res = Some e) \<and>
       (\<forall>e\<in>set es'. (\<exists>b p x. e = PatchRO b p x) \<or> (\<exists>p x. e = StatusRO p x)) \<and>
       (\<forall>b p e. PatchRO b p (Inl e) \<in> set es \<and> snd res \<noteq> Some (Err ''panic: index out of range'') \<longrightarrow>
          snd res = Some e \<and> (\<forall>p x. StatusRO p x \<notin> set es)) \<and>
       (\<forall>p x. StatusRO p x \<in> set es \<longrightarrow> snd res = errOf x \<and>
          (\<exists>b q rb. PatchRO b q (Inr rb) \<in> set es \<and> ro_Spec p = ro_Spec rb \<and> ro_Meta p = ro_Meta rb)))"
proof -
  let ?ro = "initRollout now ro"
  from assms(2) show ?thesis
  proof (cases rule: Rollout_cases [OF assms(1)])
    case 1
    from 1(3) show ?thesis
    proof cases
      case (cmd_status ps rb ro1 ro2 p a)
      then have "ro_Spec p = ro_Spec rb" "ro_Meta p = ro_Meta rb" by (simp_all add: action_outcome_def)
      moreover have "PatchRO ?ro (cleared ?ro) (Inr rb) \<in> set es \<or> PatchRO ro1 ro2 (Inr rb) \<in> set es"
        using cmd_status(2,3) by auto
      ultimately have "\<exists>b q rb. PatchRO b q (Inr rb) \<in> set es \<and> ro_Spec p = ro_Spec rb \<and> ro_Meta p = ro_Meta rb"
        by blast
      with cmd_status(1,2,3) 1(2) show ?thesis by (elim disjE conjE) simp_all
    qed (use 1(2) in auto)
  qed simp_all
qed

definition ex_promote :: "(string \<rightharpoonup> string) \<Rightarrow> Rollout" where
  "ex_promote ann = ex_rollout (ann(annRolloutAction \<mapsto> RolloutActionPromote)) (Some 10) [ex_w 20, ex_w 100]
     (ex_status RolloutFailed 0 20)"

lemma ex_promote_views: "ro_ann (ex_promote ann) annRolloutAction = RolloutActionPromote"
  "commanded (ex_promote ann)" "initRollout now (ex_promote ann) = ex_promote ann"
  by (simp_all add: ex_promote_def map_get_def commanded_def RolloutActionPromote_def)

lemma ex_promote_run:
  "\<exists>res c' es p a. ex_exec 5 (ex_promote Map.empty) 8 2 = (res, c', GetRO ex_key (Inr (ex_promote Map.empty)) #
     PatchRO (ex_promote Map.empty) (cleared (ex_promote Map.empty)) (Inr (cleared (ex_promote Map.empty))) # es) \<and>
     StatusRO p a \<in> set es \<and> (\<forall>q x. PatchRO (cleared (ex_promote Map.empty)) q x \<notin> set es)"
  unfolding ex_promote_def cleared_def by (simp add: ex_rollout_simps i32_def cong: bind_weak_cong)

lemma ex_promote_aborted_run:
  "\<exists>res c' es p a. ex_exec 5 (ex_promote [annRolloutAborted \<mapsto> ''true'']) 8 2 =
     (res, c', GetRO ex_key (Inr (ex_promote [annRolloutAborted \<mapsto> ''true''])) #
     PatchRO (ex_promote [annRolloutAborted \<mapsto> ''true'']) (cleared (ex_promote [annRolloutAborted \<mapsto> ''true'']))
       (Inr (cleared (ex_promote [annRolloutAborted \<mapsto> ''true'']))) # es) \<and>
     StatusRO p a \<in> set es"
  unfolding ex_promote_def cleared_def by (simp add: ex_rollout_simps cong: bind_weak_cong)

lemma command_consumed_first_witness:
  "\<exists>res c' es a es'. ex_exec 5 (ex_promote Map.empty) 8 2 = (res, c', GetRO ex_key (Inr (ex_promote Map.empty)) # es) \<and>
     fst res = healthCheckInterval \<and> es = PatchRO (ex_promote Map.empty) (cleared (ex_promote Map.empty)) a # es' \<and>
     (\<forall>e\<in>set es'. (\<exists>b p x. e = PatchRO b p x) \<or> (\<exists>p x. e = StatusRO p x))"
proof -
  obtain res c' es where run: "ex_exec 5 (ex_promote Map.empty) 8 2 =
      (res, c', GetRO ex_key (Inr (ex_promote Map.empty)) # es)"
    using ex_promote_run by blast
  from command_consumed_first [OF run ex_promote_views(2)] run show ?thesis
    by (auto simp: ex_promote_views)
qed

text \<open>A rollback cannot be undone by promoting: a promote command on a rollout an operator rolled
  back changes no field of the status but its message.\<close>

theorem promote_after_rollback_ignored:
  assumes "exec (Rollout_Reconcile k env now req) c = (res, c', GetRO req (Inr ro) #
      PatchRO (initRollout now ro) (cleared (initRollout now ro)) (Inr ro1) # es)"
    and "ro_ann ro annRolloutAction = RolloutActionPromote" "ro_ann ro1 annRolloutAborted = ''true''"
    and "StatusRO p x \<in> set es"
  shows "\<exists>msg. p = ro1\<lparr>ro_Status := (ro_Status ro1)\<lparr>rst_Message := msg\<rparr>\<rparr>"
proof -
  have "commanded ro" using assms(2) by (simp add: commanded_def RolloutActionPromote_def)
  then show ?thesis
  proof (cases rule: Rollout_cases [OF assms(1)])
    case 1
    from 1(3) show ?thesis
    proof cases
      case (cmd_status ps rb ro2 p' a)
      then have "p' = p" using assms(4) by auto
      with cmd_status assms(2,3) show ?thesis by (auto simp: action_outcome_def intro!: Rollout.equality)
    qed (use assms(4) in auto)
  qed simp_all
qed

lemma promote_after_rollback_ignored_witness:
  "\<exists>res c' es p a msg ro1. ex_exec 5 (ex_promote [annRolloutAborted \<mapsto> ''true'']) 8 2 = (res, c', es) \<and>
     StatusRO p a \<in> set es \<and> p = ro1\<lparr>ro_Status := (ro_Status ro1)\<lparr>rst_Message := msg\<rparr>\<rparr> \<and>
     rst_Phase (ro_Status ro1) = RolloutFailed"
proof -
  let ?ro = "ex_promote [annRolloutAborted \<mapsto> ''true'']"
  obtain res c' es p a where run: "ex_exec 5 ?ro 8 2 = (res, c', GetRO ex_key (Inr ?ro) #
      PatchRO ?ro (cleared ?ro) (Inr (cleared ?ro)) # es)" and p: "StatusRO p a \<in> set es"
    using ex_promote_aborted_run by blast
  have "ro_ann (cleared ?ro) annRolloutAborted = ''true''" "rst_Phase (ro_Status (cleared ?ro)) = RolloutFailed"
    by (simp_all add: cleared_def setAnnotations_def ex_promote_def rollout_constants map_get_def)
  with promote_after_rollback_ignored [of mem_client ex_env 5 ex_key "ex_cluster ?ro 8 2" res c' ?ro "cleared ?ro" es p a]
    run p show ?thesis
    by (simp add: ex_promote_views) (metis list.set_intros(2))
qed

text \<open>Promoting starts a rollout again that had failed: when a promote command reaches a rollout
  that no operator rolled back, the status written is Progressing at the next step (Healthy when the
  steps are over), whatever the phase was, Failed and RolledBack included.\<close>

theorem promote_revives:
  assumes "exec (Rollout_Reconcile k env now req) c = (res, c', GetRO req (Inr ro) #
      PatchRO (initRollout now ro) (cleared (initRollout now ro)) (Inr ro1) # es)"
    and "ro_ann ro annRolloutAction = RolloutActionPromote" "ro_ann ro1 annRolloutAborted \<noteq> ''true''"
    and "StatusRO p x \<in> set es"
  shows "\<exists>rb. (rb = ro1 \<or> (\<exists>q. PatchRO ro1 q (Inr rb) \<in> set es)) \<and>
    (if rst_CurrentStepIndex (ro_Status rb) \<ge> int (length (ros_Steps (ro_Spec rb)))
     then rst_Phase (ro_Status p) = RolloutHealthy \<and> rst_CompletionTime (ro_Status p) \<noteq> None
     else rst_Phase (ro_Status p) = RolloutProgressing \<and>
       rst_CurrentStepIndex (ro_Status p) = i32 (rst_CurrentStepIndex (ro_Status rb) + 1))"
proof -
  have st: "if rst_CurrentStepIndex (ro_Status rb) \<ge> int (length (ros_Steps (ro_Spec rb)))
     then rst_Phase (promoteStatus now sfx rb) = RolloutHealthy \<and> rst_CompletionTime (promoteStatus now sfx rb) \<noteq> None
     else rst_Phase (promoteStatus now sfx rb) = RolloutProgressing \<and>
       rst_CurrentStepIndex (promoteStatus now sfx rb) = i32 (rst_CurrentStepIndex (ro_Status rb) + 1)" for sfx rb
    by (simp add: promoteStatus_def Let_def)
  have "commanded ro" using assms(2) by (simp add: commanded_def RolloutActionPromote_def)
  then show ?thesis
  proof (cases rule: Rollout_cases [OF assms(1)])
    case 1
    from 1(3) show ?thesis
    proof cases
      case (cmd_status ps rb ro2 p' a)
      then have "p' = p" using assms(4) by auto
      moreover from cmd_status(4) assms(2,3) obtain sfx where "ro_Status p' = promoteStatus now sfx rb"
        by (auto simp: action_outcome_def)
      moreover have "rb = ro1 \<or> PatchRO ro1 ro2 (Inr rb) \<in> set es" using cmd_status(2,3) by auto
      ultimately show ?thesis using st [of rb sfx] by (intro exI [of _ rb]) auto
    qed (use assms(4) in auto)
  qed simp_all
qed

lemma promote_revives_witness:
  "\<exists>res c' es p a. ex_exec 5 (ex_promote Map.empty) 8 2 = (res, c', es) \<and> StatusRO p a \<in> set es \<and>
     rst_Phase (ro_Status p) = RolloutProgressing"
proof -
  let ?ro = "ex_promote Map.empty"
  obtain res c' es p a where run: "ex_exec 5 ?ro 8 2 = (res, c', GetRO ex_key (Inr ?ro) #
      PatchRO ?ro (cleared ?ro) (Inr (cleared ?ro)) # es)" and p: "StatusRO p a \<in> set es"
    and no: "\<forall>q x. PatchRO (cleared ?ro) q x \<notin> set es"
    using ex_promote_run by blast
  have v: "ro_ann (cleared ?ro) annRolloutAborted \<noteq> ''true''"
    "rst_CurrentStepIndex (ro_Status (cleared ?ro)) = 0" "length (ros_Steps (ro_Spec (cleared ?ro))) = 2"
    by (simp_all add: cleared_def setAnnotations_def ex_promote_def rollout_constants map_get_def)
  with promote_revives [of mem_client ex_env 5 ex_key "ex_cluster ?ro 8 2" res c' ?ro "cleared ?ro" es p a]
    run p no have "rst_Phase (ro_Status p) = RolloutProgressing"
    by (auto simp: ex_promote_views)
  with run p show ?thesis by (metis list.set_intros(2))
qed

section \<open>Gaps of the walk\<close>

text \<open>A rollback the engine decides lasts one reconcile. Its phase RollingBack is not terminal: at
  the next evaluation of the status the reconciler recorded, whatever it observes, the engine
  decides Progressing at the very weight the canary had failed at, and scales it up again.\<close>

theorem engine_rollback_resurrects:
  assumes "valid_steps (ro_Spec ro)" "index_ok ro" "Evaluate now ro ready desired n healthy = Some d"
    and "d_Phase d = RolloutRollingBack" "rst_CurrentWeight (ro_Status ro) \<noteq> 0"
    and "ro' = ro\<lparr>ro_Meta := m, ro_Status := recordDecision now probed d (ro_Status ro)\<rparr>"
  shows "rst_Phase (ro_Status ro') \<notin> {RolloutFailed, RolloutRolledBack} \<and>
    (\<exists>d'. Evaluate now' ro' ready' desired' n healthy' = Some d' \<and> d_Phase d' = RolloutProgressing \<and>
       d_CurrentWeight d' = rst_CurrentWeight (ro_Status ro) \<and>
       d_CanaryReplicas d' = weightReplicas (rst_CurrentWeight (ro_Status ro)) n)"
  by (rule rollback_resurrected [OF assms])

definition ex_weak :: Rollout where
  "ex_weak = ex_rollout Map.empty (Some 10) [ex_w 20, ex_w 100]
     ((ex_status RolloutProgressing 0 20)\<lparr>rst_ConsecutiveFailures := 2\<rparr>)"

lemma engine_rollback_resurrects_witness:
  "\<exists>d d' m. Evaluate 5 ex_weak 2 2 10 False = Some d \<and> d_Phase d = RolloutRollingBack \<and>
     Evaluate 35 (ex_weak\<lparr>ro_Meta := m, ro_Status := recordDecision 5 True d (ro_Status ex_weak)\<rparr>) 0 0 10 False = Some d' \<and>
     d_Phase d' = RolloutProgressing \<and> d_CurrentWeight d' = 20"
proof -
  obtain d where d: "Evaluate 5 ex_weak 2 2 10 False = Some d" "d_Phase d = RolloutRollingBack"
    by (simp add: ex_weak_def Evaluate_def healthDecision_def i32_def Let_def)
  have v: "valid_steps (ro_Spec ex_weak)" "index_ok ex_weak" "rst_CurrentWeight (ro_Status ex_weak) = 20"
    by (simp_all add: ex_weak_def ex_steps_valid index_ok_def)
  show ?thesis
    using engine_rollback_resurrects [OF v(1,2) d, of _ True meta0 35 0 0 False] v(3) d by auto
qed

text \<open>A timed pause is only clocked once. When the pause-start annotation carries the stamp of
  another step, a reconcile at a timed pause step stamps nothing and keeps the step: the status it
  writes stays at the step, Paused (or RolledBack for a replica failure), however long it lasts.\<close>

theorem stale_pause_start_stuck:
  assumes "exec (Rollout_Reconcile k env now req) c = (res, c', GetRO req (Inr ro) # es)"
    and "\<not> commanded ro" "\<not> held ro" "rst_Phase (ro_Status ro) \<noteq> RolloutUnset"
    and "valid_steps (ro_Spec ro)" "index_ok ro"
    and "rst_CurrentStepIndex (ro_Status ro) < int (length (ros_Steps (ro_Spec ro)))"
    and "step_Pause (cur_step ro) = Some pause"
    and "ParsePauseStart (ro_ann ro PauseStartAnnotation) = Some (idx, t0)"
    and "idx \<noteq> rst_CurrentStepIndex (ro_Status ro)"
  shows "(\<forall>b p x. PatchRO b p x \<notin> set es) \<and>
    (\<forall>p x. StatusRO p x \<in> set es \<longrightarrow>
       rst_CurrentStepIndex (ro_Status p) = rst_CurrentStepIndex (ro_Status ro) \<and>
       rst_Phase (ro_Status p) \<in> {RolloutPaused, RolloutRolledBack})"
proof -
  have init: "initRollout now ro = ro" using assms(4) by simp
  from assms(2,3) show ?thesis
  proof (cases rule: Rollout_cases [OF assms(1)])
    case (5 es1 es2)
    have e1: "es1 = []" using 5(5) init assms(9) by (simp add: stamped_def)
    show ?thesis
    proof (cases "es2 = []")
      case False
      then have p: "evaluate_path env now ro res es2" using 5(6) init by simp
      have d: "d_CurrentStepIndex d = rst_CurrentStepIndex (ro_Status ro) \<and> d_Phase d = RolloutPaused"
        if "Evaluate now ro r t n h = Some d" for r t n h d
        using that Evaluate_step [OF assms(5-7), of now r t n h] assms(8,9,10)
        by (auto simp: pauseDecision_def Let_def split: option.splits)
      have "PatchRO b q x \<notin> set es2" for b q x
        using p by cases (auto split: if_splits)
      moreover have "rst_CurrentStepIndex (ro_Status q) = rst_CurrentStepIndex (ro_Status ro) \<and>
          rst_Phase (ro_Status q) \<in> {RolloutPaused, RolloutRolledBack}" if "StatusRO q x \<in> set es2" for q x
        using evaluate_path_status [OF p that] d by fastforce
      ultimately show ?thesis using 5(4) e1 by simp
    qed (use 5(4) e1 in simp)
  qed (auto simp: held_def)
qed

definition ex_stale :: Rollout where
  "ex_stale = ex_rollout [PauseStartAnnotation \<mapsto> FormatPauseStart 0 0] (Some 10)
     [ex_w 20, \<lparr>step_SetWeight = None, step_Pause = Some \<lparr>pause_Duration = Some 60\<rparr>\<rparr>] (ex_status RolloutPaused 1 20)"

lemma ex_stale_stamp: "ParsePauseStart (FormatPauseStart 0 0) = Some (0, 0)"
  by code_simp

definition ex_stay :: Decision where
  "ex_stay = (atWeight RolloutPaused 1 20 10 ''paused at step'')\<lparr>d_RequeueAfter := 60\<rparr>"

lemma ex_stay_views: "d_CanaryReplicas ex_stay = 2" "d_StableReplicas ex_stay = 8" "d_Phase ex_stay = RolloutPaused"
  by (simp_all add: ex_stay_def weightReplicas_def i32_def i64_def signed_divide_int_def)

lemma ex_stale_evaluate: "Evaluate now ex_stale r t 10 h = Some ex_stay"
  by (simp add: ex_stale_def Evaluate_def pauseDecision_def ex_stale_stamp ex_stay_def map_get_def i32_def Let_def)

lemma ex_stale_run:
  "\<exists>res c' es p a. ex_exec 1000 ex_stale 8 2 = (res, c', GetRO ex_key (Inr ex_stale) # es) \<and> StatusRO p a \<in> set es"
proof -
  note e = ex_stale_evaluate [unfolded ex_stale_def PauseStartAnnotation_def]
  show ?thesis unfolding ex_stale_def
    by (simp add: ex_rollout_simps e ex_stay_views ex_stale_stamp PauseStartAnnotation_def cong: bind_weak_cong)
qed

lemma stale_pause_start_stuck_witness:
  "\<exists>res c' es p a. ex_exec 1000 ex_stale 8 2 = (res, c', es) \<and> StatusRO p a \<in> set es \<and>
     rst_CurrentStepIndex (ro_Status p) = 1"
proof -
  obtain res c' es p a where run: "ex_exec 1000 ex_stale 8 2 = (res, c', GetRO ex_key (Inr ex_stale) # es)"
    and p: "StatusRO p a \<in> set es"
    using ex_stale_run by blast
  have v: "\<not> commanded ex_stale" "\<not> held ex_stale" "rst_Phase (ro_Status ex_stale) \<noteq> RolloutUnset"
    "valid_steps (ro_Spec ex_stale)" "index_ok ex_stale"
    "rst_CurrentStepIndex (ro_Status ex_stale) < int (length (ros_Steps (ro_Spec ex_stale)))"
    "step_Pause (cur_step ex_stale) = Some \<lparr>pause_Duration = Some 60\<rparr>"
    "ParsePauseStart (ro_ann ex_stale PauseStartAnnotation) = Some (0, 0)"
    "0 \<noteq> rst_CurrentStepIndex (ro_Status ex_stale)"
    by (simp_all add: ex_stale_def commanded_def held_def rollout_constants map_get_def PauseStartAnnotation_def
        index_ok_def cur_step_def ex_stale_stamp ex_valid)
  from stale_pause_start_stuck [OF run v] p run show ?thesis
    by (auto simp: ex_stale_def) (metis list.set_intros(2))
qed

section \<open>Health\<close>

text \<open>Health is fail-safe. A canary is only called healthy when its pods are ready and the
  configured check passed: an HTTP probe that got a 2xx answer, or a Prometheus query to the configured
  endpoint that got a 200 answer whose last field parses to a number that is at most the threshold.\<close>

theorem canary_healthy_fail_safe:
  assumes "canaryHealthy env ro podsReady"
  shows "podsReady \<and>
    (hc_Type (ros_HealthCheck (ro_Spec ro)) = HealthCheckHTTPProbe \<longrightarrow>
      (\<exists>url timeout code body. re_HttpGet env url timeout = Some (code, body) \<and> 200 \<le> code \<and> code < 300)) \<and>
    (hc_Type (ros_HealthCheck (ro_Spec ro)) = HealthCheckPrometheusQuery \<longrightarrow>
      re_PrometheusEndpoint env \<noteq> '''' \<and>
      (\<exists>url timeout body v t. re_HttpGet env url timeout = Some (200, body) \<and> Fields (TrimSpace body) \<noteq> [] \<and>
         re_ParseFloat env (TrimSpace (last (Fields (TrimSpace body)))) = Some v \<and>
         re_ParseFloat env (TrimSpace (hc_PrometheusThreshold (ros_HealthCheck (ro_Spec ro)))) = Some t \<and>
         re_FloatLe env v t))"
proof -
  let ?hc = "ros_HealthCheck (ro_Spec ro)"
  have r: podsReady using assms by (simp add: canaryHealthy_def split: if_splits)
  show ?thesis
  proof (cases "hc_Type ?hc")
    case HealthCheckHTTPProbe
    have "\<exists>url timeout. HTTPProbe (re_HttpGet env) url timeout"
      using assms r HealthCheckHTTPProbe by (auto simp: canaryHealthy_def HTTPProbe_def Let_def)
    then show ?thesis using r HealthCheckHTTPProbe by (auto simp: HTTPProbe_iff)
  next
    case HealthCheckPrometheusQuery
    then have e: "re_PrometheusEndpoint env \<noteq> ''''"
      and q: "PrometheusQueryOK (re_HttpGet env) (re_ParseFloat env) (re_FloatLe env) (re_PrometheusEndpoint env)
        (hc_PrometheusQueryExpr ?hc) (hc_PrometheusThreshold ?hc) (seconds (hc_IntervalSeconds ?hc))"
      using assms r by (simp_all add: canaryHealthy_def Let_def split: if_splits)
    obtain url timeout body where b: "re_HttpGet env url timeout = Some (200, body)" "Fields (TrimSpace body) \<noteq> []"
      "ThresholdMet (re_ParseFloat env) (re_FloatLe env) (last (Fields (TrimSpace body))) (hc_PrometheusThreshold ?hc) = Some True"
      using PrometheusQueryOK_D [OF q] by blast
    from ThresholdMet_True [OF b(3)] b(1,2) e r HealthCheckPrometheusQuery show ?thesis by auto blast
  qed (use r in simp_all)
qed

definition ex_http_env :: "int RolloutEnv" where
  "ex_http_env = ex_env\<lparr>re_HttpGet := (\<lambda>url timeout. Some (200, ''1''))\<rparr>"

definition ex_probed :: Rollout where
  "ex_probed = ex_ro\<lparr>ro_Spec := (ro_Spec ex_ro)\<lparr>ros_HealthCheck := (ros_HealthCheck (ro_Spec ex_ro))\<lparr>hc_Type := HealthCheckHTTPProbe\<rparr>\<rparr>\<rparr>"

lemma canary_healthy_fail_safe_witness:
  "\<exists>url timeout code body. re_HttpGet ex_http_env url timeout = Some (code, body) \<and> 200 \<le> code \<and> code < 300"
proof -
  have "canaryHealthy ex_http_env ex_probed True"
    by (simp add: canaryHealthy_def ex_http_env_def ex_probed_def HTTPProbeErr_def Let_def)
  from canary_healthy_fail_safe [OF this] show ?thesis by (simp add: ex_probed_def)
qed

text \<open>Between two probes readiness counts as health. When the last check is less than 30 seconds
  old, a canary whose pods are ready leaves its weight step in that reconcile, whatever the
  configured health check would answer.\<close>

theorem unprobed_reconcile_advances:
  assumes "rst_LastHealthCheckTime (ro_Status ro) = Some t0" "since now t0 < 30 * second"
    and "valid_steps (ro_Spec ro)" "index_ok ro"
    and "rst_CurrentStepIndex (ro_Status ro) < int (length (ros_Steps (ro_Spec ro)))"
    and "step_Pause (cur_step ro) = None" "step_SetWeight (cur_step ro) = Some (rst_CurrentWeight (ro_Status ro))"
    and "0 < desired" "desired \<le> ready"
  shows "\<exists>d. Evaluate now ro ready desired n (observeHealth env now ro ready desired) = Some d \<and>
    d_CurrentStepIndex d = rst_CurrentStepIndex (ro_Status ro) + 1 \<and> d_Phase d = RolloutProgressing"
proof -
  have h: "observeHealth env now ro ready desired"
    using assms(1,2,8,9) by (simp add: observeHealth_def probeDue_def healthCheckInterval_def Let_def)
  obtain d where d: "Evaluate now ro ready desired n (observeHealth env now ro ready desired) = Some d"
    using engine.eval_total [OF assms(3,4)] by blast
  have "d_CurrentStepIndex d = rst_CurrentStepIndex (ro_Status ro) + 1"
    using engine.eval_advance [OF assms(3-7) _ _ h d] assms(8,9) by (simp add: pods_ready_def)
  moreover from this have "d_Phase d = RolloutProgressing"
  proof (cases rule: Evaluate_cases [OF assms(3,4) d])
    case (4 w)
    with healthDecision_shape [of ro w ready desired n True] h assms(8,9) show ?thesis
      by (simp add: Let_def pods_ready_def)
  qed (use assms(6,7) in auto)
  ultimately show ?thesis using d by blast
qed

definition ex_recent :: Rollout where
  "ex_recent = ex_probed\<lparr>ro_Status := (ro_Status ex_probed)\<lparr>rst_LastHealthCheckTime := Some 0\<rparr>\<rparr>"

lemma unprobed_reconcile_advances_witness:
  "\<exists>d. Evaluate second ex_recent 2 2 10 (observeHealth ex_env second ex_recent 2 2) = Some d \<and>
     d_CurrentStepIndex d = 1"
proof -
  have v: "rst_LastHealthCheckTime (ro_Status ex_recent) = Some 0" "since second 0 < 30 * second"
    "valid_steps (ro_Spec ex_recent)" "index_ok ex_recent"
    "rst_CurrentStepIndex (ro_Status ex_recent) < int (length (ros_Steps (ro_Spec ex_recent)))"
    "step_Pause (cur_step ex_recent) = None"
    "step_SetWeight (cur_step ex_recent) = Some (rst_CurrentWeight (ro_Status ex_recent))"
    using ex_steps_valid [of Map.empty "Some 10" "ex_status RolloutProgressing 0 20"]
    by (simp_all add: ex_recent_def ex_probed_def ex_ro_def cur_step_def index_ok_def since_def second_def
        valid_steps_def weights_of_def)
  have i: "rst_CurrentStepIndex (ro_Status ex_recent) = 0"
    by (simp add: ex_recent_def ex_probed_def ex_ro_def)
  from unprobed_reconcile_advances [OF v, of 2 2 10 ex_env] show ?thesis
    unfolding i by auto
qed

end
