(* ===== verification/Job_Builder.thy ===== *)
theory Job_Builder
  imports Kube "HOL-Library.Char_ord"
begin

text \<open>
  \<open>src/pkg/executor/job_builder.go\<close>: the Job of a task run. \<open>Build\<close> is pure; the only thing the
  language leaves open is the order in which the Helm values, a Go map, are ranged over, which is
  the parameter \<open>ord\<close>.
\<close>

section \<open>Configuration\<close>

definition workspaceMountPath :: string where "workspaceMountPath = ''/workspace''"

definition DefaultGitImage :: string where "DefaultGitImage = ''harbor.sdpworkflow.com/sdp/git:2.45.2''"
definition DefaultArtifactImage :: string where "DefaultArtifactImage = ''harbor.sdpworkflow.com/sdp/curl:8.8.0''"
definition DefaultHelmImage :: string where "DefaultHelmImage = ''harbor.sdpworkflow.com/sdp/helm:3.14.4''"
definition DefaultKubectlImage :: string where "DefaultKubectlImage = ''harbor.sdpworkflow.com/sdp/kubectl:1.30''"

definition reservedEnv :: "string list" where
  "reservedEnv = [''PATH'', ''HOME'', ''SHELL'', ''PWD'', ''IFS'', ''LD_PRELOAD'', ''LD_LIBRARY_PATH'',
     ''PYTHONPATH'', ''KUBERNETES_SERVICE_HOST'', ''KUBERNETES_SERVICE_PORT'']"

text \<open>The regular expression \<open>^[A-Za-z_][A-Za-z0-9_]*$\<close>.\<close>

definition is_upper :: "char \<Rightarrow> bool" where "is_upper c \<longleftrightarrow> CHR ''A'' \<le> c \<and> c \<le> CHR ''Z''"
definition is_lower :: "char \<Rightarrow> bool" where "is_lower c \<longleftrightarrow> CHR ''a'' \<le> c \<and> c \<le> CHR ''z''"
definition is_number :: "char \<Rightarrow> bool" where "is_number c \<longleftrightarrow> CHR ''0'' \<le> c \<and> c \<le> CHR ''9''"

definition envNameStart :: "char \<Rightarrow> bool" where
  "envNameStart c \<longleftrightarrow> is_upper c \<or> is_lower c \<or> c = CHR ''_''"

fun envNameRe :: "string \<Rightarrow> bool" where
  "envNameRe [] = False"
| "envNameRe (c # cs) = (envNameStart c \<and> list_all (\<lambda>d. envNameStart d \<or> is_number d) cs)"

record JobBuilder =
  jb_GitImage :: string
  jb_ArtifactImage :: string
  jb_HelmImage :: string
  jb_KubectlImage :: string
  jb_HubBaseURL :: string
  jb_HubAPIToken :: string
  jb_HubCABundle :: string

definition NewJobBuilder :: JobBuilder where
  "NewJobBuilder = \<lparr>jb_GitImage = DefaultGitImage, jb_ArtifactImage = DefaultArtifactImage,
     jb_HelmImage = DefaultHelmImage, jb_KubectlImage = DefaultKubectlImage, jb_HubBaseURL = '''',
     jb_HubAPIToken = '''', jb_HubCABundle = ''''\<rparr>"

definition HubCAConfigMapName :: string where "HubCAConfigMapName = ''sdp-hub-ca''"
definition hubCAVolumeName :: string where "hubCAVolumeName = ''hub-ca''"
definition hubCAMountPath :: string where "hubCAMountPath = ''/etc/sdp-hub-ca''"
definition HubCAKey :: string where "HubCAKey = ''ca.crt''"
definition hubCACertFile :: string where "hubCACertFile = hubCAMountPath @ ''/'' @ HubCAKey"

section \<open>Helpers\<close>

abbreviation envVar :: "string \<Rightarrow> string \<Rightarrow> EnvVar" where
  "envVar name v \<equiv> \<lparr>env_Name = name, env_Value = v\<rparr>"

definition workspaceMount :: VolumeMount where
  "workspaceMount = \<lparr>vm_Name = ''workspace'', vm_MountPath = workspaceMountPath, vm_ReadOnly = False\<rparr>"

fun joinComma :: "string list \<Rightarrow> string" where
  "joinComma [] = ''''"
| "joinComma [s] = s"
| "joinComma (s # ss) = s @ '','' @ joinComma ss"

fun paramsToEnv :: "Param list \<Rightarrow> EnvVar list" where
  "paramsToEnv [] = []"
| "paramsToEnv (p # ps) =
     (if param_Name p = '''' \<or> \<not> envNameRe (param_Name p) \<or> param_Name p \<in> set reservedEnv
      then paramsToEnv ps
      else envVar (param_Name p) (param_Value p) # paramsToEnv ps)"

definition applyPrivileged :: "Container \<Rightarrow> bool \<Rightarrow> Container" where
  "applyPrivileged c privileged = (if \<not> privileged then c else c\<lparr>con_Privileged := Some True\<rparr>)"

subsection \<open>Release names\<close>

text \<open>
  Ranging over a Go string decodes UTF-8: \<open>runeWidth\<close> is the number of bytes of the first rune, 1 for
  an ASCII byte and for a byte that is no valid encoding.
\<close>

definition byte_in :: "nat \<Rightarrow> nat \<Rightarrow> string \<Rightarrow> nat \<Rightarrow> bool" where
  "byte_in lo hi s i \<longleftrightarrow> i < length s \<and> lo \<le> of_char (s ! i) \<and> of_char (s ! i) \<le> hi"

definition runeWidth :: "string \<Rightarrow> nat" where
  "runeWidth s =
     (if byte_in 0xC2 0xDF s 0 \<and> byte_in 0x80 0xBF s 1 then 2
      else if (byte_in 0xE0 0xE0 s 0 \<and> byte_in 0xA0 0xBF s 1 \<or> byte_in 0xE1 0xEC s 0 \<and> byte_in 0x80 0xBF s 1 \<or>
               byte_in 0xED 0xED s 0 \<and> byte_in 0x80 0x9F s 1 \<or> byte_in 0xEE 0xEF s 0 \<and> byte_in 0x80 0xBF s 1) \<and>
              byte_in 0x80 0xBF s 2 then 3
      else if (byte_in 0xF0 0xF0 s 0 \<and> byte_in 0x90 0xBF s 1 \<or> byte_in 0xF1 0xF3 s 0 \<and> byte_in 0x80 0xBF s 1 \<or>
               byte_in 0xF4 0xF4 s 0 \<and> byte_in 0x80 0x8F s 1) \<and>
              byte_in 0x80 0xBF s 2 \<and> byte_in 0x80 0xBF s 3 then 4
      else 1)"

lemma runeWidth_pos: "0 < runeWidth s"
  by (simp add: runeWidth_def)

definition releaseChar :: "char \<Rightarrow> char" where
  "releaseChar c =
     (if is_lower c \<or> is_number c then c
      else if is_upper c then char_of (of_char c + 32 :: nat)
      else CHR ''-'')"

function releaseChars :: "string \<Rightarrow> string" where
  "releaseChars [] = []"
| "releaseChars (c # cs) = releaseChar c # releaseChars (drop (runeWidth (c # cs)) (c # cs))"
  by pat_completeness auto
termination
  by (relation "measure length") (use runeWidth_pos in auto)

text \<open>Stripping the trailing \<open>-\<close> and \<open>.\<close> bytes.\<close>

definition stripTrailing :: "string \<Rightarrow> string" where
  "stripTrailing s = rev (dropWhile (\<lambda>c. c = CHR ''-'' \<or> c = CHR ''.'') (rev s))"

definition sanitizeReleaseName :: "string \<Rightarrow> string" where
  "sanitizeReleaseName name =
     (let s = releaseChars name in
      if s = '''' then ''release'' else stripTrailing (if length s > 53 then take 53 s else s))"

section \<open>Containers\<close>

definition checkoutContainer :: "JobBuilder \<Rightarrow> RepoSource \<Rightarrow> Container" where
  "checkoutContainer b repo = container0
     \<lparr>con_Name := ''checkout'',
      con_Image := jb_GitImage b,
      con_Command := [''sh'', ''-c'',
        ''git clone '' @ [CHR 0x22] @ ''$REPO_URL'' @ [CHR 0x22] @ '' '' @ [CHR 0x22] @ ''$WORKSPACE'' @ [CHR 0x22] @
        '' && cd '' @ [CHR 0x22] @ ''$WORKSPACE'' @ [CHR 0x22] @ '' && git checkout '' @ [CHR 0x22] @ ''$REPO_REF'' @ [CHR 0x22]],
      con_Env := [envVar ''REPO_URL'' (repo_URL repo), envVar ''REPO_REF'' (repo_Ref repo),
                  envVar ''WORKSPACE'' workspaceMountPath],
      con_EnvFromSecrets := (if repo_SecretRef repo \<noteq> '''' then [repo_SecretRef repo] else []),
      con_VolumeMounts := [workspaceMount]\<rparr>"

definition consumeFetchScript :: string where
  \<open>consumeFetchScript = concat (map (\<lambda>l. l @ [CHR 0x0A])
     [''set -e'',
      ''mkdir -p "$SDP_ARTIFACT_DIR"'',
      ''OLDIFS="$IFS"; IFS='' @ [CHR 0x27] @ '','' @ [CHR 0x27],
      ''for key in $ARTIFACT_KEYS; do'',
      ''  IFS="$OLDIFS"'',
      ''  [ -n "$key" ] || continue'',
      ''  if [ -n "$SDP_HUB_TOKEN" ]; then'',
      ''    RESP=$(curl -sf -X POST "$SDP_HUB_BASE_URL/api/v1/artifacts/storage-url" '' @ [CHR 0x5C],
      ''      -H "Content-Type: application/json" '' @ [CHR 0x5C],
      ''      -H "Authorization: Bearer $SDP_HUB_TOKEN" '' @ [CHR 0x5C],
      ''      -d "{'' @ [CHR 0x5C] @ ''"key'' @ [CHR 0x5C] @ ''":'' @ [CHR 0x5C] @ ''"$key'' @ [CHR 0x5C] @ ''"}")'',
      ''  else'',
      ''    RESP=$(curl -sf -X POST "$SDP_HUB_BASE_URL/api/v1/artifacts/storage-url" '' @ [CHR 0x5C],
      ''      -H "Content-Type: application/json" '' @ [CHR 0x5C],
      ''      -d "{'' @ [CHR 0x5C] @ ''"key'' @ [CHR 0x5C] @ ''":'' @ [CHR 0x5C] @ ''"$key'' @ [CHR 0x5C] @ ''"}")'',
      ''  fi'',
      ''  [ -n "$RESP" ] || { echo "storage-url request failed for $key" >&2; exit 1; }'',
      ''  URL=$(printf '' @ [CHR 0x27] @ ''%s'' @ [CHR 0x27] @ '' "$RESP" | sed -n '' @ [CHR 0x27] @ ''s/.*"url":"'' @ [CHR 0x5C] @ ''([^"]*'' @ [CHR 0x5C] @ '')".*/'' @ [CHR 0x5C] @ ''1/p'' @ [CHR 0x27] @ '')'',
      ''  [ -n "$URL" ] || { echo "no url in response for $key: $RESP" >&2; exit 1; }'',
      ''  OUT="$SDP_ARTIFACT_DIR/$(basename "$key")"'',
      ''  curl -fsSL -o "$OUT" "$URL" || { echo "download failed for $key" >&2; exit 1; }'',
      ''  echo "fetched $key -> $OUT ($(wc -c < "$OUT") bytes)"'',
      ''done''])\<close>

definition consumeContainer :: "JobBuilder \<Rightarrow> string list \<Rightarrow> Param list \<Rightarrow> Container" where
  "consumeContainer b consumes params = container0
     \<lparr>con_Name := ''fetch-artifacts'',
      con_Image := jb_ArtifactImage b,
      con_Command := [''sh'', ''-c'', consumeFetchScript],
      con_Env := [envVar ''ARTIFACT_KEYS'' (joinComma consumes), envVar ''SDP_ARTIFACT_DIR'' workspaceMountPath,
                  envVar ''SDP_HUB_BASE_URL'' (jb_HubBaseURL b)] @
        (if jb_HubAPIToken b \<noteq> '''' then [envVar ''SDP_HUB_TOKEN'' (jb_HubAPIToken b)] else []) @
        paramsToEnv params @
        [envVar ''AUTH_HEADER''
           (if jb_HubAPIToken b \<noteq> ''''
            then ''-H '' @ [CHR 0x22] @ ''Authorization: Bearer $SDP_HUB_TOKEN'' @ [CHR 0x22] else '''')],
      con_VolumeMounts := [workspaceMount]\<rparr>"

definition mainContainer :: "JobBuilder \<Rightarrow> TaskRun \<Rightarrow> Container" where
  "mainContainer b tr =
     (let spec = tr_Spec tr;
          command = (if trs_ScriptPath spec \<noteq> '''' then [''sh'', trs_ScriptPath spec] else trs_Command spec);
          args = (if trs_ScriptPath spec \<noteq> '''' then trs_ScriptArgs spec else trs_Args spec) in
      applyPrivileged (container0
        \<lparr>con_Name := ''main'',
         con_Image := trs_Image spec,
         con_Command := command,
         con_Args := args,
         con_Env := [envVar ''SDP_PIPELINE_RUN'' (trs_PipelineRunRef spec), envVar ''SDP_TASK_NAME'' (trs_TaskName spec),
                     envVar ''SDP_ARTIFACT_DIR'' workspaceMountPath, envVar ''SDP_HUB_BASE_URL'' (jb_HubBaseURL b)] @
           trs_Env spec @ paramsToEnv (trs_Params spec),
         con_Resources := trs_Resources spec,
         con_WorkingDir := workspaceMountPath,
         con_VolumeMounts := [workspaceMount]\<rparr>) (trs_Privileged spec))"

definition helmCommand ::
  "((string \<times> string) list \<Rightarrow> (string \<times> string) list) \<Rightarrow> ReleaseSpec \<Rightarrow> string \<Rightarrow> string \<Rightarrow> string list" where
  "helmCommand ord spec releaseName ns =
     (let chart = (case rel_Chart spec of None \<Rightarrow> '''' | Some ch \<Rightarrow> chart_Name ch) in
      [''helm'', ''upgrade'', ''--install'', releaseName, chart] @
      (case rel_Chart spec of
         None \<Rightarrow> []
       | Some ch \<Rightarrow>
           (if chart_RepoURL ch \<noteq> '''' then [''--repo'', chart_RepoURL ch] else []) @
           (if chart_Version ch \<noteq> '''' then [''--version'', chart_Version ch] else [])) @
      (if ns \<noteq> '''' then [''--namespace'', ns] else []) @
      concat (map (\<lambda>(k, v). [''--set'', k @ ''='' @ v]) (ord (rel_Values spec))))"

definition releaseContainer ::
  "((string \<times> string) list \<Rightarrow> (string \<times> string) list) \<Rightarrow> JobBuilder \<Rightarrow> TaskRun \<Rightarrow> Container" where
  "releaseContainer ord b tr =
     (case trs_ReleaseSpec (tr_Spec tr) of
        None \<Rightarrow> container0
          \<lparr>con_Name := ''release'', con_Image := jb_HelmImage b,
           con_Command := [''sh'', ''-c'', ''echo '' @ [CHR 0x27] @ ''release task missing ReleaseSpec'' @ [CHR 0x27] @ '' >&2; exit 1''],
           con_WorkingDir := workspaceMountPath, con_VolumeMounts := [workspaceMount]\<rparr>
      | Some spec \<Rightarrow>
          (let ns = (if rel_TargetNamespace spec = '''' then trs_Namespace (tr_Spec tr) else rel_TargetNamespace spec);
               releaseName = sanitizeReleaseName (trs_TaskName (tr_Spec tr)) in
           case rel_Source spec of
             ReleaseSourceManifest \<Rightarrow>
               (let content = (case rel_Manifest spec of None \<Rightarrow> '''' | Some m \<Rightarrow> manifest_Content m) in
                applyPrivileged (container0
                  \<lparr>con_Name := ''release'',
                   con_Image := firstNonEmpty [trs_Image (tr_Spec tr), jb_KubectlImage b],
                   con_Command := [''sh'', ''-c'', ''printf '' @ [CHR 0x27] @ ''%s'' @ [CHR 0x27] @ '' '' @ [CHR 0x22] @ ''$SDP_MANIFEST'' @ [CHR 0x22] @
                     '' | kubectl apply -f - --namespace '' @ [CHR 0x22] @ ''$SDP_RELEASE_NS'' @ [CHR 0x22]],
                   con_Env := [envVar ''SDP_MANIFEST'' content, envVar ''SDP_RELEASE_NS'' ns] @
                     paramsToEnv (trs_Params (tr_Spec tr)),
                   con_WorkingDir := workspaceMountPath,
                   con_VolumeMounts := [workspaceMount]\<rparr>) (trs_Privileged (tr_Spec tr)))
           | _ \<Rightarrow>
               applyPrivileged (container0
                 \<lparr>con_Name := ''release'',
                  con_Image := firstNonEmpty [trs_Image (tr_Spec tr), jb_HelmImage b],
                  con_Command := helmCommand ord spec releaseName ns,
                  con_WorkingDir := workspaceMountPath,
                  con_VolumeMounts := [workspaceMount]\<rparr>) (trs_Privileged (tr_Spec tr))))"

section \<open>Build\<close>

definition caMount :: VolumeMount where
  "caMount = \<lparr>vm_Name = hubCAVolumeName, vm_MountPath = hubCAMountPath, vm_ReadOnly = True\<rparr>"

definition withCA :: "Container \<Rightarrow> Container" where
  "withCA c = c\<lparr>con_VolumeMounts := con_VolumeMounts c @ [caMount],
     con_Env := con_Env c @ [envVar ''SSL_CERT_FILE'' hubCACertFile]\<rparr>"

definition initContainers :: "JobBuilder \<Rightarrow> TaskRun \<Rightarrow> Container list" where
  "initContainers b tr =
     (case trs_Repo (tr_Spec tr) of None \<Rightarrow> [] | Some repo \<Rightarrow> [checkoutContainer b repo]) @
     (if trs_Consumes (tr_Spec tr) \<noteq> []
      then [consumeContainer b (trs_Consumes (tr_Spec tr)) (trs_Params (tr_Spec tr))] else [])"

definition taskContainer ::
  "((string \<times> string) list \<Rightarrow> (string \<times> string) list) \<Rightarrow> JobBuilder \<Rightarrow> TaskRun \<Rightarrow> Container" where
  "taskContainer ord b tr =
     (if trs_Type (tr_Spec tr) = TaskTypeRelease \<and> trs_RolloutSpec (tr_Spec tr) = None
      then releaseContainer ord b tr else mainContainer b tr)"

definition Build ::
  "((string \<times> string) list \<Rightarrow> (string \<times> string) list) \<Rightarrow> JobBuilder \<Rightarrow> TaskRun \<Rightarrow> Job" where
  "Build ord b tr =
     (let inits = initContainers b tr;
          main = taskContainer ord b tr;
          ca = (jb_HubCABundle b \<noteq> '''');
          caVolumes = (if ca then [\<lparr>vol_Name = hubCAVolumeName,
            vol_Source = ConfigMapVolume HubCAConfigMapName [(HubCAKey, HubCAKey)]\<rparr>] else []);
          inits = (if ca then map (\<lambda>c. if con_Name c = ''fetch-artifacts'' then withCA c else c) inits else inits);
          main = (if ca then withCA main else main) in
      \<lparr>job_Meta = meta0
         \<lparr>om_Name := ''taskrun-'' @ om_Name (tr_Meta tr),
          om_Namespace := trs_Namespace (tr_Spec tr),
          om_Labels := [''sdp.io/pipeline-run'' \<mapsto> trs_PipelineRunRef (tr_Spec tr),
                        ''sdp.io/task-run'' \<mapsto> om_Name (tr_Meta tr)]\<rparr>,
       job_BackoffLimit = Some 0,
       job_TTLSecondsAfterFinished = None,
       job_ActiveDeadlineSeconds =
         (if trs_TimeoutSeconds (tr_Spec tr) > 0 then Some (trs_TimeoutSeconds (tr_Spec tr)) else None),
       job_Pod = \<lparr>ps_RestartPolicy = ''Never'',
         ps_ServiceAccountName = trs_ServiceAccountName (tr_Spec tr),
         ps_InitContainers = inits,
         ps_Containers = [main],
         ps_Volumes = \<lparr>vol_Name = ''workspace'', vol_Source = EmptyDirVolume\<rparr> # caVolumes\<rparr>,
       job_Succeeded = 0, job_Failed = 0, job_Conditions = []\<rparr>)"

section \<open>What the task-run controller relies on\<close>

text \<open>
  The contract of a builder: the Job is in the namespace the task run asks for and under a name of its own, is not retried by
  Kubernetes, has the deadline of the task and starts out unfinished. So a retry asks for the same key, and the
  Jobs of two task runs are told apart by their keys.
\<close>

locale job_builder =
  fixes build :: "TaskRun \<Rightarrow> Job"
  assumes build_namespace: "om_Namespace (job_Meta (build tr)) = trs_Namespace (tr_Spec tr)"
    and build_name: "om_Name (job_Meta (build tr)) = ''taskrun-'' @ om_Name (tr_Meta tr)"
    and build_backoff: "job_BackoffLimit (build tr) = Some 0"
    and build_deadline: "0 < trs_TimeoutSeconds (tr_Spec tr) \<Longrightarrow> job_ActiveDeadlineSeconds (build tr) = Some (trs_TimeoutSeconds (tr_Spec tr))"
    and build_fresh: "job_Succeeded (build tr) = 0" "job_Failed (build tr) = 0"
begin

lemma build_key: "meta_key (job_Meta (build tr)) = okey (trs_Namespace (tr_Spec tr)) (''taskrun-'' @ om_Name (tr_Meta tr))"
  by (simp add: meta_key_def build_namespace build_name)

lemma build_key_eq:
  "meta_key (job_Meta (build tr)) = meta_key (job_Meta (build tr')) \<longleftrightarrow>
   om_Name (tr_Meta tr) = om_Name (tr_Meta tr') \<and> trs_Namespace (tr_Spec tr) = trs_Namespace (tr_Spec tr')"
  by (auto simp: build_key)

lemma build_retry_key:
  "tr_Meta tr' = tr_Meta tr \<Longrightarrow> tr_Spec tr' = tr_Spec tr \<Longrightarrow> meta_key (job_Meta (build tr')) = meta_key (job_Meta (build tr))"
  by (simp add: build_key)

lemma build_unowned:
  "\<forall>ob. om_Namespace ob = trs_Namespace (tr_Spec tr) \<longrightarrow> (\<exists>err. own ob = Inl err) \<Longrightarrow> \<exists>err. own (job_Meta (build tr)) = Inl err"
  using build_namespace by blast

end

interpretation builder: job_builder "Build ord b" for ord b
  by unfold_locales (simp_all add: Build_def Let_def)

section \<open>Release names\<close>

lemma is_char_tests:
  "is_lower c \<longleftrightarrow> of_char c \<in> {97..122::nat}" "is_upper c \<longleftrightarrow> of_char c \<in> {65..90::nat}"
  "is_number c \<longleftrightarrow> of_char c \<in> {48..57::nat}"
  by (auto simp: is_lower_def is_upper_def is_number_def less_eq_char_def)

definition helm_char :: "char \<Rightarrow> bool" where
  "helm_char c \<longleftrightarrow> is_lower c \<or> is_number c"

text \<open>What Helm accepts as a release name: \<open>[a-z0-9]([-a-z0-9]*[a-z0-9])?\<close>, at most 53 bytes.\<close>

definition helm_name :: "string \<Rightarrow> bool" where
  "helm_name r \<longleftrightarrow> r \<noteq> [] \<and> length r \<le> 53 \<and> list_all (\<lambda>c. helm_char c \<or> c = CHR ''-'') r \<and>
     helm_char (hd r) \<and> helm_char (last r)"

lemma not_helm_dash [simp]: "\<not> helm_char CHR ''-''" "\<not> helm_char CHR ''.''"
  by (simp_all add: helm_char_def is_char_tests)

lemma releaseChar_cases: "helm_char (releaseChar c) \<or> releaseChar c = CHR ''-''"
  by (auto simp: releaseChar_def helm_char_def is_char_tests)

lemma releaseChar_helm: "helm_char (releaseChar c) \<longleftrightarrow> is_lower c \<or> is_upper c \<or> is_number c"
  by (auto simp: releaseChar_def helm_char_def is_char_tests)

lemma releaseChars_set: "c \<in> set (releaseChars s) \<Longrightarrow> helm_char c \<or> c = CHR ''-''"
  by (induction s rule: releaseChars.induct) (use releaseChar_cases in auto)

lemma stripTrailing_prefix: "\<exists>t. s = stripTrailing s @ t \<and> (\<forall>c\<in>set t. c = CHR ''-'' \<or> c = CHR ''.'')"
proof -
  let ?P = "\<lambda>c. c = CHR ''-'' \<or> c = CHR ''.''"
  have "s = rev (takeWhile ?P (rev s) @ dropWhile ?P (rev s))" by simp
  then have "s = stripTrailing s @ rev (takeWhile ?P (rev s))"
    by (simp only: stripTrailing_def rev_append)
  then show ?thesis by (intro exI [of _ "rev (takeWhile ?P (rev s))"]) (auto dest: set_takeWhileD)
qed

lemma stripTrailing_last: "stripTrailing s \<noteq> [] \<Longrightarrow> last (stripTrailing s) \<noteq> CHR ''-'' \<and> last (stripTrailing s) \<noteq> CHR ''.''"
  using hd_dropWhile [of "\<lambda>c. c = CHR ''-'' \<or> c = CHR ''.''" "rev s"] by (auto simp: stripTrailing_def last_rev)

text \<open>Names that start with an ASCII letter or digit stay recognisable and valid; no other name does.\<close>

lemma sanitize_shape:
  "length (sanitizeReleaseName name) \<le> 53 \<and>
   list_all (\<lambda>c. helm_char c \<or> c = CHR ''-'') (sanitizeReleaseName name) \<and>
   (sanitizeReleaseName name \<noteq> [] \<longrightarrow> helm_char (last (sanitizeReleaseName name)))"
proof (cases name)
  case Nil
  then show ?thesis by (simp add: sanitizeReleaseName_def helm_char_def is_char_tests)
next
  case (Cons c cs)
  let ?s = "take 53 (releaseChars name)"
  have s: "sanitizeReleaseName name = stripTrailing ?s"
    using Cons by (simp add: sanitizeReleaseName_def Let_def)
  obtain t where t: "?s = stripTrailing ?s @ t" using stripTrailing_prefix by blast
  have chars: "helm_char d \<or> d = CHR ''-''" if "d \<in> set (stripTrailing ?s)" for d
  proof -
    have "d \<in> set ?s" using that by (subst t) simp
    then show ?thesis using releaseChars_set by (auto dest: in_set_takeD)
  qed
  have "length (stripTrailing ?s) \<le> length ?s" by (subst (2) t) simp
  then have "length (stripTrailing ?s) \<le> 53" by simp
  moreover have "helm_char (last (stripTrailing ?s))" if "stripTrailing ?s \<noteq> []"
    using chars [OF last_in_set [OF that]] stripTrailing_last [OF that] by blast
  ultimately show ?thesis using chars by (simp add: s list_all_iff)
qed

lemma sanitize_head:
  assumes "name = c # cs"
  shows "if helm_char (releaseChar c) then sanitizeReleaseName name \<noteq> [] \<and> hd (sanitizeReleaseName name) = releaseChar c
    else sanitizeReleaseName name = [] \<or> hd (sanitizeReleaseName name) = CHR ''-''"
proof -
  let ?s = "take 53 (releaseChars name)"
  have s: "sanitizeReleaseName name = stripTrailing ?s"
    using assms by (simp add: sanitizeReleaseName_def Let_def)
  obtain t where t: "?s = stripTrailing ?s @ t" "\<forall>c\<in>set t. c = CHR ''-'' \<or> c = CHR ''.''"
    using stripTrailing_prefix by blast
  obtain r where r: "?s = releaseChar c # r" using assms by simp
  show ?thesis
  proof (cases "stripTrailing ?s")
    case Nil
    with t(1) r have "t = releaseChar c # r" by simp
    with t(2) have "releaseChar c = CHR ''-'' \<or> releaseChar c = CHR ''.''" by simp
    then have "\<not> helm_char (releaseChar c)" by (elim disjE) simp_all
    with Nil show ?thesis by (simp add: s)
  next
    case (Cons d ds)
    with t(1) r have "d = releaseChar c" by simp
    then have "hd (sanitizeReleaseName name) = releaseChar c" "sanitizeReleaseName name \<noteq> []"
      using Cons s by simp_all
    then show ?thesis using releaseChar_cases [of c] by presburger
  qed
qed

section \<open>The shape of a job\<close>

definition job_containers :: "Job \<Rightarrow> Container list" where
  "job_containers job = ps_InitContainers (job_Pod job) @ ps_Containers (job_Pod job)"

text \<open>The value a container sees of a variable: Kubernetes takes the last entry of a name.\<close>

definition env_value :: "EnvVar list \<Rightarrow> string \<Rightarrow> string option" where
  "env_value env name = map_of (rev (map (\<lambda>e. (env_Name e, env_Value e)) env)) name"

definition param_value :: "Param list \<Rightarrow> string \<Rightarrow> string option" where
  "param_value params name = map_of (rev (map (\<lambda>p. (param_Name p, param_Value p)) params)) name"

lemma env_value_append: "env_value (xs @ ys) name = (case env_value ys name of None \<Rightarrow> env_value xs name | Some v \<Rightarrow> Some v)"
  by (simp add: env_value_def map_add_def split: option.splits)

lemma env_value_simps [simp]:
  "env_value [] name = None"
  "env_value (e # es) name = (case env_value es name of None \<Rightarrow> if env_Name e = name then Some (env_Value e) else None | Some v \<Rightarrow> Some v)"
  by (simp_all add: env_value_def map_add_def split: option.splits)

lemma param_value_simps [simp]:
  "param_value [] name = None"
  "param_value (p # ps) name = (case param_value ps name of None \<Rightarrow> if param_Name p = name then Some (param_Value p) else None | Some v \<Rightarrow> Some v)"
  by (simp_all add: param_value_def map_add_def split: option.splits)

definition injectable :: "string \<Rightarrow> bool" where
  "injectable name \<longleftrightarrow> envNameRe name \<and> name \<notin> set reservedEnv"

lemma paramsToEnv_value: "env_value (paramsToEnv params) name = (if injectable name then param_value params name else None)"
  by (induction params) (auto simp: injectable_def split: option.splits)

lemma paramsToEnv_names: "e \<in> set (paramsToEnv params) \<Longrightarrow> injectable (env_Name e) \<and> (\<exists>p\<in>set params. param_Name p = env_Name e \<and> param_Value p = env_Value e)"
  by (induction params) (auto simp: injectable_def split: if_splits)

lemma container_views [simp]:
  "con_Privileged (checkoutContainer b repo) = None" "con_VolumeMounts (checkoutContainer b repo) = [workspaceMount]"
  "con_Name (checkoutContainer b repo) = ''checkout''"
  "con_Privileged (consumeContainer b cs ps) = None" "con_VolumeMounts (consumeContainer b cs ps) = [workspaceMount]"
  "con_Name (consumeContainer b cs ps) = ''fetch-artifacts''"
  "con_Privileged (withCA c) = con_Privileged c" "con_VolumeMounts (withCA c) = con_VolumeMounts c @ [caMount]"
  "con_Name (withCA c) = con_Name c" "con_Image (withCA c) = con_Image c"
  by (simp_all add: checkoutContainer_def consumeContainer_def withCA_def container0_def)

lemma taskContainer_views:
  "con_VolumeMounts (taskContainer ord b tr) = [workspaceMount]"
  "con_Privileged (taskContainer ord b tr) = Some True \<Longrightarrow> trs_Privileged (tr_Spec tr)"
  "con_Name (taskContainer ord b tr) \<in> {''main'', ''release''}"
  by (auto simp: taskContainer_def releaseContainer_def mainContainer_def applyPrivileged_def container0_def Let_def
      split: option.splits ReleaseSourceType.splits if_splits)

end
