(* ===== verification/TaskRun_Controller.thy ===== *)
theory TaskRun_Controller
  imports Job_Builder
begin

text \<open>
  \<open>src/internal/controller/taskrun_controller.go\<close> and \<open>hub_ca.go\<close>: the reconciler that runs a task
  run as a Job, retries it, mirrors a canary release's Rollout, and leaves approvals to the hub. The
  log streamer it starts is a goroutine of its own: here its start is the event \<open>StreamLogsFor\<close>, guarded by the
  set of streams in flight, which is the state \<open>streaming\<close> of the reconciler; what the goroutine then
  ships is the theory \<open>Logstream\<close>.
\<close>

section \<open>Configuration\<close>

record TaskRunReconciler =
  trr_JobBuilder :: JobBuilder
  trr_Conn :: bool
  trr_Clientset :: bool
  trr_LogStreamingEnabled :: bool
  trr_TargetName :: string
  trr_streaming :: "string list"

section \<open>The hub CA\<close>

text \<open>\<open>None\<close> is success.\<close>

definition ensureHubCAMap :: "'c kclient \<Rightarrow> TaskRunReconciler \<Rightarrow> string \<Rightarrow> ('c, go_error option) kio" where
  "ensureHubCAMap k r ns =
     (let bundle = jb_HubCABundle (trr_JobBuilder r) in
      if bundle = '''' then ret None
      else do {
        let want = \<lparr>cm_Meta = meta0\<lparr>om_Name := HubCAConfigMapName, om_Namespace := ns\<rparr>,
                    cm_Data = [HubCAKey \<mapsto> bundle]\<rparr>;
        res \<leftarrow> getCM k (okey ns HubCAConfigMapName);
        case res of
          Inl err \<Rightarrow>
            if err = NotFound then do { res \<leftarrow> createCM k want; ret (errOf res) }
            else ret (Some err)
        | Inr got \<Rightarrow>
            if map_get (cm_Data got) HubCAKey = bundle then ret None
            else do { res \<leftarrow> updateCM k (got\<lparr>cm_Data := cm_Data want\<rparr>); ret (errOf res) }
      })"

section \<open>Log streaming\<close>

text \<open>\<open>LoadOrStore\<close> of the in-flight set: the streamer is started once per Job.\<close>

definition streamKey :: "TaskRun \<Rightarrow> string" where
  "streamKey tr = trs_PipelineRunRef (tr_Spec tr) @ ''/'' @ tst_JobRef (tr_Status tr)"

definition maybeStreamLogs :: "TaskRunReconciler \<Rightarrow> TaskRun \<Rightarrow> ('c, unit) kio" where
  "maybeStreamLogs r tr =
     (if \<not> trr_Conn r \<or> \<not> trr_Clientset r \<or> \<not> trr_LogStreamingEnabled r then ret ()
      else if tst_JobRef (tr_Status tr) = '''' then ret ()
      else if streamKey tr \<in> set (trr_streaming r) then ret ()
      else emit (StreamLogsFor (streamKey tr)))"

section \<open>Reconcile\<close>

definition updateTR :: "'c kclient \<Rightarrow> TaskRun \<Rightarrow> ('c, reconcile_result) kio" where
  "updateTR k tr = do { res \<leftarrow> statusTR k tr; ret (0, errOf res) }"

text \<open>Approval tasks: the status that waits for the hub.\<close>

definition approvalStatus :: "gotime \<Rightarrow> TaskRun \<Rightarrow> TaskRun" where
  "approvalStatus now tr =
     (let st = tr_Status tr;
          st = (if tst_Phase st = TaskRunUnset then st\<lparr>tst_Phase := TaskRunPending\<rparr> else st);
          required = (case trs_ApprovalConfig (tr_Spec tr) of None \<Rightarrow> 1 | Some cfg \<Rightarrow> ac_RequiredApprovals cfg);
          st = (if tst_Approval st = None
                then st\<lparr>tst_Approval := Some \<lparr>as_TaskName = trs_TaskName (tr_Spec tr), as_RequestedAt = now,
                          as_RequiredCount = required, as_ApprovedBy = [], as_RejectedBy = ''''\<rparr>\<rparr>
                else st) in
      tr\<lparr>tr_Status := st\<rparr>)"

lemma approvalStatus_phase:
  "tst_Phase (tr_Status (approvalStatus now tr)) =
     (if tst_Phase (tr_Status tr) = TaskRunUnset then TaskRunPending else tst_Phase (tr_Status tr))"
  by (simp add: approvalStatus_def Let_def)

definition reconcileApproval :: "'c kclient \<Rightarrow> gotime \<Rightarrow> TaskRun \<Rightarrow> ('c, reconcile_result) kio" where
  "reconcileApproval k now tr =
     (let tr = approvalStatus now tr in
      if tst_Phase (tr_Status tr) = TaskRunPending then updateTR k tr else ret (0, None))"

text \<open>Canary releases: the Rollout and the mirror of its phase.\<close>

definition taskRollout :: "TaskRun \<Rightarrow> RolloutSpec \<Rightarrow> Rollout" where
  "taskRollout tr spec =
     \<lparr>ro_Meta = meta0
        \<lparr>om_Name := om_Name (tr_Meta tr), om_Namespace := trs_Namespace (tr_Spec tr),
         om_Labels := [''sdp.io/pipeline-run'' \<mapsto> trs_PipelineRunRef (tr_Spec tr),
                       ''sdp.io/task-run'' \<mapsto> om_Name (tr_Meta tr)]\<rparr>,
      ro_Spec = spec, ro_Status = rollout_status0\<rparr>"

definition mirrorRollout :: "gotime \<Rightarrow> RolloutStatus \<Rightarrow> TaskRunStatus \<Rightarrow> TaskRunStatus" where
  "mirrorRollout now ro st =
     (case rst_Phase ro of
        RolloutHealthy \<Rightarrow> st\<lparr>tst_Phase := TaskRunSucceeded, tst_CompletionTime := Some now\<rparr>
      | RolloutDegraded \<Rightarrow> st\<lparr>tst_Phase := TaskRunFailed, tst_Message := rst_Message ro, tst_CompletionTime := Some now\<rparr>
      | RolloutRollingBack \<Rightarrow> st\<lparr>tst_Phase := TaskRunFailed, tst_Message := rst_Message ro, tst_CompletionTime := Some now\<rparr>
      | RolloutFailed \<Rightarrow> st\<lparr>tst_Phase := TaskRunFailed, tst_Message := rst_Message ro, tst_CompletionTime := Some now\<rparr>
      | RolloutRolledBack \<Rightarrow> st\<lparr>tst_Phase := TaskRunFailed, tst_Message := rst_Message ro, tst_CompletionTime := Some now\<rparr>
      | _ \<Rightarrow> st\<lparr>tst_Phase := TaskRunRunning\<rparr>)"

definition reconcileDeploy :: "'c kclient \<Rightarrow> gotime \<Rightarrow> TaskRun \<Rightarrow> ('c, reconcile_result) kio" where
  "reconcileDeploy k now tr =
     (case trs_RolloutSpec (tr_Spec tr) of
        None \<Rightarrow> updateTR k (tr\<lparr>tr_Status := (tr_Status tr)
          \<lparr>tst_Phase := TaskRunFailed, tst_Message := ''deploy task has no rolloutSpec''\<rparr>\<rparr>)
      | Some spec \<Rightarrow>
          if tst_RolloutRef (tr_Status tr) = '''' then
            (let ro = taskRollout tr spec in
             case setControllerReference k ''TaskRun'' (tr_Meta tr) (ro_Meta ro) of
               Inl err \<Rightarrow> ret (0, Some err)
             | Inr m \<Rightarrow> do {
                 res \<leftarrow> createRO k (ro\<lparr>ro_Meta := m\<rparr>);
                 case errUnless AlreadyExists res of
                   Some err \<Rightarrow> ret (0, Some err)
                 | None \<Rightarrow>
                     (let name = (case res of Inl _ \<Rightarrow> om_Name m | Inr o1 \<Rightarrow> om_Name (ro_Meta o1)) in
                      updateTR k (tr\<lparr>tr_Status := (tr_Status tr)\<lparr>tst_Phase := TaskRunRunning,
                        tst_RolloutRef := name, tst_StartTime := Some now\<rparr>\<rparr>))
               })
          else do {
            got \<leftarrow> getRO k (okey (trs_Namespace (tr_Spec tr)) (tst_RolloutRef (tr_Status tr)));
            case got of
              Inl err \<Rightarrow> ret (0, ignoreNotFound err)
            | Inr ro \<Rightarrow> updateTR k (tr\<lparr>tr_Status := mirrorRollout now (ro_Status ro) (tr_Status tr)\<rparr>)
          })"

text \<open>The creation of the Job.\<close>

definition startJob ::
  "'c kclient \<Rightarrow> TaskRunReconciler \<Rightarrow> ((string \<times> string) list \<Rightarrow> (string \<times> string) list) \<Rightarrow> gotime \<Rightarrow> TaskRun \<Rightarrow>
   ('c, reconcile_result) kio" where
  "startJob k r ord now tr =
     (let job = Build ord (trr_JobBuilder r) tr in
      case setControllerReference k ''TaskRun'' (tr_Meta tr) (job_Meta job) of
        Inl err \<Rightarrow> ret (0, Some err)
      | Inr m \<Rightarrow> do {
          e \<leftarrow> ensureHubCAMap k r (om_Namespace m);
          case e of
            Some err \<Rightarrow> ret (0, Some err)
          | None \<Rightarrow> do {
              res \<leftarrow> createJob k (job\<lparr>job_Meta := m\<rparr>);
              case errUnless AlreadyExists res of
                Some err \<Rightarrow> ret (0, Some err)
              | None \<Rightarrow> do {
                  let name = (case res of Inl _ \<Rightarrow> om_Name m | Inr j \<Rightarrow> om_Name (job_Meta j));
                  let tr = tr\<lparr>tr_Status := (tr_Status tr)\<lparr>tst_Phase := TaskRunRunning, tst_JobRef := name,
                    tst_StartTime := Some now\<rparr>\<rparr>;
                  maybeStreamLogs r tr;
                  updateTR k tr
                }
            }
        })"

text \<open>The retry: the backoff is only reached with a policy, since the retry count is not negative.\<close>

definition maxRetries :: "TaskRunSpec \<Rightarrow> int" where
  "maxRetries spec = (case trs_RetryPolicy spec of None \<Rightarrow> 0 | Some p \<Rightarrow> rp_MaxRetries p)"

definition finishedTR :: "gotime \<Rightarrow> TaskRunPhase \<Rightarrow> TaskRun \<Rightarrow> TaskRun" where
  "finishedTR now phase tr = tr\<lparr>tr_Status := (tr_Status tr)\<lparr>tst_Phase := phase, tst_CompletionTime := Some now\<rparr>\<rparr>"

definition failJob :: "'c kclient \<Rightarrow> gotime \<Rightarrow> TaskRun \<Rightarrow> Job \<Rightarrow> ('c, reconcile_result) kio" where
  "failJob k now tr job =
     (if tst_RetryCount (tr_Status tr) < maxRetries (tr_Spec tr) then do {
        res \<leftarrow> deleteJob k (meta_key (job_Meta job));
        case errUnless NotFound res of
          Some err \<Rightarrow> ret (0, Some err)
        | None \<Rightarrow>
            (case trs_RetryPolicy (tr_Spec tr) of
               None \<Rightarrow> ret (0, Some (Err ''panic: nil pointer dereference''))
             | Some policy \<Rightarrow> do {
                 res \<leftarrow> statusTR k (tr\<lparr>tr_Status := (tr_Status tr)
                   \<lparr>tst_RetryCount := i32 (tst_RetryCount (tr_Status tr) + 1), tst_JobRef := ''''\<rparr>\<rparr>);
                 case res of
                   Inl err \<Rightarrow> ret (0, Some err)
                 | Inr _ \<Rightarrow> ret (rp_Backoff policy, None)
               })
      }
      else do {
        emit (PhaseMetric (task_type_string (trs_Type (tr_Spec tr))) ''Failed'');
        emit (AlertEvent ''taskrun'' (trs_TaskName (tr_Spec tr)) (tst_Message (tr_Status tr)));
        updateTR k (finishedTR now TaskRunFailed tr)
      })"

definition watchJob :: "'c kclient \<Rightarrow> gotime \<Rightarrow> TaskRun \<Rightarrow> ('c, reconcile_result) kio" where
  "watchJob k now tr = do {
     got \<leftarrow> getJob k (okey (trs_Namespace (tr_Spec tr)) (tst_JobRef (tr_Status tr)));
     case got of
       Inl err \<Rightarrow> ret (0, ignoreNotFound err)
     | Inr job \<Rightarrow>
         if job_Succeeded job > 0 then do {
           emit (PhaseMetric (task_type_string (trs_Type (tr_Spec tr))) ''Succeeded'');
           updateTR k (finishedTR now TaskRunSucceeded tr)
         }
         else if job_Failed job > 0 then failJob k now tr job
         else updateTR k tr
   }"

definition TaskRun_Reconcile ::
  "'c kclient \<Rightarrow> TaskRunReconciler \<Rightarrow> ((string \<times> string) list \<Rightarrow> (string \<times> string) list) \<Rightarrow> gotime \<Rightarrow> ObjectKey \<Rightarrow>
   ('c, reconcile_result) kio" where
  "TaskRun_Reconcile k r ord now req = do {
     got \<leftarrow> getTR k req;
     case got of
       Inl err \<Rightarrow> ret (0, ignoreNotFound err)
     | Inr tr \<Rightarrow>
         if trs_Type (tr_Spec tr) = TaskTypeApproval then reconcileApproval k now tr
         else if trs_Type (tr_Spec tr) = TaskTypeRelease \<and> trs_RolloutSpec (tr_Spec tr) \<noteq> None
         then reconcileDeploy k now tr
         else if tst_Phase (tr_Status tr) = TaskRunSucceeded \<or> tst_Phase (tr_Status tr) = TaskRunFailed
         then ret (0, None)
         else if tst_JobRef (tr_Status tr) = '''' then startJob k r ord now tr
         else watchJob k now tr
   }"

section \<open>What a reconcile requests\<close>

text \<open>The ConfigMap of the CA is in place: read with the bundle, created or updated with it.\<close>

definition ca_synced :: "TaskRunReconciler \<Rightarrow> string \<Rightarrow> effect list \<Rightarrow> bool" where
  "ca_synced r ns es \<longleftrightarrow> jb_HubCABundle (trr_JobBuilder r) = '''' \<or>
     (\<exists>key got. GetCM key (Inr got) \<in> set es \<and> key = okey ns HubCAConfigMapName \<and>
        map_get (cm_Data got) HubCAKey = jb_HubCABundle (trr_JobBuilder r)) \<or>
     (\<exists>cm a. (CreateCM cm (Inr a) \<in> set es \<and> meta_key (cm_Meta cm) = okey ns HubCAConfigMapName \<or>
        (\<exists>got. GetCM (okey ns HubCAConfigMapName) (Inr got) \<in> set es \<and> cm_Meta cm = cm_Meta got \<and> UpdateCM cm (Inr a) \<in> set es)) \<and>
        cm_Data cm HubCAKey = Some (jb_HubCABundle (trr_JobBuilder r)))"

definition ca_event :: "effect \<Rightarrow> bool" where
  "ca_event e \<longleftrightarrow> (\<exists>key a. e = GetCM key a) \<or> (\<exists>cm a. e = CreateCM cm a) \<or> (\<exists>cm a. e = UpdateCM cm a)"

lemma ca_event_simps [simp]:
  "ca_event (GetCM key a1)" "ca_event (CreateCM cm a2)" "ca_event (UpdateCM cm a3)"
  "\<not> ca_event (GetJob key a7)" "\<not> ca_event (CreateJob j a4)" "\<not> ca_event (StatusTR tr a5)" "\<not> ca_event (DeleteJob key a6)"
  by (auto simp: ca_event_def)

lemma ca_events_no_other [simp]:
  "list_all ca_event es \<Longrightarrow> CreateJob j a1 \<notin> set es" "list_all ca_event es \<Longrightarrow> StatusTR tr a2 \<notin> set es"
  "list_all ca_event es \<Longrightarrow> DeleteJob key a3 \<notin> set es"
  "list_all ca_event es \<Longrightarrow> GetJob key a4 \<notin> set es"
  by (auto simp: list_all_iff)

lemma ensureHubCAMap_emits:
  "emits (ensureHubCAMap k r ns) (\<lambda>res new. list_all ca_event new \<and> (res = None \<longrightarrow> ca_synced r ns new))"
  unfolding ensureHubCAMap_def Let_def
  by (intro emitsI wp_intro) (auto simp: ca_synced_def errOf_None meta_key_def meta0_def)

lemma updateTR_emits: "emits (updateTR k tr) (\<lambda>res new. \<exists>a. new = [StatusTR tr a] \<and> res = (0, errOf a))"
  unfolding updateTR_def by (intro emitsI wp_intro) simp

lemma maybeStreamLogs_emits:
  "emits (maybeStreamLogs r tr) (\<lambda>res new. new = [] \<or> new = [StreamLogsFor (streamKey tr)] \<and> streamKey tr \<notin> set (trr_streaming r))"
  unfolding maybeStreamLogs_def by (intro emitsI wp_intro) simp_all

text \<open>The run of a job task that is not over.\<close>

inductive job_path ::
  "TaskRunReconciler \<Rightarrow> ((string \<times> string) list \<Rightarrow> (string \<times> string) list) \<Rightarrow> gotime \<Rightarrow> TaskRun \<Rightarrow> reconcile_result \<Rightarrow>
   effect list \<Rightarrow> bool"
  for r ord now tr where
  jp_no_job: "tst_JobRef (tr_Status tr) = '''' \<Longrightarrow> list_all ca_event ca \<Longrightarrow> job_path r ord now tr (0, Some err) ca"
| jp_refused: "tst_JobRef (tr_Status tr) = '''' \<Longrightarrow> list_all ca_event ca \<Longrightarrow> ca_synced r (om_Namespace m) ca \<Longrightarrow>
     job = (Build ord (trr_JobBuilder r) tr)\<lparr>job_Meta := m\<rparr> \<Longrightarrow> err \<noteq> AlreadyExists \<Longrightarrow>
     job_path r ord now tr (0, Some err) (ca @ [CreateJob job (Inl err)])"
| jp_started: "tst_JobRef (tr_Status tr) = '''' \<Longrightarrow> list_all ca_event ca \<Longrightarrow> ca_synced r (om_Namespace m) ca \<Longrightarrow>
     job = (Build ord (trr_JobBuilder r) tr)\<lparr>job_Meta := m\<rparr> \<Longrightarrow> errUnless AlreadyExists x = None \<Longrightarrow>
     tr' = tr\<lparr>tr_Status := (tr_Status tr)\<lparr>tst_Phase := TaskRunRunning, tst_JobRef := name, tst_StartTime := Some now\<rparr>\<rparr> \<Longrightarrow>
     st = [] \<or> st = [StreamLogsFor (streamKey tr')] \<and> streamKey tr' \<notin> set (trr_streaming r) \<Longrightarrow>
     job_path r ord now tr (0, errOf a) (ca @ CreateJob job x # st @ [StatusTR tr' a])"
| jp_lost: "tst_JobRef (tr_Status tr) \<noteq> '''' \<Longrightarrow> job_path r ord now tr (0, ignoreNotFound err) [GetJob (okey (trs_Namespace (tr_Spec tr)) (tst_JobRef (tr_Status tr))) (Inl err)]"
| jp_succeeded: "tst_JobRef (tr_Status tr) \<noteq> '''' \<Longrightarrow> job_Succeeded job > 0 \<Longrightarrow>
     job_path r ord now tr (0, errOf a) [GetJob (okey (trs_Namespace (tr_Spec tr)) (tst_JobRef (tr_Status tr))) (Inr job), PhaseMetric ty ''Succeeded'', StatusTR (finishedTR now TaskRunSucceeded tr) a]"
| jp_undeleted: "tst_JobRef (tr_Status tr) \<noteq> '''' \<Longrightarrow> job_Failed job > 0 \<Longrightarrow> \<not> job_Succeeded job > 0 \<Longrightarrow>
     tst_RetryCount (tr_Status tr) < maxRetries (tr_Spec tr) \<Longrightarrow> errUnless NotFound x = Some err \<or> trs_RetryPolicy (tr_Spec tr) = None \<Longrightarrow>
     job_path r ord now tr (0, Some err) [GetJob (okey (trs_Namespace (tr_Spec tr)) (tst_JobRef (tr_Status tr))) (Inr job), DeleteJob (meta_key (job_Meta job)) x]"
| jp_retried: "tst_JobRef (tr_Status tr) \<noteq> '''' \<Longrightarrow> job_Failed job > 0 \<Longrightarrow> \<not> job_Succeeded job > 0 \<Longrightarrow>
     tst_RetryCount (tr_Status tr) < maxRetries (tr_Spec tr) \<Longrightarrow> trs_RetryPolicy (tr_Spec tr) = Some policy \<Longrightarrow>
     errUnless NotFound x = None \<Longrightarrow>
     res = (case a of Inl err \<Rightarrow> (0, Some err) | Inr _ \<Rightarrow> (rp_Backoff policy, None)) \<Longrightarrow>
     job_path r ord now tr res [GetJob (okey (trs_Namespace (tr_Spec tr)) (tst_JobRef (tr_Status tr))) (Inr job), DeleteJob (meta_key (job_Meta job)) x,
       StatusTR (tr\<lparr>tr_Status := (tr_Status tr)\<lparr>tst_RetryCount := i32 (tst_RetryCount (tr_Status tr) + 1), tst_JobRef := ''''\<rparr>\<rparr>) a]"
| jp_failed: "tst_JobRef (tr_Status tr) \<noteq> '''' \<Longrightarrow> job_Failed job > 0 \<Longrightarrow> \<not> job_Succeeded job > 0 \<Longrightarrow>
     \<not> tst_RetryCount (tr_Status tr) < maxRetries (tr_Spec tr) \<Longrightarrow>
     job_path r ord now tr (0, errOf a) [GetJob (okey (trs_Namespace (tr_Spec tr)) (tst_JobRef (tr_Status tr))) (Inr job), PhaseMetric ty ''Failed'', AlertEvent ''taskrun'' n msg,
       StatusTR (finishedTR now TaskRunFailed tr) a]"
| jp_running: "tst_JobRef (tr_Status tr) \<noteq> '''' \<Longrightarrow> \<not> job_Failed job > 0 \<Longrightarrow> \<not> job_Succeeded job > 0 \<Longrightarrow>
     job_path r ord now tr (0, errOf a) [GetJob (okey (trs_Namespace (tr_Spec tr)) (tst_JobRef (tr_Status tr))) (Inr job), StatusTR tr a]"

lemma startJob_emits:
  assumes "tst_JobRef (tr_Status tr) = ''''"
  shows "emits (startJob k r ord now tr) (job_path r ord now tr)"
  unfolding startJob_def Let_def
  apply (intro emitsI wp_intro wp_emits [OF ensureHubCAMap_emits] wp_emits [OF maybeStreamLogs_emits]
      wp_emits [OF updateTR_emits])
  subgoal using jp_no_job [OF assms, of "[]"] by simp
  subgoal for es m e ca y u st res new
    using jp_started [where ca = ca and st = st and x = y and m = m and r = r and ord = ord and now = now
        and name = "case y of Inl _ \<Rightarrow> om_Name m | Inr j \<Rightarrow> om_Name (job_Meta j)", OF assms _ _ refl _ refl]
    by auto
  subgoal for es m e ca y err
    using jp_refused [OF assms, of ca r m] by (auto simp: errUnless_Some)
  subgoal for es m e ca err using jp_no_job [OF assms, of ca] by simp
  done

lemma watchJob_emits:
  assumes "tst_JobRef (tr_Status tr) \<noteq> ''''"
  shows "emits (watchJob k now tr) (job_path r ord now tr)"
proof -
  have updated: "emits (updateTR k tr') (\<lambda>res new. \<exists>a. new = [StatusTR tr' a] \<and> res = (0, errOf a))" for tr'
    by (rule updateTR_emits)
  show ?thesis
    unfolding watchJob_def failJob_def Let_def
    apply (intro emitsI wp_intro wp_emits [OF updateTR_emits])
    subgoal using jp_lost [OF assms] by simp
    subgoal using jp_succeeded [OF assms] by auto
    subgoal using jp_undeleted [OF assms] by simp
    subgoal for es x job d policy a e
      using jp_retried [where a = a and policy = policy and job = job and x = d, OF assms _ _ _ _ _ refl] by simp
    subgoal for es x job d policy a o1
      using jp_retried [where a = a and policy = policy and job = job and x = d, OF assms _ _ _ _ _ refl] by simp
    subgoal using jp_undeleted [OF assms] by simp
    subgoal using jp_failed [OF assms] by auto
    subgoal using jp_running [OF assms] by auto
    done
qed

text \<open>The paths of a reconcile.\<close>

definition is_deploy :: "TaskRun \<Rightarrow> bool" where
  "is_deploy tr \<longleftrightarrow> trs_Type (tr_Spec tr) = TaskTypeRelease \<and> trs_RolloutSpec (tr_Spec tr) \<noteq> None"

inductive deploy_path :: "gotime \<Rightarrow> TaskRun \<Rightarrow> reconcile_result \<Rightarrow> effect list \<Rightarrow> bool" for now tr where
  dp_unowned: "deploy_path now tr (0, Some err) []"
| dp_refused: "tst_RolloutRef (tr_Status tr) = '''' \<Longrightarrow> deploy_path now tr (0, Some err) [CreateRO ro (Inl err)]"
| dp_started: "tst_RolloutRef (tr_Status tr) = '''' \<Longrightarrow> Some (ro_Spec ro) = trs_RolloutSpec (tr_Spec tr) \<Longrightarrow>
     tr' = tr\<lparr>tr_Status := (tr_Status tr)\<lparr>tst_Phase := TaskRunRunning, tst_RolloutRef := name, tst_StartTime := Some now\<rparr>\<rparr> \<Longrightarrow>
     deploy_path now tr (0, errOf a) [CreateRO ro x, StatusTR tr' a]"
| dp_lost: "tst_RolloutRef (tr_Status tr) \<noteq> '''' \<Longrightarrow> deploy_path now tr (0, ignoreNotFound err) [GetRO key (Inl err)]"
| dp_mirrored: "tst_RolloutRef (tr_Status tr) \<noteq> '''' \<Longrightarrow>
     key = okey (trs_Namespace (tr_Spec tr)) (tst_RolloutRef (tr_Status tr)) \<Longrightarrow>
     deploy_path now tr (0, errOf a)
       [GetRO key (Inr ro), StatusTR (tr\<lparr>tr_Status := mirrorRollout now (ro_Status ro) (tr_Status tr)\<rparr>) a]"

lemma reconcileDeploy_emits:
  assumes "trs_RolloutSpec (tr_Spec tr) \<noteq> None"
  shows "emits (reconcileDeploy k now tr) (deploy_path now tr)"
proof -
  obtain spec where spec: "trs_RolloutSpec (tr_Spec tr) = Some spec" using assms by blast
  show ?thesis
    unfolding reconcileDeploy_def Let_def spec option.case
    apply (intro emitsI wp_intro wp_emits [OF updateTR_emits])
    subgoal by (simp add: dp_unowned)
    subgoal for es m x
      using dp_started [where ro = "taskRollout tr spec\<lparr>ro_Meta := m\<rparr>" and x = x and now = now
          and name = "case x of Inl _ \<Rightarrow> om_Name m | Inr o1 \<Rightarrow> om_Name (ro_Meta o1)", OF _ _ refl] spec
      by (auto simp: taskRollout_def)
    subgoal using dp_refused by (auto simp: errUnless_Some)
    subgoal using dp_lost by simp
    subgoal using dp_mirrored by auto
    done
qed

inductive task_path ::
  "TaskRunReconciler \<Rightarrow> ((string \<times> string) list \<Rightarrow> (string \<times> string) list) \<Rightarrow> gotime \<Rightarrow> ObjectKey \<Rightarrow> reconcile_result \<Rightarrow>
   effect list \<Rightarrow> bool"
  for r ord now req where
  tp_missing: "task_path r ord now req (0, ignoreNotFound err) [GetTR req (Inl err)]"
| tp_approval: "trs_Type (tr_Spec tr) = TaskTypeApproval \<Longrightarrow> tst_Phase (tr_Status (approvalStatus now tr)) = TaskRunPending \<Longrightarrow>
     task_path r ord now req (0, errOf a) [GetTR req (Inr tr), StatusTR (approvalStatus now tr) a]"
| tp_decided: "trs_Type (tr_Spec tr) = TaskTypeApproval \<Longrightarrow> tst_Phase (tr_Status (approvalStatus now tr)) \<noteq> TaskRunPending \<Longrightarrow>
     task_path r ord now req (0, None) [GetTR req (Inr tr)]"
| tp_deploy: "is_deploy tr \<Longrightarrow> deploy_path now tr res es \<Longrightarrow> task_path r ord now req res (GetTR req (Inr tr) # es)"
| tp_over: "trs_Type (tr_Spec tr) \<noteq> TaskTypeApproval \<Longrightarrow> \<not> is_deploy tr \<Longrightarrow>
     tst_Phase (tr_Status tr) \<in> {TaskRunSucceeded, TaskRunFailed} \<Longrightarrow> task_path r ord now req (0, None) [GetTR req (Inr tr)]"
| tp_job: "trs_Type (tr_Spec tr) \<noteq> TaskTypeApproval \<Longrightarrow> \<not> is_deploy tr \<Longrightarrow>
     tst_Phase (tr_Status tr) \<notin> {TaskRunSucceeded, TaskRunFailed} \<Longrightarrow> job_path r ord now tr res es \<Longrightarrow>
     task_path r ord now req res (GetTR req (Inr tr) # es)"

lemma reconcileApproval_emits:
  "emits (reconcileApproval k now tr) (\<lambda>res new.
     if tst_Phase (tr_Status (approvalStatus now tr)) = TaskRunPending
     then \<exists>a. new = [StatusTR (approvalStatus now tr) a] \<and> res = (0, errOf a) else new = [] \<and> res = (0, None))"
  unfolding reconcileApproval_def Let_def by (intro emitsI wp_intro wp_emits [OF updateTR_emits]) auto

lemma TaskRun_Reconcile_emits: "emits (TaskRun_Reconcile k r ord now req) (task_path r ord now req)"
  unfolding TaskRun_Reconcile_def is_deploy_def [symmetric]
  apply (intro emitsI wp_intro wp_emits [OF reconcileApproval_emits])
  subgoal by (simp add: tp_missing)
  subgoal using tp_approval tp_decided by (auto split: if_splits)
  subgoal
    by (rule wp_emits [OF reconcileDeploy_emits]) (auto simp: is_deploy_def intro: tp_deploy)
  subgoal by (auto intro: tp_over)
  subgoal by (rule wp_emits [OF startJob_emits [where ord = ord and r = r]]) (auto intro: tp_job)
  subgoal by (rule wp_emits [OF watchJob_emits [where ord = ord and r = r]]) (auto intro: tp_job)
  done

lemma TaskRun_path:
  "exec (TaskRun_Reconcile k r ord now req) c = (res, c', es) \<Longrightarrow> task_path r ord now req res es"
  by (rule emits_exec [OF TaskRun_Reconcile_emits])

text \<open>A task run that cannot own an object of its target namespace gets nothing.\<close>

definition cannot_own :: "'c kclient \<Rightarrow> TaskRun \<Rightarrow> bool" where
  "cannot_own k tr \<longleftrightarrow> (\<forall>ob. om_Namespace ob = trs_Namespace (tr_Spec tr) \<longrightarrow>
     (\<exists>err. setControllerReference k ''TaskRun'' (tr_Meta tr) ob = Inl err))"

lemma startJob_unowned: "cannot_own k tr \<Longrightarrow> \<exists>err. startJob k r ord now tr = ret (0, Some err)"
proof -
  assume "cannot_own k tr"
  then obtain err where "setControllerReference k ''TaskRun'' (tr_Meta tr) (job_Meta (Build ord (trr_JobBuilder r) tr)) = Inl err"
    unfolding cannot_own_def using builder.build_unowned by blast
  then show ?thesis by (intro exI [of _ err]) (simp add: startJob_def Let_def)
qed

lemma reconcileDeploy_unowned:
  "cannot_own k tr \<Longrightarrow> trs_RolloutSpec (tr_Spec tr) = Some spec \<Longrightarrow> tst_RolloutRef (tr_Status tr) = '''' \<Longrightarrow>
   \<exists>err. reconcileDeploy k now tr = ret (0, Some err)"
proof -
  assume a: "cannot_own k tr" "trs_RolloutSpec (tr_Spec tr) = Some spec" "tst_RolloutRef (tr_Status tr) = ''''"
  have "om_Namespace (ro_Meta (taskRollout tr spec)) = trs_Namespace (tr_Spec tr)" by (simp add: taskRollout_def)
  with a(1) obtain err where "setControllerReference k ''TaskRun'' (tr_Meta tr) (ro_Meta (taskRollout tr spec)) = Inl err"
    unfolding cannot_own_def by metis
  with a(2,3) show ?thesis by (intro exI [of _ err]) (simp add: reconcileDeploy_def Let_def)
qed

lemma TaskRun_Reconcile_unowned:
  "emits (TaskRun_Reconcile k r ord now req) (\<lambda>res es. \<forall>tr es'. es = GetTR req (Inr tr) # es' \<longrightarrow> cannot_own k tr \<longrightarrow>
     trs_Type (tr_Spec tr) \<noteq> TaskTypeApproval \<longrightarrow> tst_Phase (tr_Status tr) \<notin> {TaskRunSucceeded, TaskRunFailed} \<longrightarrow>
     tst_JobRef (tr_Status tr) = '''' \<longrightarrow> tst_RolloutRef (tr_Status tr) = '''' \<longrightarrow> es' = [] \<and> (\<exists>err. res = (0, Some err)))"
  unfolding TaskRun_Reconcile_def is_deploy_def [symmetric]
  apply (intro emitsI wp_intro wp_emits [OF reconcileApproval_emits])
  subgoal by simp
  subgoal by auto
  subgoal for es x tr
    by (cases "cannot_own k tr \<and> tst_RolloutRef (tr_Status tr) = ''''")
      (auto simp: is_deploy_def dest!: reconcileDeploy_unowned [where now = now] intro!: wp_return
        intro: wp_emits [OF reconcileDeploy_emits])
  subgoal by auto
  subgoal for es x tr
    by (cases "cannot_own k tr")
      (auto dest!: startJob_unowned [where r = r and ord = ord and now = now] intro!: wp_return
        intro: wp_emits [OF startJob_emits])
  subgoal for es x tr by (rule wp_emits [OF watchJob_emits]) auto
  done

end
