(* ===== verification/TaskRun_Props.thy ===== *)
theory TaskRun_Props
  imports TaskRun_Controller Canary_Engine PipelineRun_Props
begin

text \<open>The properties of the job builder and of the task-run reconciler, and their witnesses.\<close>

section \<open>Task runs for the witnesses\<close>

definition tx_spec :: "PipelineTaskType \<Rightarrow> RetryPolicy option \<Rightarrow> RolloutSpec option \<Rightarrow> string list \<Rightarrow> Param list \<Rightarrow> TaskRunSpec" where
  "tx_spec ty retry ro cons params = \<lparr>trs_PipelineRunRef = ''r1'', trs_TaskName = ''build'', trs_Type = ty, trs_Image = ''golang'',
     trs_ScriptPath = '''', trs_ScriptArgs = [], trs_Command = [''make''], trs_Args = [], trs_Repo = None,
     trs_Produces = [], trs_Consumes = cons, trs_Env = [], trs_Resources = no_resources, trs_Namespace = ''ci'',
     trs_ServiceAccountName = '''', trs_RetryPolicy = retry, trs_TimeoutSeconds = 0, trs_ApprovalConfig = None,
     trs_RolloutSpec = ro, trs_ReleaseSpec = None, trs_Params = params, trs_Privileged = False\<rparr>"

definition tx_run :: "TaskRunSpec \<Rightarrow> TaskRunStatus \<Rightarrow> TaskRun" where
  "tx_run spec st = \<lparr>tr_Meta = meta0\<lparr>om_Name := ''r1-build'', om_Namespace := ''ci''\<rparr>, tr_Spec = spec, tr_Status = st\<rparr>"

definition tx_reconciler :: TaskRunReconciler where
  "tx_reconciler = \<lparr>trr_JobBuilder = NewJobBuilder\<lparr>jb_HubAPIToken := ''secret'', jb_HubCABundle := ''pem''\<rparr>, trr_Conn = True,
     trr_Clientset = True, trr_LogStreamingEnabled = True, trr_TargetName = ''t1'', trr_streaming = []\<rparr>"

abbreviation tx_key :: ObjectKey where "tx_key \<equiv> okey ''ci'' ''r1-build''"

abbreviation tx_exec :: "gotime \<Rightarrow> Cluster \<Rightarrow> reconcile_result \<times> Cluster \<times> effect list" where
  "tx_exec now cl \<equiv> exec (TaskRun_Reconcile mem_client tx_reconciler id now tx_key) cl"

lemma tx_views [simp]:
  "trs_Type (tx_spec ty retry ro cons params) = ty" "trs_RetryPolicy (tx_spec ty retry ro cons params) = retry"
  "trs_RolloutSpec (tx_spec ty retry ro cons params) = ro" "trs_Namespace (tx_spec ty retry ro cons params) = ''ci''"
  "trs_Consumes (tx_spec ty retry ro cons params) = cons" "trs_Params (tx_spec ty retry ro cons params) = params"
  "trs_ApprovalConfig (tx_spec ty retry ro cons params) = None" "trs_TaskName (tx_spec ty retry ro cons params) = ''build''"
  "tr_Spec (tx_run spec st) = spec" "tr_Status (tx_run spec st) = st"
  "om_Name (tr_Meta (tx_run spec st)) = ''r1-build''" "om_Namespace (tr_Meta (tx_run spec st)) = ''ci''"
  by (simp_all add: tx_spec_def tx_run_def)

lemmas tx_simps = TaskRun_Reconcile_def run_simps updateTR_def task_status0_def

definition tx_build :: TaskRun where
  "tx_build = tx_run (tx_spec TaskTypeBuild None None [] []) task_status0"

lemma tx_build_run:
  "\<exists>c' es. tx_exec 5 (cluster0\<lparr>cl_taskRuns := [tx_build]\<rparr>) = ((0, None), c', GetTR tx_key (Inr tx_build) # es)"
  unfolding tx_build_def
  by (simp add: tx_simps startJob_def ensureHubCAMap_def maybeStreamLogs_def tx_reconciler_def cong: bind_weak_cong)

section \<open>Jobs\<close>

text \<open>C32: The Job of a task run is well formed: it lives in the namespace of the task run and runs once
  under its service account (no restart, no retry by the Job, the deadline of the task); every
  volume a container mounts is a volume of the pod; only the task's own container may be privileged, and only if
  the task is; and when a hub CA is configured, every container that calls the hub is pointed to it.\<close>

theorem build_well_formed:
  "let job = Build ord b tr; pod = job_Pod job in
   om_Namespace (job_Meta job) = trs_Namespace (tr_Spec tr) \<and>
   ps_ServiceAccountName pod = trs_ServiceAccountName (tr_Spec tr) \<and>
   ps_RestartPolicy pod = ''Never'' \<and> job_BackoffLimit job = Some 0 \<and>
   (job_ActiveDeadlineSeconds job = (if trs_TimeoutSeconds (tr_Spec tr) > 0 then Some (trs_TimeoutSeconds (tr_Spec tr)) else None)) \<and>
   (\<forall>c\<in>set (job_containers job). \<forall>m\<in>set (con_VolumeMounts c). \<exists>v\<in>set (ps_Volumes pod). vol_Name v = vm_Name m) \<and>
   (\<forall>c\<in>set (job_containers job). con_Privileged c = Some True \<longrightarrow> c \<in> set (ps_Containers pod) \<and> trs_Privileged (tr_Spec tr)) \<and>
   (jb_HubCABundle b \<noteq> '''' \<longrightarrow> (\<forall>c\<in>set (job_containers job). con_Name c \<in> {''main'', ''release'', ''fetch-artifacts''} \<longrightarrow>
      env_value (con_Env c) ''SSL_CERT_FILE'' = Some hubCACertFile))"
proof -
  note task = taskContainer_views [of ord b tr]
  show ?thesis
    using task
    by (cases "jb_HubCABundle b = ''''"; cases "trs_Repo (tr_Spec tr)"; cases "trs_Consumes (tr_Spec tr) = []")
      (auto simp: Build_def Let_def job_containers_def initContainers_def workspaceMount_def caMount_def meta0_def
        withCA_def env_value_append)
qed

lemma build_well_formed_witness:
  "env_value (con_Env (hd (ps_Containers (job_Pod (Build id (trr_JobBuilder tx_reconciler) tx_build))))) ''SSL_CERT_FILE'' =
     Some hubCACertFile"
proof -
  let ?job = "Build id (trr_JobBuilder tx_reconciler) tx_build"
  let ?c = "hd (ps_Containers (job_Pod ?job))"
  have c: "?c \<in> set (job_containers ?job)" by (simp add: Build_def Let_def job_containers_def)
  have n: "con_Name ?c = ''main''"
    by (simp add: Build_def Let_def taskContainer_def mainContainer_def applyPrivileged_def withCA_def tx_build_def)
  have b: "jb_HubCABundle (trr_JobBuilder tx_reconciler) \<noteq> ''''" by (simp add: tx_reconciler_def)
  from build_well_formed [of id "trr_JobBuilder tx_reconciler" tx_build] b c n show ?thesis
    unfolding Let_def by blast
qed

text \<open>Release names: the sanitized name of a task is at most 53 bytes of \<open>a-z\<close>, \<open>0-9\<close> and \<open>-\<close>
  and does not end in \<open>-\<close>; it is a name Helm accepts exactly when the task name is empty or starts
  with an ASCII letter or digit (otherwise it is empty or starts with \<open>-\<close>).\<close>

theorem sanitized_release_name:
  "length (sanitizeReleaseName name) \<le> 53 \<and>
   list_all (\<lambda>c. is_lower c \<or> is_number c \<or> c = CHR ''-'') (sanitizeReleaseName name) \<and>
   (sanitizeReleaseName name \<noteq> [] \<longrightarrow> last (sanitizeReleaseName name) \<noteq> CHR ''-'') \<and>
   (helm_name (sanitizeReleaseName name) \<longleftrightarrow>
      name = [] \<or> is_lower (hd name) \<or> is_upper (hd name) \<or> is_number (hd name))"
proof -
  note shape = sanitize_shape [of name]
  have last: "sanitizeReleaseName name \<noteq> [] \<Longrightarrow> last (sanitizeReleaseName name) \<noteq> CHR ''-''"
    using shape by auto
  have "helm_name (sanitizeReleaseName name) \<longleftrightarrow>
      name = [] \<or> is_lower (hd name) \<or> is_upper (hd name) \<or> is_number (hd name)"
  proof (cases name)
    case Nil
    then show ?thesis by (simp add: sanitizeReleaseName_def helm_name_def helm_char_def is_char_tests)
  next
    case (Cons c cs)
    show ?thesis
      using sanitize_head [OF Cons] shape releaseChar_helm [of c] Cons
      by (cases "helm_char (releaseChar c)") (auto simp: helm_name_def)
  qed
  with shape last show ?thesis by (auto simp: helm_char_def list_all_iff)
qed

text \<open>C32: A run parameter can redirect the artifact download. Parameters are injected after the hub address
  and token, and the denylist does not name those: when a run has a parameter \<open>SDP_HUB_BASE_URL\<close>,
  the container that fetches the artifacts sends the hub token of the runner to the address of the parameter.\<close>

theorem param_redirects_hub_token:
  assumes "trs_Consumes (tr_Spec tr) \<noteq> []" "jb_HubAPIToken b \<noteq> ''''"
    and "param_value (trs_Params (tr_Spec tr)) ''SDP_HUB_BASE_URL'' = Some url"
    and "param_value (trs_Params (tr_Spec tr)) ''SDP_HUB_TOKEN'' = None"
  shows "\<exists>c\<in>set (ps_InitContainers (job_Pod (Build ord b tr))).
    con_Command c = [''sh'', ''-c'', consumeFetchScript] \<and>
    env_value (con_Env c) ''SDP_HUB_BASE_URL'' = Some url \<and> env_value (con_Env c) ''SDP_HUB_TOKEN'' = Some (jb_HubAPIToken b)"
proof -
  let ?c = "consumeContainer b (trs_Consumes (tr_Spec tr)) (trs_Params (tr_Spec tr))"
  have inj: "injectable ''SDP_HUB_BASE_URL''"
    by (simp add: injectable_def envNameStart_def is_char_tests reservedEnv_def)
  have env: "env_value (con_Env ?c) ''SDP_HUB_BASE_URL'' = Some url"
    "env_value (con_Env ?c) ''SDP_HUB_TOKEN'' = Some (jb_HubAPIToken b)"
    using assms inj by (simp_all add: consumeContainer_def env_value_append paramsToEnv_value)
  have ca: "con_Command (withCA ?c) = con_Command ?c"
    "env_value (con_Env (withCA ?c)) ''SDP_HUB_BASE_URL'' = env_value (con_Env ?c) ''SDP_HUB_BASE_URL''"
    "env_value (con_Env (withCA ?c)) ''SDP_HUB_TOKEN'' = env_value (con_Env ?c) ''SDP_HUB_TOKEN''"
    by (simp_all add: withCA_def env_value_append)
  have cmd: "con_Command ?c = [''sh'', ''-c'', consumeFetchScript]" by (simp add: consumeContainer_def)
  have "?c \<in> set (ps_InitContainers (job_Pod (Build ord b tr))) \<or> withCA ?c \<in> set (ps_InitContainers (job_Pod (Build ord b tr)))"
    using assms(1) by (auto simp: Build_def Let_def initContainers_def)
  then show ?thesis using env ca cmd by metis
qed

lemma param_redirects_hub_token_witness:
  "\<exists>c\<in>set (ps_InitContainers (job_Pod (Build id (trr_JobBuilder tx_reconciler)
      (tx_run (tx_spec TaskTypeBuild None None [''out''] [\<lparr>param_Name = ''SDP_HUB_BASE_URL'', param_Value = ''https://evil''\<rparr>]) task_status0)))).
     env_value (con_Env c) ''SDP_HUB_BASE_URL'' = Some ''https://evil'' \<and> env_value (con_Env c) ''SDP_HUB_TOKEN'' = Some ''secret''"
proof -
  let ?tr = "tx_run (tx_spec TaskTypeBuild None None [''out''] [\<lparr>param_Name = ''SDP_HUB_BASE_URL'', param_Value = ''https://evil''\<rparr>]) task_status0"
  have "trs_Consumes (tr_Spec ?tr) \<noteq> []" "jb_HubAPIToken (trr_JobBuilder tx_reconciler) = ''secret''"
    "param_value (trs_Params (tr_Spec ?tr)) ''SDP_HUB_BASE_URL'' = Some ''https://evil''"
    "param_value (trs_Params (tr_Spec ?tr)) ''SDP_HUB_TOKEN'' = None"
    by (simp_all add: tx_reconciler_def)
  then show ?thesis using param_redirects_hub_token [of ?tr "trr_JobBuilder tx_reconciler" "''https://evil''" id] by auto
qed

section \<open>Task runs\<close>

text \<open>A task run that runs as a Job, is not over and has none.\<close>

definition awaits_job :: "TaskRun \<Rightarrow> bool" where
  "awaits_job tr \<longleftrightarrow> trs_Type (tr_Spec tr) \<noteq> TaskTypeApproval \<and> \<not> is_deploy tr \<and>
     tst_Phase (tr_Status tr) \<noteq> TaskRunSucceeded \<and> tst_Phase (tr_Status tr) \<noteq> TaskRunFailed \<and>
     tst_JobRef (tr_Status tr) = ''''"

lemma job_path_creates:
  assumes "job_path r ord now tr res es" "CreateJob job a \<in> set es"
  shows "tst_JobRef (tr_Status tr) = '''' \<and> (\<exists>m pre post. es = pre @ CreateJob job a # post \<and>
     job = (Build ord (trr_JobBuilder r) tr)\<lparr>job_Meta := m\<rparr> \<and>
     ca_synced r (om_Namespace m) pre \<and> (\<forall>j x. CreateJob j x \<notin> set pre \<and> CreateJob j x \<notin> set post))"
  using assms
proof (cases rule: job_path.cases)
  case (jp_started ca m job' x tr' name st a')
  then show ?thesis using assms(2)
    by (intro conjI exI [of _ m] exI [of _ ca] exI [of _ "st @ [StatusTR tr' a']"]) auto
next
  case (jp_refused ca m job' err)
  then show ?thesis using assms(2)
    by (intro conjI exI [of _ m] exI [of _ ca] exI [of _ "[]"]) auto
qed auto

text \<open>C33: A task run starts at most one Job per reconcile, only when it may, and then it does. A Job is requested only
  for a task run that is no approval and no canary release, is not over and holds no Job; it is the Job
  \<open>Build\<close> makes of the task run (its metadata completed with the owner), the only one, and when a hub CA
  is configured the ConfigMap its pod mounts was in place in the Job's namespace before. And a reconcile of such a
  task run that ends without an error has requested its Job, the request did not fail (but for a Job that is
  there already), and the task run was then persisted as Running, with its start time.\<close>

theorem taskrun_runs_one_job:
  assumes "exec (TaskRun_Reconcile k r ord now req) c = (res, c', GetTR req (Inr tr) # es)"
  shows "(\<forall>job a. CreateJob job a \<in> set es \<longrightarrow> awaits_job tr \<and> (\<exists>m pre post. es = pre @ CreateJob job a # post \<and>
       job = (Build ord (trr_JobBuilder r) tr)\<lparr>job_Meta := m\<rparr> \<and>
       ca_synced r (om_Namespace m) pre \<and> (\<forall>j x. CreateJob j x \<notin> set pre \<and> CreateJob j x \<notin> set post))) \<and>
    (awaits_job tr \<and> snd res = None \<longrightarrow> (\<exists>pre job a post p x. es = pre @ CreateJob job a # post \<and> errUnless AlreadyExists a = None \<and>
       StatusTR p (Inr x) \<in> set post \<and> tst_Phase (tr_Status p) = TaskRunRunning \<and> tst_StartTime (tr_Status p) = Some now))"
  (is "?one \<and> ?does")
proof
  note path = TaskRun_path [OF assms]
  show ?one
  proof (intro allI impI)
    fix job a
    assume "CreateJob job a \<in> set es"
    with path show "awaits_job tr \<and> (\<exists>m pre post. es = pre @ CreateJob job a # post \<and>
       job = (Build ord (trr_JobBuilder r) tr)\<lparr>job_Meta := m\<rparr> \<and>
       ca_synced r (om_Namespace m) pre \<and> (\<forall>j x. CreateJob j x \<notin> set pre \<and> CreateJob j x \<notin> set post))"
      by (cases rule: task_path.cases) (auto simp: awaits_job_def elim: deploy_path.cases dest: job_path_creates)
  qed
  show ?does
  proof (intro impI, elim conjE)
    assume a: "awaits_job tr" "snd res = None"
    with path have "job_path r ord now tr res es"
      by (cases rule: task_path.cases) (auto simp: awaits_job_def)
    then show "\<exists>pre job a post p x. es = pre @ CreateJob job a # post \<and> errUnless AlreadyExists a = None \<and>
       StatusTR p (Inr x) \<in> set post \<and> tst_Phase (tr_Status p) = TaskRunRunning \<and> tst_StartTime (tr_Status p) = Some now"
    proof cases
      case (jp_started ca m job x tr' name st a')
      with a(2) obtain y where "a' = Inr y" by (cases a') auto
      with jp_started show ?thesis
        by (intro exI [of _ ca] exI [of _ job] exI [of _ x] exI [of _ "st @ [StatusTR tr' a']"] exI [of _ tr'] exI [of _ y]) auto
    qed (use a in \<open>auto simp: awaits_job_def\<close>)
  qed
qed

lemma taskrun_runs_one_job_witness:
  "\<exists>res c' m pre job a post p x.
     tx_exec 5 (cluster0\<lparr>cl_taskRuns := [tx_build]\<rparr>) = (res, c', GetTR tx_key (Inr tx_build) # pre @ CreateJob job a # post) \<and>
     job = (Build id (trr_JobBuilder tx_reconciler) tx_build)\<lparr>job_Meta := m\<rparr> \<and> ca_synced tx_reconciler (om_Namespace m) pre \<and>
     StatusTR p (Inr x) \<in> set post \<and> tst_Phase (tr_Status p) = TaskRunRunning"
proof -
  obtain c' es where run: "tx_exec 5 (cluster0\<lparr>cl_taskRuns := [tx_build]\<rparr>) = ((0, None), c', GetTR tx_key (Inr tx_build) # es)"
    using tx_build_run by blast
  have "awaits_job tx_build"
    by (simp add: awaits_job_def tx_build_def is_deploy_def tx_simps)
  with taskrun_runs_one_job [OF run] obtain pre job a post p x where es: "es = pre @ CreateJob job a # post"
    "StatusTR p (Inr x) \<in> set post" "tst_Phase (tr_Status p) = TaskRunRunning"
    by (auto simp del: split_paired_Ex)
  then have "CreateJob job a \<in> set es" by simp
  with taskrun_runs_one_job [OF run] obtain m pre' post' where b: "es = pre' @ CreateJob job a # post'"
    "job = (Build id (trr_JobBuilder tx_reconciler) tx_build)\<lparr>job_Meta := m\<rparr>" "ca_synced tx_reconciler (om_Namespace m) pre'"
    "CreateJob job a \<notin> set pre'" "CreateJob job a \<notin> set post'"
    by blast
  have "pre = pre' \<and> post = post'"
    using es(1) b(1,4,5) by (metis append_Cons_eq_iff)
  with run es b(2,3) show ?thesis by blast
qed

text \<open>The reconcile read the Job of the task run, and it had failed while the policy leaves a retry.\<close>

definition retry_due :: "TaskRun \<Rightarrow> effect list \<Rightarrow> Job \<Rightarrow> bool" where
  "retry_due tr es job \<longleftrightarrow> GetJob (okey (trs_Namespace (tr_Spec tr)) (tst_JobRef (tr_Status tr))) (Inr job) \<in> set es \<and>
     job_Failed job > 0 \<and> \<not> job_Succeeded job > 0 \<and> tst_RetryCount (tr_Status tr) < maxRetries (tr_Spec tr)"

text \<open>C13: The retry machine of a task run. When the Job of a job task failed and the policy leaves a retry, the Job is
  deleted; once the server accepts that, the status counts exactly one retry and releases the Job, and when that is stored
  the task run comes back after the backoff of the policy; a refused deletion writes nothing. No other Job is
  ever deleted. In every other case the status keeps the count and does not let go of a Job: it says
  Succeeded exactly when the Job it read has succeeded, Failed exactly when it failed and the retries are used up,
  and is only written for a task that is not over. So the retries never exceed the policy.\<close>

theorem taskrun_retries_bounded:
  assumes "exec (TaskRun_Reconcile k r ord now req) c = (res, c', GetTR req (Inr tr) # es)"
    and "trs_Type (tr_Spec tr) \<noteq> TaskTypeApproval" "\<not> is_deploy tr"
    and "is_i32 (maxRetries (tr_Spec tr))" "is_i32 (tst_RetryCount (tr_Status tr))"
  shows "(\<forall>job policy. retry_due tr es job \<and> trs_RetryPolicy (tr_Spec tr) = Some policy \<longrightarrow>
       (\<exists>x rest. es = GetJob (okey (trs_Namespace (tr_Spec tr)) (tst_JobRef (tr_Status tr))) (Inr job) # DeleteJob (meta_key (job_Meta job)) x # rest \<and>
         (case errUnless NotFound x of Some err \<Rightarrow> rest = [] \<and> res = (0, Some err)
          | None \<Rightarrow> \<exists>a. rest = [StatusTR (tr\<lparr>tr_Status := (tr_Status tr)
                \<lparr>tst_RetryCount := tst_RetryCount (tr_Status tr) + 1, tst_JobRef := ''''\<rparr>\<rparr>) a] \<and>
              res = (case a of Inl err \<Rightarrow> (0, Some err) | Inr _ \<Rightarrow> (rp_Backoff policy, None))))) \<and>
     (\<forall>key x. DeleteJob key x \<in> set es \<longrightarrow> (\<exists>job. retry_due tr es job \<and> key = meta_key (job_Meta job))) \<and>
     (\<forall>p a. StatusTR p a \<in> set es \<longrightarrow> tr_Meta p = tr_Meta tr \<and> tr_Spec p = tr_Spec tr \<and>
       tr_Phase tr \<noteq> TaskRunSucceeded \<and> tr_Phase tr \<noteq> TaskRunFailed \<and>
       tst_RetryCount (tr_Status p) \<le> max (tst_RetryCount (tr_Status tr)) (maxRetries (tr_Spec tr)) \<and>
       ((\<nexists>job. retry_due tr es job) \<longrightarrow> tst_RetryCount (tr_Status p) = tst_RetryCount (tr_Status tr) \<and>
          (tst_JobRef (tr_Status tr) \<noteq> '''' \<longrightarrow> tst_JobRef (tr_Status p) = tst_JobRef (tr_Status tr))) \<and>
       (tr_Phase p = TaskRunSucceeded \<longleftrightarrow> (\<exists>key job. GetJob key (Inr job) \<in> set es \<and> job_Succeeded job > 0)) \<and>
       (tr_Phase p = TaskRunFailed \<longleftrightarrow> maxRetries (tr_Spec tr) \<le> tst_RetryCount (tr_Status tr) \<and>
          (\<exists>key job. GetJob key (Inr job) \<in> set es \<and> job_Failed job > 0 \<and> \<not> job_Succeeded job > 0)))"
proof -
  have i: "i32 (tst_RetryCount (tr_Status tr) + 1) = tst_RetryCount (tr_Status tr) + 1"
    if "tst_RetryCount (tr_Status tr) < maxRetries (tr_Spec tr)"
    using that assms(4,5) by (intro i32_id) (auto simp: is_i32_def)
  from TaskRun_path [OF assms(1)] assms(2,3) consider "es = []"
    | (job) "job_path r ord now tr res es" "tst_Phase (tr_Status tr) \<notin> {TaskRunSucceeded, TaskRunFailed}"
    by (auto elim: task_path.cases)
  then show ?thesis
  proof cases
    case 1
    then show ?thesis by (simp add: retry_due_def)
  next
    case job
    then show ?thesis
    proof (cases rule: job_path.cases)
      case (jp_retried job' policy x a')
      then show ?thesis using job(2) i by (simp add: retry_due_def)
    next
      case (jp_started ca m job' x tr' name st a')
      then show ?thesis using job(2) by (auto simp: retry_due_def)
    qed (use job(2) in \<open>auto simp: finishedTR_def retry_due_def errUnless_Some\<close>)
  qed
qed

text \<open>A task with one retry whose Job failed.\<close>

definition tx_job :: Job where
  "tx_job = \<lparr>job_Meta = meta0\<lparr>om_Name := ''j1'', om_Namespace := ''ci''\<rparr>, job_BackoffLimit = Some 0,
     job_TTLSecondsAfterFinished = None, job_ActiveDeadlineSeconds = None, job_Pod = job_Pod (Build id NewJobBuilder tx_build),
     job_Succeeded = 0, job_Failed = 1, job_Conditions = []\<rparr>"

lemma tx_job_views [simp]:
  "om_Name (job_Meta tx_job) = ''j1''" "om_Namespace (job_Meta tx_job) = ''ci''" "job_Succeeded tx_job = 0" "job_Failed tx_job = 1"
  by (simp_all add: tx_job_def)

definition tx_retried :: TaskRun where
  "tx_retried = tx_run (tx_spec TaskTypeBuild (Some \<lparr>rp_MaxRetries = 1, rp_Backoff = 0\<rparr>) None [] [])
     (task_status0\<lparr>tst_Phase := TaskRunRunning, tst_JobRef := ''j1''\<rparr>)"

lemma tx_retried_run:
  "\<exists>res c' es p a. tx_exec 5 (cluster0\<lparr>cl_taskRuns := [tx_retried], cl_jobs := [tx_job]\<rparr>) = (res, c', GetTR tx_key (Inr tx_retried) # es) \<and>
     StatusTR p a \<in> set es \<and> retry_due tx_retried es tx_job"
  unfolding tx_retried_def
  by (simp add: tx_simps watchJob_def failJob_def maxRetries_def i32_def retry_due_def cong: bind_weak_cong)

lemma taskrun_retries_bounded_witness:
  "\<exists>p a. StatusTR p a \<in> set (snd (snd (tx_exec 5 (cluster0\<lparr>cl_taskRuns := [tx_retried], cl_jobs := [tx_job]\<rparr>)))) \<and>
     tst_RetryCount (tr_Status p) = 1 \<and> tst_JobRef (tr_Status p) = '''' \<and> tr_Phase p = TaskRunRunning"
proof -
  obtain res c' es p a where run: "tx_exec 5 (cluster0\<lparr>cl_taskRuns := [tx_retried], cl_jobs := [tx_job]\<rparr>) =
      (res, c', GetTR tx_key (Inr tx_retried) # es)" and p: "StatusTR p a \<in> set es" "retry_due tx_retried es tx_job"
    using tx_retried_run by blast
  have h: "trs_Type (tr_Spec tx_retried) \<noteq> TaskTypeApproval" "\<not> is_deploy tx_retried"
    "is_i32 (maxRetries (tr_Spec tx_retried))" "is_i32 (tst_RetryCount (tr_Status tx_retried))"
    by (simp_all add: tx_retried_def is_deploy_def maxRetries_def is_i32_def task_status0_def)
  have v: "tst_RetryCount (tr_Status tx_retried) = 0" "tr_Phase tx_retried = TaskRunRunning"
    "trs_RetryPolicy (tr_Spec tx_retried) = Some \<lparr>rp_MaxRetries = 1, rp_Backoff = 0\<rparr>"
    by (simp_all add: tx_retried_def task_status0_def)
  obtain x rest where es:
    "es = GetJob (okey (trs_Namespace (tr_Spec tx_retried)) (tst_JobRef (tr_Status tx_retried))) (Inr tx_job) #
       DeleteJob (meta_key (job_Meta tx_job)) x # rest"
    "case errUnless NotFound x of Some err \<Rightarrow> rest = [] \<and> res = (0, Some err)
     | None \<Rightarrow> \<exists>a. rest = [StatusTR (tx_retried\<lparr>tr_Status := (tr_Status tx_retried)
          \<lparr>tst_RetryCount := tst_RetryCount (tr_Status tx_retried) + 1, tst_JobRef := ''''\<rparr>\<rparr>) a] \<and>
         res = (case a of Inl err \<Rightarrow> (0, Some err) | Inr _ \<Rightarrow> (rp_Backoff \<lparr>rp_MaxRetries = 1, rp_Backoff = 0\<rparr>, None))"
    using taskrun_retries_bounded [OF run h, THEN conjunct1, rule_format, OF conjI, OF p(2) v(3)] by (elim exE conjE)
  then have "rest \<noteq> []" using p(1) by auto
  then obtain a' where "rest = [StatusTR (tx_retried\<lparr>tr_Status := (tr_Status tx_retried)
          \<lparr>tst_RetryCount := tst_RetryCount (tr_Status tx_retried) + 1, tst_JobRef := ''''\<rparr>\<rparr>) a']"
    using es(2) by (cases "errUnless NotFound x") auto
  with p(1) es(1) v(1,2) have "tst_RetryCount (tr_Status p) = 1 \<and> tst_JobRef (tr_Status p) = '''' \<and> tr_Phase p = TaskRunRunning"
    by simp
  moreover have "StatusTR p a \<in> set (snd (snd (tx_exec 5 (cluster0\<lparr>cl_taskRuns := [tx_retried], cl_jobs := [tx_job]\<rparr>))))"
    unfolding run using p(1) by simp
  ultimately show ?thesis by blast
qed

text \<open>Approvals belong to the hub. For an approval task the reconciler starts nothing: it writes the
  status at most once, only while the task is undecided, and then as Pending, with the approval record
  that is there (or a fresh one with the number of approvals the task asks for, one by default); a decision
  that was made is left alone.\<close>

theorem approval_waits_for_hub:
  assumes "exec (TaskRun_Reconcile k r ord now req) c = (res, c', GetTR req (Inr tr) # es)"
    and "trs_Type (tr_Spec tr) = TaskTypeApproval"
  shows "(es = [] \<longleftrightarrow> tr_Phase tr \<notin> {TaskRunUnset, TaskRunPending}) \<and>
     (es \<noteq> [] \<longrightarrow> (\<exists>p a ap. es = [StatusTR p a] \<and> res = (0, errOf a) \<and> tr_Meta p = tr_Meta tr \<and> tr_Spec p = tr_Spec tr \<and>
        tr_Phase p = TaskRunPending \<and> tst_Approval (tr_Status p) = Some ap \<and>
        (case tst_Approval (tr_Status tr) of
           Some old \<Rightarrow> ap = old
         | None \<Rightarrow> as_ApprovedBy ap = [] \<and> as_RequestedAt ap = now \<and> as_RequiredCount ap =
             (case trs_ApprovalConfig (tr_Spec tr) of None \<Rightarrow> 1 | Some cfg \<Rightarrow> ac_RequiredApprovals cfg))))"
  using TaskRun_path [OF assms(1)] assms(2)
  by (cases rule: task_path.cases)
    (auto simp: approvalStatus_phase is_deploy_def split: if_splits, auto simp: approvalStatus_def Let_def split: option.splits)

definition tx_approval :: TaskRun where
  "tx_approval = tx_run (tx_spec TaskTypeApproval None None [] []) task_status0"

lemma tx_approval_run:
  "\<exists>res c' es. tx_exec 5 (cluster0\<lparr>cl_taskRuns := [tx_approval]\<rparr>) = (res, c', GetTR tx_key (Inr tx_approval) # es) \<and> es \<noteq> []"
  unfolding tx_approval_def
  by (simp add: tx_simps reconcileApproval_def approvalStatus_def cong: bind_weak_cong)

lemma approval_waits_for_hub_witness:
  "\<exists>res c' p a. tx_exec 5 (cluster0\<lparr>cl_taskRuns := [tx_approval]\<rparr>) = (res, c', [GetTR tx_key (Inr tx_approval), StatusTR p a]) \<and>
     tr_Phase p = TaskRunPending \<and> map_option as_RequiredCount (tst_Approval (tr_Status p)) = Some 1"
proof -
  obtain res c' es where run: "tx_exec 5 (cluster0\<lparr>cl_taskRuns := [tx_approval]\<rparr>) = (res, c', GetTR tx_key (Inr tx_approval) # es)"
    "es \<noteq> []"
    using tx_approval_run by blast
  have "trs_Type (tr_Spec tx_approval) = TaskTypeApproval" "tst_Approval (tr_Status tx_approval) = None"
    "trs_ApprovalConfig (tr_Spec tx_approval) = None"
    by (simp_all add: tx_approval_def task_status0_def)
  with approval_waits_for_hub [OF run(1)] run show ?thesis by auto
qed

text \<open>C34: A run whose target namespace is not its own never executes anything. \<open>SetControllerReference\<close>
  documents that it refuses an owner in another namespace (the hypothesis), and the task run lives in the namespace of
  its run while its Job and its Rollout are built for the target namespace: so every reconcile of a task run that
  \<open>buildTaskRun\<close> made for such a run, as long as it holds nothing, ends with an error right after it read the task run, writes
  nothing and leaves it as it is.\<close>

theorem cross_namespace_target_never_runs:
  assumes "\<forall>kind owner ob. om_Namespace owner \<noteq> '''' \<longrightarrow> om_Namespace ob \<noteq> om_Namespace owner \<longrightarrow>
      (\<exists>err. setControllerReference k kind owner ob = Inl err)"
    and "om_Namespace (pr_Meta pr) \<noteq> ''''" "prs_TargetNamespace (pr_Spec pr) \<noteq> om_Namespace (pr_Meta pr)"
    and "tr_Spec tr = tr_Spec (buildTaskRun pr task)" "om_Namespace (tr_Meta tr) = om_Namespace (tr_Meta (buildTaskRun pr task))"
    and "pt_Type task \<noteq> TaskTypeApproval" "tr_Phase tr \<notin> {TaskRunSucceeded, TaskRunFailed}"
    and "tst_JobRef (tr_Status tr) = ''''" "tst_RolloutRef (tr_Status tr) = ''''"
    and "exec (TaskRun_Reconcile k r ord now req) c = (res, c', GetTR req (Inr tr) # es)"
  shows "es = [] \<and> (\<exists>err. res = (0, Some err))"
proof -
  have ns: "trs_Namespace (tr_Spec tr) = prs_TargetNamespace (pr_Spec pr)" "trs_Type (tr_Spec tr) = pt_Type task"
    "om_Namespace (tr_Meta tr) = om_Namespace (pr_Meta pr)"
    using assms(4,5) by (simp_all add: buildTaskRun_def Let_def)
  then have "cannot_own k tr" using assms(1-3) unfolding cannot_own_def by metis
  then show ?thesis using emits_exec [OF TaskRun_Reconcile_unowned assms(10)] assms(6-9) ns(2) by simp
qed

text \<open>A run of the namespace \<open>ci\<close> that targets \<open>prod\<close>, on a client that keeps the rule.\<close>

definition tx_strict :: "Cluster kclient" where
  "tx_strict = mem_client\<lparr>setControllerReference := (\<lambda>kind owner ob.
     if om_Namespace owner \<noteq> '''' \<and> om_Namespace ob \<noteq> om_Namespace owner
     then Inl (Err ''cross-namespace owner references are disallowed'') else Inr ob)\<rparr>"

definition tx_cross_run :: PipelineRun where
  "tx_cross_run = (ex_run PipelineRunRunning Map.empty)
     \<lparr>pr_Spec := (pr_Spec (ex_run PipelineRunRunning Map.empty))\<lparr>prs_TargetNamespace := ''prod''\<rparr>\<rparr>"

definition tx_cross :: TaskRun where
  "tx_cross = buildTaskRun tx_cross_run (ex_task ''build'' [])"

lemma tx_cross_exec:
  "\<exists>res c' es. exec (TaskRun_Reconcile tx_strict tx_reconciler id 5 tx_key) (cluster0\<lparr>cl_taskRuns := [tx_cross]\<rparr>) =
     (res, c', GetTR tx_key (Inr tx_cross) # es)"
proof -
  have t: "taskRuns tx_strict = taskRuns mem_client" by (simp add: tx_strict_def)
  have m: "meta_key (tr_Meta tx_cross) = tx_key"
    by (simp add: tx_cross_def tx_cross_run_def buildTaskRun_def ex_run_def ex_task_def meta_key_def meta0_def Let_def)
  have n: "cannot_own tx_strict tx_cross" "trs_Type (tr_Spec tx_cross) = TaskTypeBuild" "tst_JobRef (tr_Status tx_cross) = ''''"
    "tst_Phase (tr_Status tx_cross) = TaskRunUnset"
    by (simp_all add: cannot_own_def tx_strict_def tx_cross_def tx_cross_run_def buildTaskRun_def ex_run_def ex_task_def meta0_def
        task_status0_def Let_def)
  obtain err where "startJob tx_strict tx_reconciler id 5 tx_cross = ret (0, Some err)" using startJob_unowned [OF n(1)] by blast
  then show ?thesis using m n(2-4)
    by (simp add: TaskRun_Reconcile_def exec_def run_call kube_calls t mem_client_simps mem_resource_def cluster0_def
        map_get_def cong: bind_weak_cong)
qed

lemma cross_namespace_target_never_runs_witness:
  "\<exists>res c' err. exec (TaskRun_Reconcile tx_strict tx_reconciler id 5 tx_key) (cluster0\<lparr>cl_taskRuns := [tx_cross]\<rparr>) =
     (res, c', [GetTR tx_key (Inr tx_cross)]) \<and> res = (0, Some err)"
proof -
  obtain res c' es where run: "exec (TaskRun_Reconcile tx_strict tx_reconciler id 5 tx_key) (cluster0\<lparr>cl_taskRuns := [tx_cross]\<rparr>) =
     (res, c', GetTR tx_key (Inr tx_cross) # es)" using tx_cross_exec by blast
  have law: "\<forall>kind owner ob. om_Namespace owner \<noteq> '''' \<longrightarrow> om_Namespace ob \<noteq> om_Namespace owner \<longrightarrow>
      (\<exists>err. setControllerReference tx_strict kind owner ob = Inl err)"
    by (simp add: tx_strict_def)
  have p: "om_Namespace (pr_Meta tx_cross_run) \<noteq> ''''" "prs_TargetNamespace (pr_Spec tx_cross_run) \<noteq> om_Namespace (pr_Meta tx_cross_run)"
    by (simp_all add: tx_cross_run_def ex_run_def meta0_def)
  have t: "pt_Type (ex_task ''build'' []) \<noteq> TaskTypeApproval" "tr_Phase tx_cross \<notin> {TaskRunSucceeded, TaskRunFailed}"
    "tst_JobRef (tr_Status tx_cross) = ''''" "tst_RolloutRef (tr_Status tx_cross) = ''''"
    by (simp_all add: ex_task_def tx_cross_def buildTaskRun_def task_status0_def Let_def)
  have b: "tr_Spec tx_cross = tr_Spec (buildTaskRun tx_cross_run (ex_task ''build'' []))"
    "om_Namespace (tr_Meta tx_cross) = om_Namespace (tr_Meta (buildTaskRun tx_cross_run (ex_task ''build'' [])))"
    by (simp_all add: tx_cross_def)
  from cross_namespace_target_never_runs [OF law p b t run] run show ?thesis by auto
qed

text \<open>A deploy task forgets its outcome. The status a reconcile writes for a canary release whose Rollout is
  known depends on the Rollout it read alone, not on the phase the task had: and the rollback of the
  canary engine is no terminal phase, the next decision of the engine on that Rollout is Progressing. So the task that
  was written Failed with the rollback is written Running again.\<close>

theorem failed_deploy_runs_again:
  assumes "valid_steps (ro_Spec ro)" "index_ok ro" "Evaluate t ro ready desired n healthy = Some d"
    and "d_Phase d = RolloutRollingBack" "rst_CurrentWeight (ro_Status ro) \<noteq> 0"
    and ro1: "ro1 = ro\<lparr>ro_Meta := m1, ro_Status := recordDecision t probed d (ro_Status ro)\<rparr>"
    and "Evaluate t' ro1 ready' desired' n healthy' = Some d'"
    and ro2: "ro2 = ro1\<lparr>ro_Meta := m2, ro_Status := recordDecision t' probed' d' (ro_Status ro1)\<rparr>"
    and run1: "exec (TaskRun_Reconcile k r ord now req) c = (res1, c1, es1)" "is_deploy tr"
      "tst_RolloutRef (tr_Status tr) \<noteq> ''''"
      "es1 = [GetTR req (Inr tr), GetRO key (Inr ro1), StatusTR tr1 a1]"
    and run2: "exec (TaskRun_Reconcile k r ord now' req) c1' = (res2, c2, es2)"
      "es2 = [GetTR req (Inr tr1), GetRO key2 (Inr ro2), StatusTR tr2 a2]"
  shows "tr_Phase tr1 = TaskRunFailed \<and> tr_Phase tr2 = TaskRunRunning"
proof -
  from rollback_resurrected [OF assms(1-6), of t' ready' desired' healthy'] assms(7)
  have d': "d_Phase d' = RolloutProgressing" by auto
  have deploy: "tr1 = tr\<lparr>tr_Status := mirrorRollout now (ro_Status ro1) (tr_Status tr)\<rparr>"
    using TaskRun_path [OF run1(1)] run1(2,4) unfolding run1(4)
    by (auto elim!: task_path.cases deploy_path.cases job_path.cases simp: is_deploy_def)
  have m: "tr_Spec tr1 = tr_Spec tr" "tst_RolloutRef (tr_Status tr1) = tst_RolloutRef (tr_Status tr)"
    "tr_Phase tr1 = TaskRunFailed"
    using assms(4) by (simp_all add: deploy ro1 mirrorRollout_def)
  have "is_deploy tr1" using run1(2) m(1) by (simp add: is_deploy_def)
  then have "tr2 = tr1\<lparr>tr_Status := mirrorRollout now' (ro_Status ro2) (tr_Status tr1)\<rparr>"
    using TaskRun_path [OF run2(1)] run2(2) unfolding run2(2)
    by (auto elim!: task_path.cases deploy_path.cases job_path.cases simp: is_deploy_def)
  then show ?thesis using m(3) d' by (simp add: ro2 mirrorRollout_def)
qed

text \<open>A canary of ten replicas whose probe fails for the third time at 20 percent.\<close>

definition tx_rollout :: Rollout where
  "tx_rollout =
     \<lparr>ro_Meta = meta0\<lparr>om_Name := ''shop'', om_Namespace := ''ci''\<rparr>,
      ro_Spec = \<lparr>ros_WorkloadRef = ''shop'', ros_Replicas = Some 10, ros_StableImage = ''shop:1'',
        ros_CanaryImage = ''shop:2'', ros_Steps = [\<lparr>step_SetWeight = Some 20, step_Pause = None\<rparr>],
        ros_HealthCheck = \<lparr>hc_Type = HealthCheckPodReady, hc_IntervalSeconds = 30, hc_FailureThreshold = 3,
          hc_HTTPPath = '''', hc_PrometheusQueryExpr = '''', hc_PrometheusThreshold = ''''\<rparr>,
        ros_TrafficRouting = \<lparr>tf_Type = TrafficRoutingDeploymentWeight, tf_IngressRef = ''''\<rparr>,
        ros_AutoRollback = True\<rparr>,
      ro_Status = rollout_status0\<lparr>rst_Phase := RolloutProgressing, rst_CurrentWeight := 20, rst_ConsecutiveFailures := 2\<rparr>\<rparr>"

definition tx_deploy :: TaskRun where
  "tx_deploy = tx_run (tx_spec TaskTypeRelease None (Some (ro_Spec tx_rollout)) [] [])
     (task_status0\<lparr>tst_Phase := TaskRunRunning, tst_RolloutRef := ''shop''\<rparr>)"

abbreviation tx_deploy_exec :: "TaskRun \<Rightarrow> Rollout \<Rightarrow> reconcile_result \<times> Cluster \<times> effect list" where
  "tx_deploy_exec tr ro \<equiv> tx_exec 5 (cluster0\<lparr>cl_taskRuns := [tr], cl_rollouts := [ro]\<rparr>)"

lemma tx_deploy_run:
  assumes "om_Name (ro_Meta ro) = ''shop''" "om_Namespace (ro_Meta ro) = ''ci''"
    and "is_deploy tr" "tst_RolloutRef (tr_Status tr) = ''shop''" "trs_Namespace (tr_Spec tr) = ''ci''"
    and "om_Name (tr_Meta tr) = ''r1-build''" "om_Namespace (tr_Meta tr) = ''ci''"
  shows "\<exists>res c' key a. tx_deploy_exec tr ro = (res, c', [GetTR tx_key (Inr tr), GetRO key (Inr ro),
     StatusTR (tr\<lparr>tr_Status := mirrorRollout 5 (ro_Status ro) (tr_Status tr)\<rparr>) a])"
  using assms
  by (clarsimp simp: is_deploy_def tx_simps reconcileDeploy_def cong: bind_weak_cong)

lemma failed_deploy_runs_again_witness:
  "\<exists>(ro1 :: Rollout) (ro2 :: Rollout) tr1 tr2 a1 a2 key1 key2. tr_Phase tr1 = TaskRunFailed \<and> tr_Phase tr2 = TaskRunRunning \<and>
     snd (snd (tx_deploy_exec tx_deploy ro1)) = [GetTR tx_key (Inr tx_deploy), GetRO key1 (Inr ro1), StatusTR tr1 a1] \<and>
     snd (snd (tx_deploy_exec tr1 ro2)) = [GetTR tx_key (Inr tr1), GetRO key2 (Inr ro2), StatusTR tr2 a2]"
proof -
  let ?s = tx_rollout
  have s: "valid_steps (ro_Spec ?s)" "index_ok ?s" "rst_CurrentWeight (ro_Status ?s) \<noteq> 0"
    by (simp_all add: tx_rollout_def valid_steps_def weights_of_def index_ok_def rollout_status0_def)
  obtain d where d: "Evaluate 5 ?s 2 2 10 False = Some d" "d_Phase d = RolloutRollingBack"
    by (simp add: tx_rollout_def Evaluate_def healthDecision_def i32_def Let_def rollout_status0_def)
  define ro1 where "ro1 = ?s\<lparr>ro_Meta := ro_Meta ?s, ro_Status := recordDecision 5 True d (ro_Status ?s)\<rparr>"
  obtain d' where d': "Evaluate 6 ro1 2 2 10 False = Some d'"
    using rollback_resurrected [OF s(1,2) d s(3) ro1_def] by blast
  define ro2 where "ro2 = ro1\<lparr>ro_Meta := ro_Meta ?s, ro_Status := recordDecision 6 True d' (ro_Status ro1)\<rparr>"
  have names: "om_Name (ro_Meta ?s) = ''shop''" "om_Namespace (ro_Meta ?s) = ''ci''" by (simp_all add: tx_rollout_def)
  have deploy: "is_deploy tx_deploy" "tst_RolloutRef (tr_Status tx_deploy) = ''shop''" "trs_Namespace (tr_Spec tx_deploy) = ''ci''"
    "om_Name (tr_Meta tx_deploy) = ''r1-build''" "om_Namespace (tr_Meta tx_deploy) = ''ci''"
    by (simp_all add: tx_deploy_def is_deploy_def)
  obtain res1 c1 key1 tr1 a1 where run1: "tx_deploy_exec tx_deploy ro1 = (res1, c1, [GetTR tx_key (Inr tx_deploy), GetRO key1 (Inr ro1), StatusTR tr1 a1])"
    and tr1: "tr1 = tx_deploy\<lparr>tr_Status := mirrorRollout 5 (ro_Status ro1) (tr_Status tx_deploy)\<rparr>"
    using tx_deploy_run [of ro1 tx_deploy] names deploy by (auto simp: ro1_def)
  have deploy1: "is_deploy tr1" "tst_RolloutRef (tr_Status tr1) = ''shop''" "trs_Namespace (tr_Spec tr1) = ''ci''"
    "om_Name (tr_Meta tr1) = ''r1-build''" "om_Namespace (tr_Meta tr1) = ''ci''"
    using deploy by (simp_all add: tr1 is_deploy_def mirrorRollout_def split: RolloutPhase.split)
  obtain res2 c2 key2 tr2 a2 where run2: "tx_deploy_exec tr1 ro2 = (res2, c2, [GetTR tx_key (Inr tr1), GetRO key2 (Inr ro2), StatusTR tr2 a2])"
    using tx_deploy_run [of ro2 tr1] names deploy1 by (auto simp: ro2_def)
  have ph: "tr_Phase tr1 = TaskRunFailed \<and> tr_Phase tr2 = TaskRunRunning"
    using failed_deploy_runs_again [OF s(1,2) d s(3) ro1_def d' ro2_def run1 deploy(1) _ refl run2 refl] deploy(2) by simp
  have es: "snd (snd (tx_deploy_exec tx_deploy ro1)) = [GetTR tx_key (Inr tx_deploy), GetRO key1 (Inr ro1), StatusTR tr1 a1]"
    "snd (snd (tx_deploy_exec tr1 ro2)) = [GetTR tx_key (Inr tr1), GetRO key2 (Inr ro2), StatusTR tr2 a2]"
    by (simp_all add: run1 run2)
  show ?thesis using ph es by blast
qed

end
