(* ===== verification/Dispatch.thy ===== *)
theory Dispatch
  imports Kube Go_Std "HOL-Library.Multiset" "HOL-Library.Char_ord" "HOL-Library.List_Lexorder"
begin

text \<open>
  \<open>src/internal/dispatch\<close>: the handlers that turn the hub's commands into requests to the API
  server. A handler takes the decoded payload (\<open>json.Unmarshal\<close> of the frame, \<open>Inl\<close> when it does not
  decode) and answers the error, \<open>None\<close> for success. The hash of the specification is \<open>SnapshotSpec\<close>;
  the sorting, the JSON encoder and the digest of the standard library that it calls are its parameter.
  Error messages leave out the formatted values.
\<close>

section \<open>The snapshot of a specification\<close>

text \<open>The projection that is hashed.\<close>

record Proj =
  pj_Name :: string
  pj_Type :: string
  pj_Stage :: string
  pj_ExecutionMode :: string
  pj_DependsOn :: "string list"
  pj_Image :: string
  pj_ScriptPath :: string

text \<open>\<open>sort.Slice\<close> by name (it leaves open the order of equal names), \<open>json.Marshal\<close> and \<open>sha256.Sum256\<close>.\<close>

record SnapshotEnv =
  se_SortSlice :: "PipelineTaskSpec list \<Rightarrow> PipelineTaskSpec list"
  se_Marshal :: "Proj list \<Rightarrow> string result"
  se_Sha256 :: "string \<Rightarrow> string"

definition sort_slice_law :: "SnapshotEnv \<Rightarrow> bool" where
  "sort_slice_law env \<longleftrightarrow> (\<forall>ts. mset (se_SortSlice env ts) = mset ts \<and> sorted (map pt_Name (se_SortSlice env ts)))"

definition projTask :: "PipelineTaskSpec \<Rightarrow> Proj" where
  "projTask t = \<lparr>pj_Name = pt_Name t, pj_Type = task_type_string (pt_Type t), pj_Stage = pt_Stage t,
     pj_ExecutionMode = execution_mode_string (pt_ExecutionMode t), pj_DependsOn = sort (pt_DependsOn t),
     pj_Image = pt_Image t, pj_ScriptPath = pt_ScriptPath t\<rparr>"

definition hex_char :: "nat \<Rightarrow> char" where
  "hex_char d = char_of (if d < 10 then 48 + d else 87 + d)"

definition hex_encode :: "string \<Rightarrow> string" where
  "hex_encode s = concat (map (\<lambda>c. let n = of_char c in [hex_char (n div 16), hex_char (n mod 16)]) s)"

text \<open>The fallback hashes nothing: it is the hex of the count.\<close>

definition SnapshotSpec :: "SnapshotEnv \<Rightarrow> PipelineTaskSpec list \<Rightarrow> string" where
  "SnapshotSpec env tasks =
     (case se_Marshal env (map projTask (se_SortSlice env tasks)) of
        Inl err \<Rightarrow> hex_encode (itoa (int (length tasks)))
      | Inr b \<Rightarrow> hex_encode (se_Sha256 env b))"

text \<open>The order of the tasks does not matter when their names are distinct: the sorted list is the only one.\<close>

lemma sort_slice_unique:
  assumes "sort_slice_law env" "distinct (map pt_Name ts)" "mset us = mset ts" "sorted (map pt_Name us)"
  shows "se_SortSlice env ts = us"
proof -
  have m: "mset (se_SortSlice env ts) = mset us" and s: "sorted (map pt_Name (se_SortSlice env ts))"
    using assms(1,3) by (simp_all add: sort_slice_law_def)
  have "mset (map pt_Name us) = mset (map pt_Name ts)" using assms(3) by simp
  then have "distinct (map pt_Name us)" using assms(2) mset_eq_imp_distinct_iff by blast
  then have inj: "inj_on pt_Name (set us)" by (simp add: distinct_map)
  have names: "map pt_Name (se_SortSlice env ts) = map pt_Name us"
    using s assms(4) m by (metis mset_map properties_for_sort)
  have "set (se_SortSlice env ts) = set us" using m by (rule mset_eq_setD)
  with names inj show ?thesis by (metis map_inj_on sup.idem)
qed

lemma sort_slice_perm:
  assumes "sort_slice_law env" "mset ts = mset us" "distinct (map pt_Name ts)"
  shows "se_SortSlice env ts = se_SortSlice env us"
  using assms by (intro sort_slice_unique) (simp_all add: sort_slice_law_def)

section \<open>Apply\<close>

record ApplyHandler =
  ah_TargetName :: string

definition dispatch_ensureNamespace :: "'c kclient \<Rightarrow> string \<Rightarrow> ('c, go_error option) kio" where
  "dispatch_ensureNamespace k name = do {
     got \<leftarrow> getNs k (okey '''' name);
     case got of
       Inr _ \<Rightarrow> ret None
     | Inl err \<Rightarrow>
         if err \<noteq> NotFound then ret (Some err)
         else do {
           res \<leftarrow> createNs k \<lparr>ns_Meta = meta0\<lparr>om_Name := name, om_Labels := [''sdp.io/managed'' \<mapsto> ''true'']\<rparr>\<rparr>;
           ret (errUnless AlreadyExists res)
         }
   }"

definition errMissingName :: go_error where
  "errMissingName = Err ''dispatch: ApplyPipelineRunPayload.Name is required''"

definition applyNamespace :: "ApplyPipelineRunPayload \<Rightarrow> string" where
  "applyNamespace p = (if ap_Namespace p = '''' then ''sdp-run'' else ap_Namespace p)"

definition appliedRun :: "string \<Rightarrow> ApplyHandler \<Rightarrow> ApplyPipelineRunPayload \<Rightarrow> PipelineRun" where
  "appliedRun snapshot h p =
     (let ann = [''sdp.io/target'' \<mapsto> ah_TargetName h, ''sdp.io/spec-snapshot'' \<mapsto> snapshot];
          ann = (if ap_PublishVersion p \<noteq> '''' then ann(''sdp.io/publish-version'' \<mapsto> ap_PublishVersion p) else ann) in
      \<lparr>pr_Meta = meta0\<lparr>om_Name := ap_Name p, om_Namespace := applyNamespace p,
         om_Labels := [''sdp.io/target'' \<mapsto> ah_TargetName h], om_Annotations := ann\<rparr>,
       pr_Spec = ap_Spec p, pr_Status = run_status0\<rparr>)"

definition Apply_Handle ::
  "'c kclient \<Rightarrow> SnapshotEnv \<Rightarrow> ApplyHandler \<Rightarrow> ApplyPipelineRunPayload result \<Rightarrow> ('c, go_error option) kio" where
  "Apply_Handle k env h payload =
     (case payload of
        Inl err \<Rightarrow> ret (Some err)
      | Inr p \<Rightarrow>
          if ap_Name p = '''' then ret (Some errMissingName)
          else do {
            e \<leftarrow> dispatch_ensureNamespace k (applyNamespace p);
            case e of
              Some err \<Rightarrow> ret (Some err)
            | None \<Rightarrow> do {
                got \<leftarrow> getPR k (okey (applyNamespace p) (ap_Name p));
                case got of
                  Inr _ \<Rightarrow> ret None
                | Inl err \<Rightarrow>
                    if err \<noteq> NotFound then ret (Some err)
                    else do {
                      res \<leftarrow> createPR k (appliedRun (SnapshotSpec env (prs_Tasks (ap_Spec p))) h p);
                      ret (errUnless AlreadyExists res)
                    }
              }
          })"

section \<open>Approve\<close>

text \<open>The list of the task runs with the labels of the command, in all namespaces.\<close>

definition taskLabels :: "string \<Rightarrow> string \<Rightarrow> ListOptions" where
  "taskLabels run task =
     \<lparr>lo_Namespace = None, lo_Labels = [(''sdp.io/pipeline-run'', run), (''sdp.io/task'', task)]\<rparr>"

definition requiredCount :: "TaskRun \<Rightarrow> int" where
  "requiredCount tr =
     (case trs_ApprovalConfig (tr_Spec tr) of Some cfg \<Rightarrow> ac_RequiredApprovals cfg | None \<Rightarrow> 1)"

definition currentApproval :: "gotime \<Rightarrow> string \<Rightarrow> TaskRun \<Rightarrow> ApprovalStatus" where
  "currentApproval now task tr =
     (case tst_Approval (tr_Status tr) of
        Some ap \<Rightarrow> ap
      | None \<Rightarrow> \<lparr>as_TaskName = task, as_RequestedAt = now, as_RequiredCount = requiredCount tr,
                as_ApprovedBy = [], as_RejectedBy = ''''\<rparr>)"

text \<open>The decision on a task run; \<open>None\<close> is the repeated approval, which writes nothing.\<close>

definition decideTask :: "gotime \<Rightarrow> ApproveTaskPayload \<Rightarrow> TaskRun \<Rightarrow> TaskRun option" where
  "decideTask now p tr =
     (let ap = currentApproval now (at_TaskName p) tr; st = tr_Status tr in
      if at_Rejected p then
        Some (tr\<lparr>tr_Status := st\<lparr>tst_Approval := Some (ap\<lparr>as_RejectedBy := at_Approver p\<rparr>), tst_Phase := TaskRunFailed,
          tst_Message := ''rejected by '' @ at_Approver p\<rparr>\<rparr>)
      else if at_Approver p \<in> set (as_ApprovedBy ap) then None
      else
        (let ap = ap\<lparr>as_ApprovedBy := as_ApprovedBy ap @ [at_Approver p]\<rparr>;
             st = st\<lparr>tst_Approval := Some ap\<rparr> in
         Some (tr\<lparr>tr_Status :=
           (if i32 (int (length (as_ApprovedBy ap))) \<ge> as_RequiredCount ap
            then st\<lparr>tst_Phase := TaskRunSucceeded, tst_Message := ''approved''\<rparr> else st)\<rparr>)))"

definition Approve_Handle :: "'c kclient \<Rightarrow> gotime \<Rightarrow> ApproveTaskPayload result \<Rightarrow> ('c, go_error option) kio" where
  "Approve_Handle k now payload =
     (case payload of
        Inl err \<Rightarrow> ret (Some err)
      | Inr p \<Rightarrow>
          if at_PipelineRunName p = '''' \<or> at_TaskName p = ''''
          then ret (Some (Err ''dispatch: approve payload needs pipelineRunName and taskName''))
          else do {
            got \<leftarrow> listTR k (taskLabels (at_PipelineRunName p) (at_TaskName p));
            case got of
              Inl err \<Rightarrow> ret (Some err)
            | Inr items \<Rightarrow>
                (case items of
                   [] \<Rightarrow> ret None
                 | tr # _ \<Rightarrow>
                     (case decideTask now p tr of
                        None \<Rightarrow> ret None
                      | Some tr' \<Rightarrow> do { res \<leftarrow> statusTR k tr'; ret (errUnless NotFound res) }))
          })"

section \<open>Cancel\<close>

fun isTerminalRunPhase :: "PipelineRunPhase \<Rightarrow> bool" where
  "isTerminalRunPhase PipelineRunSucceeded = True"
| "isTerminalRunPhase PipelineRunFailed = True"
| "isTerminalRunPhase PipelineRunCancelled = True"
| "isTerminalRunPhase _ = False"

definition cancelStamped :: "string \<Rightarrow> PipelineRun \<Rightarrow> PipelineRun" where
  "cancelStamped operator pr = pr\<lparr>pr_Meta := (pr_Meta pr)\<lparr>om_Annotations :=
     (om_Annotations (pr_Meta pr))(AnnCancelRequested \<mapsto> ''true'', AnnCancelOperator \<mapsto> operator)\<rparr>\<rparr>"

definition Cancel_Handle :: "'c kclient \<Rightarrow> CancelPipelineRunPayload result \<Rightarrow> ('c, go_error option) kio" where
  "Cancel_Handle k payload =
     (case payload of
        Inl err \<Rightarrow> ret (Some err)
      | Inr p \<Rightarrow>
          if cp_PipelineRunName p = '''' \<or> cp_Namespace p = ''''
          then ret (Some (Err ''dispatch: cancel payload needs pipelineRunName and namespace''))
          else do {
            got \<leftarrow> getPR k (okey (cp_Namespace p) (cp_PipelineRunName p));
            case got of
              Inl err \<Rightarrow> ret (ignoreNotFound err)
            | Inr pr \<Rightarrow>
                if isTerminalRunPhase (pst_Phase (pr_Status pr)) then ret None
                else do { res \<leftarrow> patchPR k pr (cancelStamped (cp_Operator p) pr); ret (errOf res) }
          })"

section \<open>Rollout control\<close>

definition dispatch_annRolloutAction :: string where "dispatch_annRolloutAction = ''sdp.io/rollout-action''"
definition dispatch_annRolloutOper :: string where "dispatch_annRolloutOper = ''sdp.io/rollout-operator''"

definition controlStamped :: "RolloutControlPayload \<Rightarrow> Rollout \<Rightarrow> Rollout" where
  "controlStamped p ro =
     (let ann = (om_Annotations (ro_Meta ro))(dispatch_annRolloutAction \<mapsto> rc_Action p);
          ann = (if rc_Operator p \<noteq> '''' then ann(dispatch_annRolloutOper \<mapsto> rc_Operator p) else ann) in
      ro\<lparr>ro_Meta := (ro_Meta ro)\<lparr>om_Annotations := ann\<rparr>\<rparr>)"

definition RolloutControl_Handle :: "'c kclient \<Rightarrow> RolloutControlPayload result \<Rightarrow> ('c, go_error option) kio" where
  "RolloutControl_Handle k payload =
     (case payload of
        Inl err \<Rightarrow> ret (Some err)
      | Inr p \<Rightarrow>
          if rc_PipelineRunName p = '''' \<or> rc_TaskName p = ''''
          then ret (Some (Err ''dispatch: rollout control payload needs pipelineRunName and taskName''))
          else if rc_Action p \<notin> set [RolloutActionPause, RolloutActionPromote, RolloutActionRollback]
          then ret (Some (Err ''dispatch: unknown rollout action''))
          else do {
            got \<leftarrow> listTR k (taskLabels (rc_PipelineRunName p) (rc_TaskName p));
            case got of
              Inl err \<Rightarrow> ret (Some err)
            | Inr items \<Rightarrow>
                (case items of
                   [] \<Rightarrow> ret None
                 | tr # _ \<Rightarrow>
                     if tst_RolloutRef (tr_Status tr) = '''' then ret None
                     else do {
                       got \<leftarrow> getRO k (okey (trs_Namespace (tr_Spec tr)) (tst_RolloutRef (tr_Status tr)));
                       case got of
                         Inl err \<Rightarrow> ret (Some err)
                       | Inr ro \<Rightarrow> do { res \<leftarrow> patchRO k ro (controlStamped p ro); ret (errOf res) }
                     })
          })"

section \<open>What the handlers request\<close>

text \<open>One request of the decision at most, on the first task run listed.\<close>

lemma Approve_emits:
  "emits (Approve_Handle k now (Inr p)) (\<lambda>res es.
     (\<forall>q x. StatusTR q x \<in> set es \<longrightarrow>
        (\<exists>tr trs. es = [ListTR (taskLabels (at_PipelineRunName p) (at_TaskName p)) (Inr (tr # trs)), StatusTR q x] \<and>
           decideTask now p tr = Some q \<and> res = errUnless NotFound x)) \<and>
     (\<forall>lo tr trs. ListTR lo (Inr (tr # trs)) \<in> set es \<longrightarrow> decideTask now p tr \<noteq> None \<longrightarrow> (\<exists>q x. StatusTR q x \<in> set es)))"
  unfolding Approve_Handle_def by (intro emitsI wp_intro) auto

lemma Cancel_emits:
  "emits (Cancel_Handle k (Inr p)) (\<lambda>res es. let key = okey (cp_Namespace p) (cp_PipelineRunName p) in
     es = [] \<and> res \<noteq> None \<or>
     (\<exists>err. es = [GetPR key (Inl err)] \<and> res = ignoreNotFound err) \<or>
     (\<exists>pr. es = [GetPR key (Inr pr)] \<and> isTerminalRunPhase (pst_Phase (pr_Status pr)) \<and> res = None) \<or>
     (\<exists>pr a. es = [GetPR key (Inr pr), PatchPR pr (cancelStamped (cp_Operator p) pr) a] \<and>
        \<not> isTerminalRunPhase (pst_Phase (pr_Status pr)) \<and> res = errOf a))"
  unfolding Cancel_Handle_def Let_def by (intro emitsI wp_intro) auto

lemma RolloutControl_emits:
  "emits (RolloutControl_Handle k (Inr p)) (\<lambda>res es.
     (\<forall>e\<in>set es. (\<exists>lo a. e = ListTR lo a) \<or> (\<exists>key a. e = GetRO key a) \<or> (\<exists>b q a. e = PatchRO b q a)) \<and>
     (\<forall>ro q a. PatchRO ro q a \<in> set es \<longrightarrow> q = controlStamped p ro \<and> res = errOf a \<and>
        rc_Action p \<in> set [RolloutActionPause, RolloutActionPromote, RolloutActionRollback] \<and>
        (\<exists>lo tr trs. es = [ListTR lo (Inr (tr # trs)),
           GetRO (okey (trs_Namespace (tr_Spec tr)) (tst_RolloutRef (tr_Status tr))) (Inr ro), PatchRO ro q a])))"
  unfolding RolloutControl_Handle_def by (intro emitsI wp_intro) auto

definition ns_event :: "string \<Rightarrow> effect \<Rightarrow> bool" where
  "ns_event name e \<longleftrightarrow> (\<exists>a. e = GetNs (okey '''' name) a) \<or> (\<exists>n a. e = CreateNs n a \<and> om_Name (ns_Meta n) = name)"

lemma ensureNamespace_emits:
  "emits (dispatch_ensureNamespace k name) (\<lambda>res es. list_all (ns_event name) es \<and>
     (res = None \<longrightarrow> (\<exists>x. GetNs (okey '''' name) (Inr x) \<in> set es) \<or>
        (\<exists>n a. CreateNs n a \<in> set es \<and> errUnless AlreadyExists a = None)))"
  unfolding dispatch_ensureNamespace_def by (intro emitsI wp_intro) (auto simp: ns_event_def)

text \<open>The creation of the run comes last, after the namespace is there and a read that did not find it.\<close>

lemma Apply_emits:
  "emits (Apply_Handle k env h (Inr p)) (\<lambda>res es.
     \<forall>pr a. CreatePR pr a \<in> set es \<longrightarrow>
       pr = appliedRun (SnapshotSpec env (prs_Tasks (ap_Spec p))) h p \<and> ap_Name p \<noteq> '''' \<and> res = errUnless AlreadyExists a \<and>
       (\<exists>ns. es = ns @ [GetPR (okey (applyNamespace p) (ap_Name p)) (Inl NotFound), CreatePR pr a] \<and>
          list_all (ns_event (applyNamespace p)) ns \<and>
          ((\<exists>x. GetNs (okey '''' (applyNamespace p)) (Inr x) \<in> set ns) \<or>
           (\<exists>n x. CreateNs n x \<in> set ns \<and> errUnless AlreadyExists x = None))))"
  unfolding Apply_Handle_def Let_def
  by (intro emitsI wp_intro wp_emits [OF ensureNamespace_emits]) (fastforce simp: list_all_iff ns_event_def)+

end
