(* ===== verification/Rerun.thy ===== *)
theory Rerun
  imports Dispatch
begin

text \<open>
  \<open>src/internal/dispatch/rerun_handler.go\<close>: the transitive dependents of a task, a breadth-first search
  over the reversed \<open>DependsOn\<close> edges, and the handler that resets a task run, deletes those of its
  dependents and revives a failed run.
\<close>

section \<open>Downstream tasks\<close>

text \<open>The map of the dependents; a missing key reads as the nil slice.\<close>

fun addDependents :: "string \<Rightarrow> string list \<Rightarrow> (string \<Rightarrow> string list) \<Rightarrow> string \<Rightarrow> string list" where
  "addDependents name [] m = m"
| "addDependents name (dep # deps) m = addDependents name deps (m(dep := m dep @ [name]))"

fun dependentsLoop :: "PipelineTaskSpec list \<Rightarrow> (string \<Rightarrow> string list) \<Rightarrow> string \<Rightarrow> string list" where
  "dependentsLoop [] m = m"
| "dependentsLoop (t # ts) m = dependentsLoop ts (addDependents (pt_Name t) (pt_DependsOn t) m)"

definition dependents :: "PipelineTaskSpec list \<Rightarrow> string \<Rightarrow> string list" where
  "dependents tasks = dependentsLoop tasks (\<lambda>_. [])"

text \<open>The inner loop over the dependents of the current task: the state is \<open>(seen, out, queue)\<close>.\<close>

fun visitAll :: "string list \<Rightarrow> string set \<times> string list \<times> string list \<Rightarrow> string set \<times> string list \<times> string list" where
  "visitAll [] st = st"
| "visitAll (d # ds) (seen, out, queue) =
     (if d \<in> seen then visitAll ds (seen, out, queue)
      else visitAll ds (insert d seen, out @ [d], queue @ [d]))"

lemma set_addDependents:
  "set (addDependents name deps m x) = set (m x) \<union> (if x \<in> set deps then {name} else {})"
  by (induction deps arbitrary: m) auto

lemma set_dependentsLoop:
  "set (dependentsLoop ts m x) = set (m x) \<union> {pt_Name t | t. t \<in> set ts \<and> x \<in> set (pt_DependsOn t)}"
  by (induction ts arbitrary: m) (auto simp: set_addDependents)

lemma set_dependents: "set (dependents tasks x) = {pt_Name t | t. t \<in> set tasks \<and> x \<in> set (pt_DependsOn t)}"
  by (simp add: dependents_def set_dependentsLoop)

lemma dependents_names: "set (dependents tasks x) \<subseteq> pt_Name ` set tasks"
  by (auto simp: set_dependents)

text \<open>What the inner loop does: it appends the unseen dependents, once each, to both lists.\<close>

lemma visitAll_spec:
  "visitAll ds (seen, out, queue) = (seen', out', queue') \<Longrightarrow>
   \<exists>new. out' = out @ new \<and> queue' = queue @ new \<and> seen' = seen \<union> set ds \<and> set new = set ds - seen \<and> distinct new"
proof (induction ds "(seen, out, queue)" arbitrary: seen out queue rule: visitAll.induct)
  case (1 seen out queue)
  then show ?case by simp
next
  case (2 d ds seen out queue)
  show ?case
  proof (cases "d \<in> seen")
    case True
    with 2 show ?thesis by auto
  next
    case False
    with 2(2) [OF False] 2(3) obtain new where "out' = (out @ [d]) @ new" "queue' = (queue @ [d]) @ new"
      "seen' = insert d seen \<union> set ds" "set new = set ds - insert d seen" "distinct new"
      by auto
    with False show ?thesis by (intro exI [of _ "d # new"]) auto
  qed
qed

lemma visitAll_measure:
  assumes "visitAll (dependents tasks cur) (seen, out, queue) = (seen', out', queue')"
  shows "card (pt_Name ` set tasks - seen') + length queue' = card (pt_Name ` set tasks - seen) + length queue"
proof -
  let ?N = "pt_Name ` set tasks"
  from visitAll_spec [OF assms] obtain new where new: "queue' = queue @ new" "seen' = seen \<union> set (dependents tasks cur)"
    "set new = set (dependents tasks cur) - seen" "distinct new" by blast
  have "?N - seen = (?N - seen') \<union> set new" using new(2,3) dependents_names [of tasks cur] by auto
  moreover have "(?N - seen') \<inter> set new = {}" using new(2,3) by auto
  ultimately have "card (?N - seen) = card (?N - seen') + card (set new)"
    by (simp add: card_Un_disjoint)
  then show ?thesis using new(1,4) by (simp add: distinct_card)
qed

text \<open>The search ends: an iteration takes a name off the queue and puts on it names not seen before.\<close>

function downstreamLoop :: "PipelineTaskSpec list \<Rightarrow> string list \<Rightarrow> string set \<Rightarrow> string list \<Rightarrow> string list" where
  "downstreamLoop tasks [] seen out = out"
| "downstreamLoop tasks (cur # queue) seen out =
     (case visitAll (dependents tasks cur) (seen, out, queue) of
        (seen', out', queue') \<Rightarrow> downstreamLoop tasks queue' seen' out')"
  by pat_completeness auto

termination
  by (relation "measure (\<lambda>(tasks, queue, seen, out). card (pt_Name ` set tasks - seen) + length queue)")
    (auto dest!: visitAll_measure [OF sym])

definition DownstreamTasks :: "PipelineTaskSpec list \<Rightarrow> string \<Rightarrow> string list" where
  "DownstreamTasks tasks taskName = downstreamLoop tasks [taskName] {} []"

text \<open>The relation the search closes: \<open>(d, t)\<close> when the task \<open>t\<close> lists \<open>d\<close> in its \<open>DependsOn\<close>.\<close>

definition depends :: "PipelineTaskSpec list \<Rightarrow> (string \<times> string) set" where
  "depends tasks = {(d, pt_Name t) | d t. t \<in> set tasks \<and> d \<in> set (pt_DependsOn t)}"

lemma depends_dependents: "(x, y) \<in> depends tasks \<longleftrightarrow> y \<in> set (dependents tasks x)"
  by (auto simp: depends_def set_dependents)

text \<open>The invariant of the search from \<open>s\<close>: what was put out is reachable and seen, and a name that is no
  longer queued has all its dependents seen.\<close>

definition bfs_inv :: "PipelineTaskSpec list \<Rightarrow> string \<Rightarrow> string list \<Rightarrow> string set \<Rightarrow> string list \<Rightarrow> bool" where
  "bfs_inv tasks s queue seen out \<longleftrightarrow> seen = set out \<and> distinct out \<and> set queue \<subseteq> insert s seen \<and>
     (\<forall>x\<in>seen. (s, x) \<in> (depends tasks)\<^sup>+) \<and>
     (\<forall>x\<in>insert s seen. x \<notin> set queue \<longrightarrow> set (dependents tasks x) \<subseteq> seen)"

lemma bfs_inv_step:
  assumes "bfs_inv tasks s (cur # queue) seen out"
    and v: "visitAll (dependents tasks cur) (seen, out, queue) = (seen', out', queue')"
  shows "bfs_inv tasks s queue' seen' out'"
proof -
  from visitAll_spec [OF v] obtain new where new: "out' = out @ new" "queue' = queue @ new"
    "seen' = seen \<union> set (dependents tasks cur)" "set new = set (dependents tasks cur) - seen" "distinct new" by blast
  have cur: "cur = s \<or> (s, cur) \<in> (depends tasks)\<^sup>+" using assms(1) by (auto simp: bfs_inv_def)
  have "(s, x) \<in> (depends tasks)\<^sup>+" if "x \<in> set (dependents tasks cur)" for x
    using cur that depends_dependents [of cur x tasks] by (auto intro: trancl_into_trancl)
  then show ?thesis using assms(1) new unfolding bfs_inv_def by auto
qed

lemma downstreamLoop_correct:
  "bfs_inv tasks s queue seen out \<Longrightarrow>
   distinct (downstreamLoop tasks queue seen out) \<and> set (downstreamLoop tasks queue seen out) = {x. (s, x) \<in> (depends tasks)\<^sup>+}"
proof (induction tasks queue seen out rule: downstreamLoop.induct)
  case (1 tasks seen out)
  have "x \<in> set out" if "(s, x) \<in> (depends tasks)\<^sup>+" for x
    using that 1 by (induction rule: trancl_induct) (auto simp: bfs_inv_def depends_dependents)
  then show ?case using 1 by (auto simp: bfs_inv_def)
next
  case (2 tasks cur queue seen out)
  obtain seen' out' queue' where v: "visitAll (dependents tasks cur) (seen, out, queue) = (seen', out', queue')"
    by (cases "visitAll (dependents tasks cur) (seen, out, queue)") auto
  from 2(1) [OF v [symmetric] refl bfs_inv_step [OF 2(2) v]] v show ?case by simp
qed

lemma DownstreamTasks_correct:
  "distinct (DownstreamTasks tasks s) \<and> set (DownstreamTasks tasks s) = {x. (s, x) \<in> (depends tasks)\<^sup>+}"
  unfolding DownstreamTasks_def by (rule downstreamLoop_correct) (simp add: bfs_inv_def)

section \<open>The handler\<close>

definition rerunReset :: "TaskRunStatus \<Rightarrow> TaskRunStatus" where
  "rerunReset st = st\<lparr>tst_Phase := TaskRunPending, tst_JobRef := '''', tst_RolloutRef := '''', tst_PodName := '''',
     tst_RetryCount := 0, tst_ExitCode := None, tst_StartTime := None, tst_CompletionTime := None,
     tst_Message := ''rerun requested'', tst_Approval := None\<rparr>"

definition revivedRun :: "PipelineRun \<Rightarrow> PipelineRun" where
  "revivedRun pr = pr\<lparr>pr_Status := (pr_Status pr)\<lparr>pst_Phase := PipelineRunRunning, pst_CompletionTime := None,
     pst_Message := ''rerun requested''\<rparr>\<rparr>"

text \<open>The deletions of the task's Job and Rollout, when it has them.\<close>

definition deleteWork :: "'c kclient \<Rightarrow> TaskRun \<Rightarrow> ('c, go_error option) kio" where
  "deleteWork k tr = do {
     e \<leftarrow> (if tst_JobRef (tr_Status tr) \<noteq> '''' then do {
            res \<leftarrow> deleteJob k (okey (trs_Namespace (tr_Spec tr)) (tst_JobRef (tr_Status tr)));
            ret (errUnless NotFound res) }
          else ret None);
     case e of
       Some err \<Rightarrow> ret (Some err)
     | None \<Rightarrow>
         if tst_RolloutRef (tr_Status tr) \<noteq> '''' then do {
           res \<leftarrow> deleteRO k (okey (trs_Namespace (tr_Spec tr)) (tst_RolloutRef (tr_Status tr)));
           ret (errUnless NotFound res) }
         else ret None
   }"

definition downstreamKey :: "string \<Rightarrow> string \<Rightarrow> string \<Rightarrow> ObjectKey" where
  "downstreamKey ns run name = okey ns (run @ ''-'' @ name)"

fun deleteDownstream :: "'c kclient \<Rightarrow> string \<Rightarrow> string \<Rightarrow> string list \<Rightarrow> ('c, go_error option) kio" where
  "deleteDownstream k ns run [] = ret None"
| "deleteDownstream k ns run (name # names) = do {
     res \<leftarrow> deleteTR k (downstreamKey ns run name);
     case errUnless NotFound res of
       Some err \<Rightarrow> ret (Some err)
     | None \<Rightarrow> deleteDownstream k ns run names
   }"

definition reviveRun :: "'c kclient \<Rightarrow> PipelineRun \<Rightarrow> ('c, go_error option) kio" where
  "reviveRun k pr =
     (if pst_Phase (pr_Status pr) = PipelineRunFailed
      then do { res \<leftarrow> statusPR k (revivedRun pr); ret (errUnless NotFound res) }
      else ret None)"

definition rerunTask :: "'c kclient \<Rightarrow> TaskRun \<Rightarrow> PipelineRun \<Rightarrow> ('c, go_error option) kio" where
  "rerunTask k tr pr = do {
     e \<leftarrow> deleteWork k tr;
     case e of
       Some err \<Rightarrow> ret (Some err)
     | None \<Rightarrow> do {
         res \<leftarrow> statusTR k (tr\<lparr>tr_Status := rerunReset (tr_Status tr)\<rparr>);
         case errUnless NotFound res of
           Some err \<Rightarrow> ret (Some err)
         | None \<Rightarrow> do {
             e \<leftarrow> deleteDownstream k (trs_Namespace (tr_Spec tr)) (om_Name (pr_Meta pr))
                    (DownstreamTasks (prs_Tasks (pr_Spec pr)) (trs_TaskName (tr_Spec tr)));
             case e of
               Some err \<Rightarrow> ret (Some err)
             | None \<Rightarrow> reviveRun k pr
           }
       }
   }"

definition Rerun_Handle :: "'c kclient \<Rightarrow> RerunTaskPayload result \<Rightarrow> ('c, go_error option) kio" where
  "Rerun_Handle k payload =
     (case payload of
        Inl err \<Rightarrow> ret (Some err)
      | Inr p \<Rightarrow>
          if rr_PipelineRunName p = '''' \<or> rr_TaskName p = ''''
          then ret (Some (Err ''dispatch: rerun payload needs pipelineRunName and taskName''))
          else do {
            got \<leftarrow> listTR k (taskLabels (rr_PipelineRunName p) (rr_TaskName p));
            case got of
              Inl err \<Rightarrow> ret (Some err)
            | Inr items \<Rightarrow>
                (case items of
                   [] \<Rightarrow> ret None
                 | tr # _ \<Rightarrow> do {
                     got \<leftarrow> getPR k (okey (trs_Namespace (tr_Spec tr)) (trs_PipelineRunRef (tr_Spec tr)));
                     case got of
                       Inl err \<Rightarrow> ret (Some err)
                     | Inr pr \<Rightarrow> rerunTask k tr pr
                   })
          })"

section \<open>What the handler requests\<close>

definition work_event :: "TaskRun \<Rightarrow> effect \<Rightarrow> bool" where
  "work_event tr e \<longleftrightarrow>
     (\<exists>a. e = DeleteJob (okey (trs_Namespace (tr_Spec tr)) (tst_JobRef (tr_Status tr))) a \<and> tst_JobRef (tr_Status tr) \<noteq> '''') \<or>
     (\<exists>a. e = DeleteRO (okey (trs_Namespace (tr_Spec tr)) (tst_RolloutRef (tr_Status tr))) a \<and> tst_RolloutRef (tr_Status tr) \<noteq> '''')"

text \<open>All of it, in the order of the code; what is gone already counts as deleted.\<close>

definition work_done :: "TaskRun \<Rightarrow> effect list \<Rightarrow> bool" where
  "work_done tr es \<longleftrightarrow> (\<exists>x y. errUnless NotFound x = None \<and> errUnless NotFound y = None \<and>
     es = (if tst_JobRef (tr_Status tr) = '''' then []
           else [DeleteJob (okey (trs_Namespace (tr_Spec tr)) (tst_JobRef (tr_Status tr))) x]) @
          (if tst_RolloutRef (tr_Status tr) = '''' then []
           else [DeleteRO (okey (trs_Namespace (tr_Spec tr)) (tst_RolloutRef (tr_Status tr))) y]))"

lemma deleteWork_emits:
  "emits (deleteWork k tr) (\<lambda>res es. list_all (work_event tr) es \<and> (res = None \<longrightarrow> work_done tr es))"
  unfolding deleteWork_def by (intro emitsI wp_intro) (auto simp: work_event_def work_done_def errUnless_None)

text \<open>The deletions: a prefix of the names, all of them on success.\<close>

definition deletes :: "string \<Rightarrow> string \<Rightarrow> string list \<Rightarrow> effect list \<Rightarrow> bool" where
  "deletes ns run names es \<longleftrightarrow> list_all2 (\<lambda>n e. \<exists>a. e = DeleteTR (downstreamKey ns run n) a) names es"

lemma deletes_simps [simp]:
  "deletes ns run [] es \<longleftrightarrow> es = []"
  "deletes ns run (n # names) (DeleteTR (downstreamKey ns run n) a # es) \<longleftrightarrow> deletes ns run names es"
  by (auto simp: deletes_def)

lemma set_deletes: "deletes ns run names es \<Longrightarrow> (\<exists>a. DeleteTR key a \<in> set es) \<longleftrightarrow> key \<in> downstreamKey ns run ` set names"
  unfolding deletes_def by (induction rule: list_all2_induct) auto

lemma deletes_only: "deletes ns run names es \<Longrightarrow> e \<in> set es \<Longrightarrow> \<exists>n\<in>set names. \<exists>a. e = DeleteTR (downstreamKey ns run n) a"
  unfolding deletes_def by (induction rule: list_all2_induct) auto

lemma deleteDownstream_emits:
  "emits (deleteDownstream k ns run names) (\<lambda>res es. \<exists>done rest. names = done @ rest \<and> deletes ns run done es \<and> (res = None \<longrightarrow> rest = []))"
proof (induction names)
  case Nil
  show ?case by (simp only: deleteDownstream.simps, intro emitsI wp_intro) simp
next
  case (Cons n names)
  show ?case
    apply (simp only: deleteDownstream.simps)
    apply (intro emitsI wp_intro wp_emits [OF Cons.IH])
    subgoal for es a res new
      apply clarify
      subgoal for fin rest
        by (rule exI [of _ "DeleteTR (downstreamKey ns run n) a # new"], simp, rule exI [of _ "n # fin"], rule exI [of _ rest], simp)
      done
    subgoal for es a by (rule exI [of _ "[DeleteTR (downstreamKey ns run n) a]"], simp, rule exI [of _ "[n]"], simp)
    done
qed

text \<open>A rerun that reports no error, step by step.\<close>

definition rerun_done :: "TaskRun \<Rightarrow> PipelineRun \<Rightarrow> effect list \<Rightarrow> bool" where
  "rerun_done tr pr es \<longleftrightarrow> (\<exists>work a dels revive.
     es = work @ StatusTR (tr\<lparr>tr_Status := rerunReset (tr_Status tr)\<rparr>) a # dels @ revive \<and>
     work_done tr work \<and>
     deletes (trs_Namespace (tr_Spec tr)) (om_Name (pr_Meta pr))
       (DownstreamTasks (prs_Tasks (pr_Spec pr)) (trs_TaskName (tr_Spec tr))) dels \<and>
     (if pst_Phase (pr_Status pr) = PipelineRunFailed then \<exists>x. revive = [StatusPR (revivedRun pr) x] else revive = []))"

lemma reviveRun_emits:
  "emits (reviveRun k pr) (\<lambda>res es.
     if pst_Phase (pr_Status pr) = PipelineRunFailed then \<exists>x. es = [StatusPR (revivedRun pr) x] \<and> res = errUnless NotFound x
     else es = [] \<and> res = None)"
  unfolding reviveRun_def by (intro emitsI wp_intro) auto

lemma rerun_doneI:
  "work_done tr work \<Longrightarrow>
   deletes (trs_Namespace (tr_Spec tr)) (om_Name (pr_Meta pr))
     (DownstreamTasks (prs_Tasks (pr_Spec pr)) (trs_TaskName (tr_Spec tr))) dels \<Longrightarrow>
   (if pst_Phase (pr_Status pr) = PipelineRunFailed then \<exists>x. revive = [StatusPR (revivedRun pr) x] else revive = []) \<Longrightarrow>
   rerun_done tr pr (work @ StatusTR (tr\<lparr>tr_Status := rerunReset (tr_Status tr)\<rparr>) a # dels @ revive)"
  unfolding rerun_done_def by blast

lemma rerunTask_emits: "emits (rerunTask k tr pr) (\<lambda>res es. res = None \<longrightarrow> rerun_done tr pr es)"
  unfolding rerunTask_def
  apply (intro emitsI wp_intro wp_emits [OF deleteWork_emits] wp_emits [OF deleteDownstream_emits] wp_emits [OF reviveRun_emits])
  subgoal for es res work a e dels res' revive using rerun_doneI [of tr work pr dels revive a] by (auto split: if_splits)
  by auto

text \<open>Whether or not an error stops it, a rerun changes nothing else.\<close>

definition rerun_event :: "TaskRun \<Rightarrow> PipelineRun \<Rightarrow> effect \<Rightarrow> bool" where
  "rerun_event tr pr e \<longleftrightarrow> work_event tr e \<or> (\<exists>a. e = StatusTR (tr\<lparr>tr_Status := rerunReset (tr_Status tr)\<rparr>) a) \<or>
     (\<exists>n\<in>set (DownstreamTasks (prs_Tasks (pr_Spec pr)) (trs_TaskName (tr_Spec tr))).
        \<exists>a. e = DeleteTR (downstreamKey (trs_Namespace (tr_Spec tr)) (om_Name (pr_Meta pr)) n) a) \<or>
     (pst_Phase (pr_Status pr) = PipelineRunFailed \<and> (\<exists>x. e = StatusPR (revivedRun pr) x))"

lemma rerunTask_events: "emits (rerunTask k tr pr) (\<lambda>res es. list_all (rerun_event tr pr) es)"
proof -
  have dels: "list_all (rerun_event tr pr) es" if "deletes (trs_Namespace (tr_Spec tr)) (om_Name (pr_Meta pr)) done es"
      "DownstreamTasks (prs_Tasks (pr_Spec pr)) (trs_TaskName (tr_Spec tr)) = done @ rest" for "done" rest es
    using deletes_only [OF that(1)] unfolding list_all_iff rerun_event_def that(2) set_append by blast
  have work: "list_all (work_event tr) es \<Longrightarrow> list_all (rerun_event tr pr) es" for es
    by (auto simp: list_all_iff rerun_event_def)
  have reset: "rerun_event tr pr (StatusTR (tr\<lparr>tr_Status := rerunReset (tr_Status tr)\<rparr>) a)" for a
    by (auto simp: rerun_event_def)
  have revive: "pst_Phase (pr_Status pr) = PipelineRunFailed \<Longrightarrow> rerun_event tr pr (StatusPR (revivedRun pr) x)" for x
    by (auto simp: rerun_event_def)
  show ?thesis
    unfolding rerunTask_def
    apply (intro emitsI wp_intro wp_emits [OF deleteWork_emits] wp_emits [OF deleteDownstream_emits] wp_emits [OF reviveRun_emits])
    using work reset revive dels by (auto split: if_splits)
qed

text \<open>The command reads the task run and its run first.\<close>

lemma Rerun_emits:
  "emits (Rerun_Handle k (Inr p)) (\<lambda>res es. let lo = taskLabels (rr_PipelineRunName p) (rr_TaskName p) in
     es = [] \<and> res \<noteq> None \<or>
     (\<exists>err. es = [ListTR lo (Inl err)] \<and> res = Some err) \<or> es = [ListTR lo (Inr [])] \<and> res = None \<or>
     (\<exists>tr trs err. es = [ListTR lo (Inr (tr # trs)), GetPR (okey (trs_Namespace (tr_Spec tr)) (trs_PipelineRunRef (tr_Spec tr))) (Inl err)] \<and> res = Some err) \<or>
     (\<exists>tr trs pr es'. es = ListTR lo (Inr (tr # trs)) # GetPR (okey (trs_Namespace (tr_Spec tr)) (trs_PipelineRunRef (tr_Spec tr))) (Inr pr) # es' \<and>
        list_all (rerun_event tr pr) es' \<and> (res = None \<longrightarrow> rerun_done tr pr es')))"
  unfolding Rerun_Handle_def Let_def
  by (intro emitsI wp_intro wp_emits [OF emits_conj [OF rerunTask_events rerunTask_emits]]) auto

end
