(* ===== verification/Commands.thy ===== *)
theory Commands
  imports Rerun PipelineRun_Controller Rollout_Controller
begin

text \<open>
  The interface between the command handlers (\<open>src/internal/dispatch\<close>) and the reconcilers
  (\<open>src/internal/controller\<close>): the annotations of an object as a mailbox for one command. The handler stamps, the
  reconciler sees that a command is pending and clears it. The contract is the locale \<open>command_mailbox\<close>; the
  cancellation of a run and the control of a rollout are its two interpretations.
\<close>

section \<open>The contract\<close>

text \<open>
  Stamping a valid command makes it pending, clearing leaves none, neither touches the body of the object (what
  the command is about), and clearing forgets every stamp.
\<close>

locale command_mailbox =
  fixes valid :: "'cmd \<Rightarrow> bool"
    and stamp :: "'cmd \<Rightarrow> 'obj \<Rightarrow> 'obj"
    and pending :: "'obj \<Rightarrow> bool"
    and clear :: "'obj \<Rightarrow> 'obj"
    and body :: "'obj \<Rightarrow> 'body"
  assumes pending_stamp: "valid c \<Longrightarrow> pending (stamp c x)"
    and not_pending_clear: "\<not> pending (clear x)"
    and body_stamp: "body (stamp c x) = body x"
    and body_clear: "body (clear x) = body x"
    and clear_stamp: "clear (stamp c x) = clear x"
begin

lemma deliver_body: "body (fold stamp cs x) = body x"
  by (induction cs arbitrary: x) (simp_all add: body_stamp)

lemma deliver_clear: "clear (fold stamp cs x) = clear x"
  by (induction cs arbitrary: x) (simp_all add: clear_stamp)

lemma deliver_pending: "cs \<noteq> [] \<Longrightarrow> valid (last cs) \<Longrightarrow> pending (fold stamp cs x)"
  by (induction cs arbitrary: x) (auto simp: pending_stamp split: if_splits)

lemma deliver_again: "clear (fold stamp cs (clear (fold stamp ds x))) = clear (clear x)"
  by (simp add: deliver_clear)

end

section \<open>Cancellation\<close>

text \<open>\<open>clearCancelAnnotations\<close> is the patch that clears.\<close>

lemma clearCancelAnnotations_cleared:
  "cancel_requested pr \<Longrightarrow>
   clearCancelAnnotations k pr = do { res \<leftarrow> patchPR k pr (cancelCleared pr); ret (errOf res) }"
  by (simp add: clearCancelAnnotations_def cancelCleared_def Let_def)

definition run_body :: "PipelineRun \<Rightarrow> PipelineRunSpec \<times> PipelineRunStatus \<times> string \<times> string" where
  "run_body pr = (pr_Spec pr, pr_Status pr, om_Name (pr_Meta pr), om_Namespace (pr_Meta pr))"

interpretation cancels: command_mailbox "\<lambda>_. True" cancelStamped "\<lambda>pr. cancel_requested pr" cancelCleared run_body
  by unfold_locales
    (simp_all add: cancelStamped_def cancelCleared_def run_body_def cancel_annotations_distinct fun_upd_twist)

section \<open>Rollout control\<close>

definition rollout_body :: "Rollout \<Rightarrow> RolloutSpec \<times> RolloutStatus \<times> string \<times> string" where
  "rollout_body ro = (ro_Spec ro, ro_Status ro, om_Name (ro_Meta ro), om_Namespace (ro_Meta ro))"

lemma control_names:
  "dispatch_annRolloutAction = annRolloutAction" "dispatch_annRolloutOper = annRolloutOper"
  "annRolloutOper \<noteq> annRolloutAction"
  by (simp_all add: dispatch_annRolloutAction_def dispatch_annRolloutOper_def rollout_constants)

interpretation controls: command_mailbox "\<lambda>p. rc_Action p \<noteq> ''''" controlStamped commanded cleared rollout_body
  by unfold_locales
    (use control_names in \<open>auto simp: controlStamped_def commanded_def cleared_def setAnnotations_def rollout_body_def map_get_def Let_def\<close>)

end
