(* ===== verification/Dispatch_Props.thy ===== *)
theory Dispatch_Props
  imports Commands PipelineRun_Props
begin

text \<open>
  The properties of the command handlers, alone and together with the reconcilers that read what they
  wrote, and their witnesses.
\<close>

section \<open>Runs for the witnesses\<close>

definition dx_run :: "PipelineRunPhase \<Rightarrow> PipelineRun" where
  "dx_run phase = (ex_run phase Map.empty)\<lparr>pr_Spec := (pr_Spec (ex_run phase Map.empty))\<lparr>prs_TargetNamespace := ''ci''\<rparr>\<rparr>"

definition dx_taskrun :: "string \<Rightarrow> TaskRunPhase \<Rightarrow> TaskRun" where
  "dx_taskrun name phase =
     (let tr = buildTaskRun (dx_run PipelineRunRunning) (ex_task name []) in
      tr\<lparr>tr_Status := (tr_Status tr)\<lparr>tst_Phase := phase\<rparr>\<rparr>)"

lemma dx_run_views [simp]:
  "om_Name (pr_Meta (dx_run phase)) = ''r1''" "om_Namespace (pr_Meta (dx_run phase)) = ''ci''"
  "om_Annotations (pr_Meta (dx_run phase)) = Map.empty"
  "prs_Tasks (pr_Spec (dx_run phase)) = [ex_task ''build'' [], ex_task ''ship'' [''build'']]"
  "pst_Phase (pr_Status (dx_run phase)) = phase"
  by (simp_all add: dx_run_def ex_run_def meta0_def run_status0_def)

lemma dx_taskrun_views [simp]:
  "om_Namespace (tr_Meta (dx_taskrun name phase)) = ''ci''" "om_Name (tr_Meta (dx_taskrun name phase)) = ''r1-'' @ name"
  "om_Labels (tr_Meta (dx_taskrun name phase)) = [''sdp.io/pipeline-run'' \<mapsto> ''r1'', ''sdp.io/task'' \<mapsto> name]"
  "trs_Namespace (tr_Spec (dx_taskrun name phase)) = ''ci''" "trs_PipelineRunRef (tr_Spec (dx_taskrun name phase)) = ''r1''"
  "trs_TaskName (tr_Spec (dx_taskrun name phase)) = name" "tr_Phase (dx_taskrun name phase) = phase"
  "tst_JobRef (tr_Status (dx_taskrun name phase)) = ''''" "tst_RolloutRef (tr_Status (dx_taskrun name phase)) = ''''"
  "tst_Approval (tr_Status (dx_taskrun name phase)) = None" "trs_ApprovalConfig (tr_Spec (dx_taskrun name phase)) = None"
  by (simp_all add: dx_taskrun_def dx_run_def ex_run_def ex_task_def buildTaskRun_def meta0_def task_status0_def Let_def)

definition dx_failed :: TaskRun where
  "dx_failed = (dx_taskrun ''build'' TaskRunFailed)\<lparr>tr_Status := (tr_Status (dx_taskrun ''build'' TaskRunFailed))\<lparr>tst_JobRef := ''j1''\<rparr>\<rparr>"

lemma dx_failed_views [simp]:
  "tr_Meta dx_failed = tr_Meta (dx_taskrun ''build'' TaskRunFailed)" "tr_Spec dx_failed = tr_Spec (dx_taskrun ''build'' TaskRunFailed)"
  "tst_JobRef (tr_Status dx_failed) = ''j1''" "tst_RolloutRef (tr_Status dx_failed) = ''''"
  by (simp_all add: dx_failed_def)

definition dx_cluster :: "PipelineRunPhase \<Rightarrow> Cluster" where
  "dx_cluster phase = cluster0\<lparr>cl_pipelineRuns := [dx_run phase],
     cl_taskRuns := [dx_failed, dx_taskrun ''ship'' TaskRunPending]\<rparr>"

lemma dx_downstream: "DownstreamTasks [ex_task ''build'' [], ex_task ''ship'' [''build'']] ''build'' = [''ship'']"
  by (simp add: DownstreamTasks_def dependents_def ex_task_def)

abbreviation dx_rerun :: RerunTaskPayload where
  "dx_rerun \<equiv> \<lparr>rr_PipelineRunName = ''r1'', rr_TaskName = ''build'', rr_Operator = ''ada''\<rparr>"

lemma dx_rerun_run:
  "\<exists>c' lo trs es. exec (Rerun_Handle mem_client (Inr dx_rerun)) (dx_cluster phase) =
     (None, c', ListTR lo (Inr (dx_failed # trs)) # GetPR (okey ''ci'' ''r1'') (Inr (dx_run phase)) # es)"
  by (cases "phase = PipelineRunFailed")
    (simp_all add: dx_cluster_def run_simps Rerun_Handle_def rerunTask_def deleteWork_def deleteDownstream.simps reviveRun_def
      taskLabels_def downstreamKey_def dx_downstream rerunReset_def revivedRun_def cong: bind_weak_cong)

section \<open>Rerun\<close>

text \<open>C15: The search for the downstream tasks ends and finds, once each, exactly the tasks that depend on the given
  one directly or through others; with a cycle through it, the task itself is among them.\<close>

theorem downstream_is_closure:
  "distinct (DownstreamTasks tasks s) \<and>
   (\<forall>n. n \<in> set (DownstreamTasks tasks s) \<longleftrightarrow>
      (s, n) \<in> {(d, pt_Name t) | d t. t \<in> set tasks \<and> d \<in> set (pt_DependsOn t)}\<^sup>+)"
  using DownstreamTasks_correct [of tasks s] by (simp add: depends_def set_eq_iff)

text \<open>C14: A rerun that reports no error has made exactly these requests, in this order. It deleted the Job the task run
  held and then the Rollout it held (each only if it held one, by its name in the namespace of the task); it wrote the
  task run back as Pending without Job, Rollout, pod, retries, outcome and approval (so its reconciler starts over); it
  requested the deletion of the task runs of exactly the tasks downstream; and, only if the run had
  Failed, it wrote that back as Running. Nothing else is changed.\<close>

theorem rerun_resets_and_prunes:
  assumes "exec (Rerun_Handle k (Inr p)) c = (None, c', ListTR lo (Inr (tr # trs)) # GetPR key (Inr pr) # es)"
  shows "\<exists>x y q a dels revive.
     es = (if tst_JobRef (tr_Status tr) = '''' then []
           else [DeleteJob (okey (trs_Namespace (tr_Spec tr)) (tst_JobRef (tr_Status tr))) x]) @
          (if tst_RolloutRef (tr_Status tr) = '''' then []
           else [DeleteRO (okey (trs_Namespace (tr_Spec tr)) (tst_RolloutRef (tr_Status tr))) y]) @
          StatusTR q a # dels @ revive \<and>
     x \<in> {Inl NotFound, Inr ()} \<and> y \<in> {Inl NotFound, Inr ()} \<and>
     tr_Meta q = tr_Meta tr \<and> tr_Spec q = tr_Spec tr \<and> tst_Phase (tr_Status q) = TaskRunPending \<and>
     tst_JobRef (tr_Status q) = '''' \<and> tst_RolloutRef (tr_Status q) = '''' \<and> tst_PodName (tr_Status q) = '''' \<and>
     tst_RetryCount (tr_Status q) = 0 \<and> tst_ExitCode (tr_Status q) = None \<and> tst_Approval (tr_Status q) = None \<and>
     tst_StartTime (tr_Status q) = None \<and> tst_CompletionTime (tr_Status q) = None \<and>
     (\<forall>key'. (\<exists>x. DeleteTR key' x \<in> set dels) \<longleftrightarrow>
        (\<exists>n. (trs_TaskName (tr_Spec tr), n) \<in> (depends (prs_Tasks (pr_Spec pr)))\<^sup>+ \<and>
             key' = okey (trs_Namespace (tr_Spec tr)) (om_Name (pr_Meta pr) @ ''-'' @ n))) \<and>
     length dels = card {n. (trs_TaskName (tr_Spec tr), n) \<in> (depends (prs_Tasks (pr_Spec pr)))\<^sup>+} \<and>
     (if pst_Phase (pr_Status pr) = PipelineRunFailed
      then \<exists>q' x. revive = [StatusPR q' x] \<and> pst_Phase (pr_Status q') = PipelineRunRunning \<and> pr_Spec q' = pr_Spec pr
      else revive = [])"
proof -
  have "rerun_done tr pr es"
    using emits_exec [OF Rerun_emits assms] by (auto simp: Let_def)
  then obtain work a dels revive where
    es: "es = work @ StatusTR (tr\<lparr>tr_Status := rerunReset (tr_Status tr)\<rparr>) a # dels @ revive" and work: "work_done tr work"
    and dels: "deletes (trs_Namespace (tr_Spec tr)) (om_Name (pr_Meta pr))
      (DownstreamTasks (prs_Tasks (pr_Spec pr)) (trs_TaskName (tr_Spec tr))) dels"
    and revive: "if pst_Phase (pr_Status pr) = PipelineRunFailed then \<exists>x. revive = [StatusPR (revivedRun pr) x] else revive = []"
    unfolding rerun_done_def by blast
  obtain x y where xy: "work = (if tst_JobRef (tr_Status tr) = '''' then []
           else [DeleteJob (okey (trs_Namespace (tr_Spec tr)) (tst_JobRef (tr_Status tr))) x]) @
          (if tst_RolloutRef (tr_Status tr) = '''' then []
           else [DeleteRO (okey (trs_Namespace (tr_Spec tr)) (tst_RolloutRef (tr_Status tr))) y])"
    "x \<in> {Inl NotFound, Inr ()}" "y \<in> {Inl NotFound, Inr ()}"
    using work by (auto simp: work_done_def errUnless_None)
  note closure = DownstreamTasks_correct [of "prs_Tasks (pr_Spec pr)" "trs_TaskName (tr_Spec tr)"]
  have n: "length dels = card {n. (trs_TaskName (tr_Spec tr), n) \<in> (depends (prs_Tasks (pr_Spec pr)))\<^sup>+}"
    using dels closure by (metis deletes_def distinct_card list_all2_lengthD)
  have keys: "(\<exists>x. DeleteTR key' x \<in> set dels) \<longleftrightarrow>
      (\<exists>n. (trs_TaskName (tr_Spec tr), n) \<in> (depends (prs_Tasks (pr_Spec pr)))\<^sup>+ \<and>
           key' = okey (trs_Namespace (tr_Spec tr)) (om_Name (pr_Meta pr) @ ''-'' @ n))" for key'
    using set_deletes [OF dels, of key'] closure by (auto simp: downstreamKey_def)
  have run: "if pst_Phase (pr_Status pr) = PipelineRunFailed
      then \<exists>q' x. revive = [StatusPR q' x] \<and> pst_Phase (pr_Status q') = PipelineRunRunning \<and> pr_Spec q' = pr_Spec pr
      else revive = []"
    using revive by (auto simp: revivedRun_def split: if_splits)
  have q: "tst_Phase (rerunReset st) = TaskRunPending \<and> tst_JobRef (rerunReset st) = '''' \<and> tst_RolloutRef (rerunReset st) = '''' \<and>
     tst_PodName (rerunReset st) = '''' \<and> tst_RetryCount (rerunReset st) = 0 \<and> tst_ExitCode (rerunReset st) = None \<and>
     tst_Approval (rerunReset st) = None \<and> tst_StartTime (rerunReset st) = None \<and> tst_CompletionTime (rerunReset st) = None" for st
    by (simp add: rerunReset_def)
  show ?thesis
    by (rule exI [of _ x], rule exI [of _ y], rule exI [of _ "tr\<lparr>tr_Status := rerunReset (tr_Status tr)\<rparr>"], rule exI [of _ a],
        rule exI [of _ dels], rule exI [of _ revive])
      (use es xy keys n run q in simp)
qed

lemma dx_depends: "(''build'', ''ship'') \<in> (depends [ex_task ''build'' [], ex_task ''ship'' [''build'']])\<^sup>+"
  by (rule r_into_trancl) (simp add: depends_def, rule exI [of _ "ex_task ''ship'' [''build'']"], simp add: ex_task_def)

lemma rerun_resets_and_prunes_witness:
  "\<exists>c' lo trs es x q y. exec (Rerun_Handle mem_client (Inr dx_rerun)) (dx_cluster PipelineRunFailed) =
     (None, c', ListTR lo (Inr (dx_failed # trs)) # GetPR (okey ''ci'' ''r1'') (Inr (dx_run PipelineRunFailed)) # es) \<and>
     (\<exists>z es'. es = DeleteJob (okey ''ci'' ''j1'') z # es') \<and>
     DeleteTR (okey ''ci'' ''r1-ship'') x \<in> set es \<and> StatusPR q y \<in> set es \<and> pst_Phase (pr_Status q) = PipelineRunRunning"
proof -
  obtain c' lo trs es where run: "exec (Rerun_Handle mem_client (Inr dx_rerun)) (dx_cluster PipelineRunFailed) =
     (None, c', ListTR lo (Inr (dx_failed # trs)) # GetPR (okey ''ci'' ''r1'') (Inr (dx_run PipelineRunFailed)) # es)"
    using dx_rerun_run by blast
  obtain x y q a dels revive where
    "es = (if tst_JobRef (tr_Status dx_failed) = '''' then []
           else [DeleteJob (okey (trs_Namespace (tr_Spec dx_failed)) (tst_JobRef (tr_Status dx_failed))) x]) @
          (if tst_RolloutRef (tr_Status dx_failed) = '''' then []
           else [DeleteRO (okey (trs_Namespace (tr_Spec dx_failed)) (tst_RolloutRef (tr_Status dx_failed))) y]) @
          StatusTR q a # dels @ revive"
    "\<forall>key'. (\<exists>x. DeleteTR key' x \<in> set dels) \<longleftrightarrow>
        (\<exists>n. (trs_TaskName (tr_Spec dx_failed), n) \<in> (depends (prs_Tasks (pr_Spec (dx_run PipelineRunFailed))))\<^sup>+ \<and>
             key' = okey (trs_Namespace (tr_Spec dx_failed)) (om_Name (pr_Meta (dx_run PipelineRunFailed)) @ ''-'' @ n))"
    "if pst_Phase (pr_Status (dx_run PipelineRunFailed)) = PipelineRunFailed
      then \<exists>q' x. revive = [StatusPR q' x] \<and> pst_Phase (pr_Status q') = PipelineRunRunning \<and>
        pr_Spec q' = pr_Spec (dx_run PipelineRunFailed)
      else revive = []"
    using rerun_resets_and_prunes [OF run] by (elim exE conjE)
  with dx_depends have es: "es = DeleteJob (okey ''ci'' ''j1'') x # StatusTR q a # dels @ revive"
    and del: "\<exists>x. DeleteTR (okey ''ci'' ''r1-ship'') x \<in> set dels"
    and rev: "\<exists>q' x. revive = [StatusPR q' x] \<and> pst_Phase (pr_Status q') = PipelineRunRunning"
    by auto
  show ?thesis using run del rev unfolding es by fastforce
qed

text \<open>A rerun inside a Succeeded run loses the tasks downstream. The handler deletes their task runs, but it
  does not revive the run, and the reconciler of the run, which is still Succeeded, recreates none of them.\<close>

theorem rerun_of_succeeded_run_loses_tasks:
  assumes "exec (Rerun_Handle k (Inr p)) c = (None, c', ListTR lo (Inr (tr # trs)) # GetPR key (Inr pr) # es)"
    and "pst_Phase (pr_Status pr) = PipelineRunSucceeded"
    and "(trs_TaskName (tr_Spec tr), n) \<in> (depends (prs_Tasks (pr_Spec pr)))\<^sup>+"
    and "exec (PipelineRun_Reconcile k' r ord now req) c1 = (res, c1', GetPR req (Inr pr1) # es1)" "pr_Status pr1 = pr_Status pr"
  shows "(\<exists>a. DeleteTR (okey (trs_Namespace (tr_Spec tr)) (om_Name (pr_Meta pr) @ ''-'' @ n)) a \<in> set es) \<and>
     (\<forall>q a. StatusPR q a \<notin> set es) \<and> (\<forall>q a. CreateTR q a \<notin> set es1)"
proof -
  have done1: "rerun_done tr pr es"
    using emits_exec [OF Rerun_emits assms(1)] by (auto simp: Let_def)
  then obtain dels where dels: "set dels \<subseteq> set es"
    "deletes (trs_Namespace (tr_Spec tr)) (om_Name (pr_Meta pr))
      (DownstreamTasks (prs_Tasks (pr_Spec pr)) (trs_TaskName (tr_Spec tr))) dels"
    unfolding rerun_done_def by fastforce
  have "list_all (rerun_event tr pr) es"
    using emits_exec [OF Rerun_emits assms(1)] by (auto simp: Let_def)
  then have no: "StatusPR q a \<notin> set es" for q a
    using assms(2) by (auto simp: list_all_iff rerun_event_def work_event_def)
  have "n \<in> set (DownstreamTasks (prs_Tasks (pr_Spec pr)) (trs_TaskName (tr_Spec tr)))"
    using DownstreamTasks_correct assms(3) by blast
  then have "\<exists>a. DeleteTR (downstreamKey (trs_Namespace (tr_Spec tr)) (om_Name (pr_Meta pr)) n) a \<in> set dels"
    using set_deletes [OF dels(2)] by blast
  then have del: "\<exists>a. DeleteTR (okey (trs_Namespace (tr_Spec tr)) (om_Name (pr_Meta pr) @ ''-'' @ n)) a \<in> set es"
    using dels(1) by (auto simp: downstreamKey_def)
  have "run_path k' r ord now req (snd res) (GetPR req (Inr pr1) # es1)" using Reconcile_path [OF assms(4)] by simp
  from run_path_terminal [OF this] assms(2,5) have "CreateTR q a \<notin> set es1" for q a
    by (auto simp: isTerminalPhase_def split: if_splits)
  with no del show ?thesis by blast
qed

lemma rerun_of_succeeded_run_loses_tasks_witness:
  "\<exists>c' lo trs es x. exec (Rerun_Handle mem_client (Inr dx_rerun)) (dx_cluster PipelineRunSucceeded) =
     (None, c', ListTR lo (Inr (dx_failed # trs)) # GetPR (okey ''ci'' ''r1'') (Inr (dx_run PipelineRunSucceeded)) # es) \<and>
     DeleteTR (okey ''ci'' ''r1-ship'') x \<in> set es \<and> (\<forall>q a. StatusPR q a \<notin> set es)"
proof -
  obtain c' lo trs es where run: "exec (Rerun_Handle mem_client (Inr dx_rerun)) (dx_cluster PipelineRunSucceeded) =
     (None, c', ListTR lo (Inr (dx_failed # trs)) # GetPR (okey ''ci'' ''r1'') (Inr (dx_run PipelineRunSucceeded)) # es)"
    using dx_rerun_run by blast
  obtain res c1' es1 where rec: "exec (PipelineRun_Reconcile mem_client \<lparr>prr_Conn = True, prr_TargetName = ''t1''\<rparr> (map snd) 5 (okey ''ci'' ''r1''))
      (cluster0\<lparr>cl_pipelineRuns := [dx_run PipelineRunSucceeded]\<rparr>) = (res, c1', GetPR (okey ''ci'' ''r1'') (Inr (dx_run PipelineRunSucceeded)) # es1)"
    by (simp add: run_simps PipelineRun_Reconcile_def applyCancelIfRequested_def isTerminalPhase_def cong: bind_weak_cong)
  show ?thesis
    using rerun_of_succeeded_run_loses_tasks [OF run _ _ rec refl, of "''ship''"] dx_depends run by auto
qed

section \<open>Approvals\<close>

text \<open>The decisions of several commands, one after the other, each on the task run the one before wrote.\<close>

definition decideAll :: "gotime \<Rightarrow> ApproveTaskPayload list \<Rightarrow> TaskRun \<Rightarrow> TaskRun" where
  "decideAll now ps tr = foldl (\<lambda>tr p. case decideTask now p tr of None \<Rightarrow> tr | Some tr' \<Rightarrow> tr') tr ps"

lemma decideAll_simps [simp]:
  "decideAll now [] tr = tr"
  "decideAll now (ps @ [p]) tr = (case decideTask now p (decideAll now ps tr) of None \<Rightarrow> decideAll now ps tr | Some tr' \<Rightarrow> tr')"
  unfolding decideAll_def by (simp_all only: foldl_append foldl.simps)

text \<open>C16: Approvals count approvers. Whatever sequence of approving commands a task run gets, none of them a
  rejection, it records each approver once, and it is approved exactly when the distinct approvers reach
  the number the task asks for (and at least one command came); until then its phase stays.\<close>

theorem approval_quorum:
  assumes "tst_Approval (tr_Status tr) = None" "tst_Phase (tr_Status tr) \<noteq> TaskRunSucceeded"
    and "\<forall>p\<in>set ps. \<not> at_Rejected p" "length ps < 2 ^ 31" "ps \<noteq> []"
  shows "\<exists>ap. tst_Approval (tr_Status (decideAll now ps tr)) = Some ap \<and>
     distinct (as_ApprovedBy ap) \<and> set (as_ApprovedBy ap) = at_Approver ` set ps \<and>
     as_RequiredCount ap = requiredCount tr \<and>
     tst_Phase (tr_Status (decideAll now ps tr)) =
       (if requiredCount tr \<le> int (card (at_Approver ` set ps)) then TaskRunSucceeded else tst_Phase (tr_Status tr))"
  using assms(3-5)
proof (induction ps rule: rev_induct)
  case Nil
  then show ?case by simp
next
  case (snoc p ps)
  have small: "i32 (int n) = int n" if "n \<le> Suc (length ps)" for n
    using that snoc.prems(2) by (intro i32_id) (simp add: is_i32_def)
  have card: "card (at_Approver ` set ps) \<le> length ps" by (metis card_image_le card_length finite_set le_trans)
  show ?case
  proof (cases "ps = []")
    case True
    have "decideAll now [p] tr = (case decideTask now p tr of None \<Rightarrow> tr | Some tr' \<Rightarrow> tr')" by (simp add: decideAll_def)
    then show ?thesis
      using True assms(1) snoc.prems(1) small [of 1] by (simp add: decideTask_def currentApproval_def Let_def)
  next
    case False
    then obtain ap where ap: "tst_Approval (tr_Status (decideAll now ps tr)) = Some ap"
      "distinct (as_ApprovedBy ap)" "set (as_ApprovedBy ap) = at_Approver ` set ps" "as_RequiredCount ap = requiredCount tr"
      "tst_Phase (tr_Status (decideAll now ps tr)) =
        (if requiredCount tr \<le> int (card (at_Approver ` set ps)) then TaskRunSucceeded else tst_Phase (tr_Status tr))"
      using snoc by auto
    have len: "length (as_ApprovedBy ap) = card (at_Approver ` set ps)" using ap(2,3) by (metis distinct_card)
    show ?thesis
    proof (cases "at_Approver p \<in> at_Approver ` set ps")
      case True
      then show ?thesis using ap snoc.prems(1) by (simp add: decideTask_def currentApproval_def Let_def insert_absorb)
    next
      case False
      then show ?thesis
        using ap snoc.prems(1) small [of "Suc (card (at_Approver ` set ps))"] card len
        by (auto simp: decideTask_def currentApproval_def Let_def)
    qed
  qed
qed

abbreviation dx_vote :: "string \<Rightarrow> bool \<Rightarrow> ApproveTaskPayload" where
  "dx_vote who rej \<equiv> \<lparr>at_PipelineRunName = ''r1'', at_TaskName = ''gate'', at_Approver = who, at_Rejected = rej\<rparr>"

lemma approval_quorum_witness:
  "tst_Phase (tr_Status (decideAll 5 [dx_vote ''ada'' False, dx_vote ''ada'' False, dx_vote ''bob'' False]
     (dx_taskrun ''gate'' TaskRunPending))) = TaskRunSucceeded"
  using approval_quorum [of "dx_taskrun ''gate'' TaskRunPending" "[dx_vote ''ada'' False, dx_vote ''ada'' False, dx_vote ''bob'' False]" 5]
  by (auto simp: requiredCount_def)

text \<open>A rejection is not final. The handler looks neither at the phase nor at the type of the task run it finds: an
  approval that completes the count turns a task that was rejected (Failed) into Succeeded, and the record
  still names who rejected it.\<close>

theorem approval_overrides_rejection:
  assumes "decideTask now p1 tr = Some tr1" "at_Rejected p1" "\<not> at_Rejected p2"
    and "at_Approver p2 \<notin> set (as_ApprovedBy (currentApproval now (at_TaskName p1) tr))"
    and "as_RequiredCount (currentApproval now (at_TaskName p1) tr) \<le>
      i32 (int (length (as_ApprovedBy (currentApproval now (at_TaskName p1) tr))) + 1)"
  shows "tst_Phase (tr_Status tr1) = TaskRunFailed \<and>
     (\<exists>tr2. decideTask now' p2 tr1 = Some tr2 \<and> tst_Phase (tr_Status tr2) = TaskRunSucceeded \<and>
        map_option as_RejectedBy (tst_Approval (tr_Status tr2)) = Some (at_Approver p1))"
proof -
  have tr1: "tr1 = tr\<lparr>tr_Status := (tr_Status tr)\<lparr>tst_Approval :=
      Some ((currentApproval now (at_TaskName p1) tr)\<lparr>as_RejectedBy := at_Approver p1\<rparr>), tst_Phase := TaskRunFailed,
      tst_Message := ''rejected by '' @ at_Approver p1\<rparr>\<rparr>"
    using assms(1,2) by (simp add: decideTask_def Let_def)
  have ap: "currentApproval now' task tr1 = (currentApproval now (at_TaskName p1) tr)\<lparr>as_RejectedBy := at_Approver p1\<rparr>" for task
    by (simp add: currentApproval_def [of now' task tr1]) (simp add: tr1)
  have "tst_Phase (tr_Status tr1) = TaskRunFailed" by (simp add: tr1)
  then show ?thesis
    using assms(3-5) by (simp add: decideTask_def ap Let_def add.commute)
qed

lemma approval_overrides_rejection_witness:
  "\<exists>tr1 tr2. decideTask 5 (dx_vote ''ada'' True) (dx_taskrun ''gate'' TaskRunPending) = Some tr1 \<and>
     tst_Phase (tr_Status tr1) = TaskRunFailed \<and> decideTask 6 (dx_vote ''bob'' False) tr1 = Some tr2 \<and>
     tst_Phase (tr_Status tr2) = TaskRunSucceeded"
proof -
  obtain tr1 where tr1: "decideTask 5 (dx_vote ''ada'' True) (dx_taskrun ''gate'' TaskRunPending) = Some tr1"
    by (simp add: decideTask_def Let_def)
  have ap: "as_ApprovedBy (currentApproval 5 t (dx_taskrun ''gate'' TaskRunPending)) = []"
    "as_RequiredCount (currentApproval 5 t (dx_taskrun ''gate'' TaskRunPending)) = 1" for t
    by (simp_all add: currentApproval_def requiredCount_def)
  show ?thesis
    using approval_overrides_rejection [OF tr1, of "dx_vote ''bob'' False" 6] ap tr1 by (auto simp: i32_def)
qed

section \<open>Cancellation\<close>

text \<open>C35: The cancel command and the reconciler fit together. The handler writes nothing but the request: it patches
  a run that is not over with the two annotations and leaves its specification and status alone. A reconcile
  that reads the patched run creates no task run, and the only phase it can write is Cancelled.\<close>

theorem cancel_command_obeyed:
  assumes "exec (Cancel_Handle k (Inr p)) c = (res, c', es)" "PatchPR pr pr' a \<in> set es"
    and "exec (PipelineRun_Reconcile k' r ord now req) c1 = (res1, c1', GetPR req (Inr pr') # es1)"
  shows "es = [GetPR (okey (cp_Namespace p) (cp_PipelineRunName p)) (Inr pr), PatchPR pr pr' a] \<and>
     pr_Spec pr' = pr_Spec pr \<and> pr_Status pr' = pr_Status pr \<and> \<not> isTerminalPhase (pst_Phase (pr_Status pr)) \<and>
     om_Annotations (pr_Meta pr') = (om_Annotations (pr_Meta pr))(AnnCancelRequested \<mapsto> ''true'', AnnCancelOperator \<mapsto> cp_Operator p) \<and>
     (\<forall>tr x. CreateTR tr x \<notin> set es1) \<and> (\<forall>q x. StatusPR q x \<in> set es1 \<longrightarrow> pst_Phase (pr_Status q) = PipelineRunCancelled)"
proof -
  have phase: "isTerminalRunPhase ph \<longleftrightarrow> isTerminalPhase ph" for ph by (cases ph) (simp_all add: isTerminalPhase_def)
  have patch: "es = [GetPR (okey (cp_Namespace p) (cp_PipelineRunName p)) (Inr pr), PatchPR pr pr' a]"
    "pr' = cancelStamped (cp_Operator p) pr" "\<not> isTerminalPhase (pst_Phase (pr_Status pr))"
    using emits_exec [OF Cancel_emits assms(1)] assms(2) by (auto simp: Let_def phase)
  have req: "cancel_requested pr'" "\<not> isTerminalPhase (pst_Phase (pr_Status pr'))"
    using patch(3) by (simp_all add: patch(2) cancelStamped_def)
  have "run_path k' r ord now req (snd res1) (GetPR req (Inr pr') # es1)" using Reconcile_path [OF assms(3)] by simp
  from run_path_GetPR [OF this req] have path: "cancel_path r ord now pr' (snd res1) es1" .
  have "pst_Phase (pr_Status q) = PipelineRunCancelled" if "StatusPR q x \<in> set es1" for q x
    using cancel_path_status [OF path that] by (auto simp: cancelled_pr_def)
  then show ?thesis
    using patch cancel_path_no_create [OF path] by (simp add: cancelStamped_def)
qed

lemma dx_cancel_run:
  "\<exists>res c' pr' a. exec (Cancel_Handle mem_client (Inr \<lparr>cp_PipelineRunName = ''r1'', cp_Namespace = ''ci'', cp_Operator = ''ada''\<rparr>))
     (cluster0\<lparr>cl_pipelineRuns := [ex_run PipelineRunRunning Map.empty]\<rparr>) =
     (res, c', [GetPR (okey ''ci'' ''r1'') (Inr (ex_run PipelineRunRunning Map.empty)), PatchPR (ex_run PipelineRunRunning Map.empty) pr' a]) \<and>
     pr' = cancelStamped ''ada'' (ex_run PipelineRunRunning Map.empty)"
  by (simp add: ex_run_def run_status0_def run_simps Cancel_Handle_def cancelStamped_def cong: bind_weak_cong)

lemma dx_cancelled_run:
  "\<exists>res c' es. ex_exec (cancelStamped ''ada'' (ex_run PipelineRunRunning Map.empty)) [ex_taskrun ''build'' TaskRunRunning] =
     (res, c', GetPR (okey ''ci'' ''r1'') (Inr (cancelStamped ''ada'' (ex_run PipelineRunRunning Map.empty))) # es)"
  unfolding cancelStamped_def by (simp add: ex_simps)

lemma cancel_command_obeyed_witness:
  "\<exists>res c' es. ex_exec (cancelStamped ''ada'' (ex_run PipelineRunRunning Map.empty)) [ex_taskrun ''build'' TaskRunRunning] = (res, c', es) \<and>
     (\<forall>tr x. CreateTR tr x \<notin> set es)"
proof -
  obtain res c' a where run: "exec (Cancel_Handle mem_client (Inr \<lparr>cp_PipelineRunName = ''r1'', cp_Namespace = ''ci'', cp_Operator = ''ada''\<rparr>))
     (cluster0\<lparr>cl_pipelineRuns := [ex_run PipelineRunRunning Map.empty]\<rparr>) =
     (res, c', [GetPR (okey ''ci'' ''r1'') (Inr (ex_run PipelineRunRunning Map.empty)), PatchPR (ex_run PipelineRunRunning Map.empty)
       (cancelStamped ''ada'' (ex_run PipelineRunRunning Map.empty)) a])"
    using dx_cancel_run by blast
  obtain res1 c1 es1 where rec: "ex_exec (cancelStamped ''ada'' (ex_run PipelineRunRunning Map.empty)) [ex_taskrun ''build'' TaskRunRunning] =
     (res1, c1, GetPR (okey ''ci'' ''r1'') (Inr (cancelStamped ''ada'' (ex_run PipelineRunRunning Map.empty))) # es1)"
    using dx_cancelled_run by blast
  have "\<forall>tr x. CreateTR tr x \<notin> set es1" using cancel_command_obeyed [OF run _ rec] by simp
  with rec show ?thesis by auto
qed

section \<open>Rollout control\<close>

text \<open>The rollout command reaches the reconciler. The two modules name the annotations alike; only a known action is
  stamped, and on the Rollout the task run names; a reconcile that reads the patched Rollout takes
  the command before anything else: its first request clears it.\<close>

theorem rollout_command_obeyed:
  assumes "exec (RolloutControl_Handle k (Inr p)) c = (res, c', es)" "PatchRO ro ro' a \<in> set es"
    and "exec (Rollout_Reconcile k' env now req) c1 = (res1, c1', GetRO req (Inr ro') # es1)"
  shows "rc_Action p \<in> {RolloutActionPause, RolloutActionPromote, RolloutActionRollback} \<and>
     ro_Spec ro' = ro_Spec ro \<and> ro_Status ro' = ro_Status ro \<and> ro_ann ro' annRolloutAction = rc_Action p \<and>
     (\<exists>b q x rest. es1 = PatchRO b q x # rest \<and> ro_ann b annRolloutAction = rc_Action p \<and> ro_ann q annRolloutAction = '''')"
proof -
  have patch: "ro' = controlStamped p ro" "rc_Action p \<in> {RolloutActionPause, RolloutActionPromote, RolloutActionRollback}"
    using emits_exec [OF RolloutControl_emits assms(1)] assms(2) by auto
  note names = control_names
  have ann: "ro_ann ro' annRolloutAction = rc_Action p"
    using names by (simp add: patch(1) controlStamped_def map_get_def Let_def)
  then have "commanded ro'" using patch(2) by (auto simp: commanded_def rollout_actions)
  then have "commanded (initRollout now ro')" by (simp add: commanded_def initRollout_def)
  with Rollout_path [OF assms(3)] obtain e where path: "command_path now (initRollout now ro') e es1"
    by (auto elim: rollout_path.cases)
  have cl: "ro_ann (cleared ro1) annRolloutAction = ''''" for ro1
    using names(3) by (simp add: cleared_def setAnnotations_def map_get_def)
  have "\<exists>x rest. es1 = PatchRO (initRollout now ro') (cleared (initRollout now ro')) x # rest"
    using path by (auto elim: command_path.cases)
  moreover have "ro_ann (initRollout now ro') annRolloutAction = rc_Action p"
    using ann by (simp add: initRollout_def)
  ultimately show ?thesis using patch ann cl by (auto simp: controlStamped_def Let_def)
qed

text \<open>A Rollout under way, and a server that is down for patches when the reconciler comes.\<close>

definition dx_rollout :: Rollout where
  "dx_rollout = \<lparr>ro_Meta = meta0\<lparr>om_Name := ''shop'', om_Namespace := ''ci''\<rparr>,
     ro_Spec = \<lparr>ros_WorkloadRef = ''shop'', ros_Replicas = Some 10, ros_StableImage = ''shop:1'',
       ros_CanaryImage = ''shop:2'', ros_Steps = [\<lparr>step_SetWeight = Some 20, step_Pause = None\<rparr>],
       ros_HealthCheck = \<lparr>hc_Type = HealthCheckPodReady, hc_IntervalSeconds = 30, hc_FailureThreshold = 3,
         hc_HTTPPath = '''', hc_PrometheusQueryExpr = '''', hc_PrometheusThreshold = ''''\<rparr>,
       ros_TrafficRouting = \<lparr>tf_Type = TrafficRoutingDeploymentWeight, tf_IngressRef = ''''\<rparr>, ros_AutoRollback = True\<rparr>,
     ro_Status = rollout_status0\<lparr>rst_Phase := RolloutProgressing, rst_CurrentWeight := 20\<rparr>\<rparr>"

lemma dx_rollout_views [simp]:
  "om_Name (ro_Meta dx_rollout) = ''shop''" "om_Namespace (ro_Meta dx_rollout) = ''ci''"
  "om_Annotations (ro_Meta dx_rollout) = Map.empty" "rst_Phase (ro_Status dx_rollout) = RolloutProgressing"
  by (simp_all add: dx_rollout_def meta0_def)

definition dx_down :: "Cluster kclient" where
  "dx_down = mem_client\<lparr>rollouts := (rollouts mem_client)\<lparr>r_patch := \<lambda>_ _. ret (Inl (Err ''down''))\<rparr>\<rparr>"

definition dx_deploy :: TaskRun where
  "dx_deploy = (dx_taskrun ''ship'' TaskRunRunning)\<lparr>tr_Status := (tr_Status (dx_taskrun ''ship'' TaskRunRunning))\<lparr>tst_RolloutRef := ''shop''\<rparr>\<rparr>"

definition dx_pause :: RolloutControlPayload where
  "dx_pause = \<lparr>rc_PipelineRunName = ''r1'', rc_TaskName = ''ship'', rc_Action = RolloutActionPause, rc_Operator = ''ada''\<rparr>"

definition dx_env :: "int RolloutEnv" where
  "dx_env = \<lparr>re_HttpGet = (\<lambda>url timeout. None), re_ParseFloat = atoi, re_FloatLe = (\<le>),
     re_PrometheusEndpoint = '''', re_SvcTargetPort = '''', re_CanaryIngressEnabled = False\<rparr>"

lemma dx_control_run:
  "\<exists>res c' es a. exec (RolloutControl_Handle mem_client (Inr dx_pause)) (cluster0\<lparr>cl_taskRuns := [dx_deploy], cl_rollouts := [dx_rollout]\<rparr>) =
     (res, c', es) \<and> PatchRO dx_rollout (controlStamped dx_pause dx_rollout) a \<in> set es"
  by (simp add: dx_deploy_def dx_pause_def run_simps RolloutControl_Handle_def taskLabels_def controlStamped_def
      RolloutActionPause_def cong: bind_weak_cong)

lemma dx_obey_run:
  "\<exists>res c' es. exec (Rollout_Reconcile dx_down dx_env 5 (okey ''ci'' ''shop'')) (cluster0\<lparr>cl_rollouts := [controlStamped dx_pause dx_rollout]\<rparr>) =
     (res, c', GetRO (okey ''ci'' ''shop'') (Inr (controlStamped dx_pause dx_rollout)) # es)"
  by (simp add: dx_down_def dx_pause_def run_simps controlStamped_def Rollout_Reconcile_def initRollout_def applyControlCommand_def
      rollout_constants dispatch_annRolloutAction_def dispatch_annRolloutOper_def RolloutActionPause_def cong: bind_weak_cong)

lemma rollout_command_obeyed_witness:
  "\<exists>res c' b q x rest. exec (Rollout_Reconcile dx_down dx_env 5 (okey ''ci'' ''shop''))
       (cluster0\<lparr>cl_rollouts := [controlStamped dx_pause dx_rollout]\<rparr>) =
     (res, c', GetRO (okey ''ci'' ''shop'') (Inr (controlStamped dx_pause dx_rollout)) # PatchRO b q x # rest) \<and>
     ro_ann b annRolloutAction = RolloutActionPause"
proof -
  obtain res c' es a where run: "exec (RolloutControl_Handle mem_client (Inr dx_pause))
      (cluster0\<lparr>cl_taskRuns := [dx_deploy], cl_rollouts := [dx_rollout]\<rparr>) = (res, c', es)"
    "PatchRO dx_rollout (controlStamped dx_pause dx_rollout) a \<in> set es"
    using dx_control_run by blast
  obtain res1 c1 es1 where rec: "exec (Rollout_Reconcile dx_down dx_env 5 (okey ''ci'' ''shop''))
      (cluster0\<lparr>cl_rollouts := [controlStamped dx_pause dx_rollout]\<rparr>) =
     (res1, c1, GetRO (okey ''ci'' ''shop'') (Inr (controlStamped dx_pause dx_rollout)) # es1)"
    using dx_obey_run by blast
  have "rc_Action dx_pause = RolloutActionPause" by (simp add: dx_pause_def)
  then show ?thesis using rollout_command_obeyed [OF run rec] rec by auto
qed

text \<open>A redelivered command is one command. However often a cancel or a rollout command is stamped before the reconciler
  comes, by whomever and in whatever mix of operators and actions, the object still has its specification, its status and its
  name, a command is pending, and the clearing that consumes it leaves the object exactly as if nothing had been stamped:
  with no command pending.\<close>

theorem redelivery_harmless:
  assumes "ops \<noteq> []" "ps \<noteq> []" "rc_Action (last ps) \<in> {RolloutActionPause, RolloutActionPromote, RolloutActionRollback}"
  shows "run_body (fold cancelStamped ops pr) = run_body pr \<and> cancel_requested (fold cancelStamped ops pr) \<and>
     cancelCleared (fold cancelStamped ops pr) = cancelCleared pr \<and> \<not> cancel_requested (cancelCleared pr) \<and>
     rollout_body (fold controlStamped ps ro) = rollout_body ro \<and> commanded (fold controlStamped ps ro) \<and>
     cleared (fold controlStamped ps ro) = cleared ro \<and> \<not> commanded (cleared ro)"
proof -
  have v: "rc_Action (last ps) \<noteq> ''''" using assms(3) by (auto simp: rollout_actions)
  show ?thesis
    using cancels.deliver_pending [OF assms(1) TrueI, of pr] controls.deliver_pending [OF assms(2) v, of ro]
      cancels.not_pending_clear [of pr] controls.not_pending_clear [of ro]
    by (simp add: cancels.deliver_body cancels.deliver_clear controls.deliver_body controls.deliver_clear)
qed

lemma redelivery_harmless_witness:
  "cancel_requested (fold cancelStamped [''ada'', ''bob''] (ex_run PipelineRunRunning Map.empty)) \<and>
   commanded (fold controlStamped [\<lparr>rc_PipelineRunName = ''r1'', rc_TaskName = ''ship'', rc_Action = RolloutActionPause, rc_Operator = ''ada''\<rparr>,
     \<lparr>rc_PipelineRunName = ''r1'', rc_TaskName = ''ship'', rc_Action = RolloutActionRollback, rc_Operator = ''bob''\<rparr>] dx_rollout)"
  using redelivery_harmless [of "[''ada'', ''bob'']"
      "[\<lparr>rc_PipelineRunName = ''r1'', rc_TaskName = ''ship'', rc_Action = RolloutActionPause, rc_Operator = ''ada''\<rparr>,
        \<lparr>rc_PipelineRunName = ''r1'', rc_TaskName = ''ship'', rc_Action = RolloutActionRollback, rc_Operator = ''bob''\<rparr>]"
      "ex_run PipelineRunRunning Map.empty" dx_rollout]
  by simp

section \<open>Apply\<close>

text \<open>A run is created once: only when the read of its name found nothing, after its namespace is there, with
  the specification of the command, the target and the snapshot of the tasks; it is the last
  request, and losing the race to create it is no error.\<close>

theorem apply_creates_when_missing:
  assumes "exec (Apply_Handle k env h (Inr p)) c = (res, c', es)" "CreatePR pr a \<in> set es"
  shows "ap_Name p \<noteq> '''' \<and> om_Name (pr_Meta pr) = ap_Name p \<and> om_Namespace (pr_Meta pr) = applyNamespace p \<and>
     pr_Spec pr = ap_Spec p \<and> pst_Phase (pr_Status pr) = PipelineRunUnset \<and>
     om_Annotations (pr_Meta pr) ''sdp.io/spec-snapshot'' = Some (SnapshotSpec env (prs_Tasks (ap_Spec p))) \<and>
     res = errUnless AlreadyExists a \<and>
     (\<exists>ns. es = ns @ [GetPR (okey (applyNamespace p) (ap_Name p)) (Inl NotFound), CreatePR pr a] \<and>
        ((\<exists>x. GetNs (okey '''' (applyNamespace p)) (Inr x) \<in> set ns) \<or>
         (\<exists>n x. CreateNs n x \<in> set ns \<and> om_Name (ns_Meta n) = applyNamespace p \<and> errUnless AlreadyExists x = None)))"
proof -
  from emits_exec [OF Apply_emits assms(1)] assms(2) obtain ns where
    pr: "pr = appliedRun (SnapshotSpec env (prs_Tasks (ap_Spec p))) h p" "ap_Name p \<noteq> ''''" "res = errUnless AlreadyExists a"
    and ns: "es = ns @ [GetPR (okey (applyNamespace p) (ap_Name p)) (Inl NotFound), CreatePR pr a]"
      "list_all (ns_event (applyNamespace p)) ns"
      "(\<exists>x. GetNs (okey '''' (applyNamespace p)) (Inr x) \<in> set ns) \<or>
       (\<exists>n x. CreateNs n x \<in> set ns \<and> errUnless AlreadyExists x = None)"
    by blast
  have "CreateNs n x \<in> set ns \<Longrightarrow> om_Name (ns_Meta n) = applyNamespace p" for n x
    using ns(2) by (auto simp: list_all_iff ns_event_def)
  with ns(3) have "(\<exists>x. GetNs (okey '''' (applyNamespace p)) (Inr x) \<in> set ns) \<or>
      (\<exists>n x. CreateNs n x \<in> set ns \<and> om_Name (ns_Meta n) = applyNamespace p \<and> errUnless AlreadyExists x = None)"
    by blast
  moreover have "om_Name (pr_Meta pr) = ap_Name p" "om_Namespace (pr_Meta pr) = applyNamespace p"
    "pr_Spec pr = ap_Spec p" "pst_Phase (pr_Status pr) = PipelineRunUnset"
    "om_Annotations (pr_Meta pr) ''sdp.io/spec-snapshot'' = Some (SnapshotSpec env (prs_Tasks (ap_Spec p)))"
    by (simp_all add: pr(1) appliedRun_def Let_def meta0_def run_status0_def)
  ultimately show ?thesis using pr(2,3) ns(1) by blast
qed

definition dx_snapshot :: SnapshotEnv where
  "dx_snapshot = \<lparr>se_SortSlice = sort_key pt_Name, se_Marshal = (\<lambda>ps. Inr (concat (map pj_Name ps))), se_Sha256 = rev\<rparr>"

definition dx_apply :: ApplyPipelineRunPayload where
  "dx_apply = \<lparr>ap_Name = ''r1'', ap_Namespace = '''', ap_Spec = pr_Spec (dx_run PipelineRunUnset), ap_PublishVersion = ''v3''\<rparr>"

lemma dx_apply_run:
  "\<exists>res c' es pr a. exec (Apply_Handle mem_client dx_snapshot \<lparr>ah_TargetName = ''t1''\<rparr> (Inr dx_apply)) cluster0 = (res, c', es) \<and>
     CreatePR pr a \<in> set es"
  by (simp add: dx_apply_def run_simps Apply_Handle_def dispatch_ensureNamespace_def applyNamespace_def appliedRun_def cong: bind_weak_cong)

lemma apply_creates_when_missing_witness:
  "\<exists>res c' es pr a. exec (Apply_Handle mem_client dx_snapshot \<lparr>ah_TargetName = ''t1''\<rparr> (Inr dx_apply)) cluster0 = (res, c', es) \<and>
     CreatePR pr a \<in> set es \<and> om_Name (pr_Meta pr) = ''r1'' \<and> om_Namespace (pr_Meta pr) = ''sdp-run''"
proof -
  obtain res c' es pr a where run: "exec (Apply_Handle mem_client dx_snapshot \<lparr>ah_TargetName = ''t1''\<rparr> (Inr dx_apply)) cluster0 = (res, c', es)"
    "CreatePR pr a \<in> set es"
    using dx_apply_run by blast
  show ?thesis
    using apply_creates_when_missing [OF run] run by (auto simp: dx_apply_def applyNamespace_def)
qed

text \<open>The snapshot of a specification does not depend on the order of the tasks, and it does not see all of
  them: tasks that differ only in what the projection leaves out (commands, arguments, script arguments, repository,
  artifacts, retry policy, approvals, rollout and release specifications) have the same snapshot.\<close>

theorem snapshot_order_and_blindness:
  assumes "sort_slice_law env" "distinct (map pt_Name ts)"
  shows "(mset ts = mset us \<longrightarrow> SnapshotSpec env ts = SnapshotSpec env us) \<and>
     ((\<forall>x. pt_Name (f x) = pt_Name x \<and> projTask (f x) = projTask x) \<longrightarrow> SnapshotSpec env (map f ts) = SnapshotSpec env ts)"
proof (intro conjI impI)
  show "SnapshotSpec env ts = SnapshotSpec env us" if "mset ts = mset us"
    using sort_slice_perm [OF assms(1) that assms(2)] that
    by (simp only: SnapshotSpec_def mset_eq_length [OF that])
  assume f: "\<forall>x. pt_Name (f x) = pt_Name x \<and> projTask (f x) = projTask x"
  have "mset (map f (se_SortSlice env ts)) = mset (map f ts)" using assms(1) by (simp add: sort_slice_law_def)
  moreover have "sorted (map pt_Name (map f (se_SortSlice env ts)))"
    using assms(1) f by (simp add: sort_slice_law_def comp_def)
  moreover have d: "distinct (map pt_Name (map f ts))" using assms(2) f by (simp add: comp_def)
  ultimately have "se_SortSlice env (map f ts) = map f (se_SortSlice env ts)"
    using sort_slice_unique [OF assms(1) d] by metis
  then show "SnapshotSpec env (map f ts) = SnapshotSpec env ts"
    by (simp only: SnapshotSpec_def length_map) (use f in \<open>simp add: comp_def\<close>)
qed

lemma snapshot_order_and_blindness_witness:
  "SnapshotSpec dx_snapshot [ex_task ''a'' [], ex_task ''b'' []] = SnapshotSpec dx_snapshot [ex_task ''b'' [], ex_task ''a'' []] \<and>
   SnapshotSpec dx_snapshot [(ex_task ''a'' [])\<lparr>pt_Command := [''rm'']\<rparr>] = SnapshotSpec dx_snapshot [ex_task ''a'' []]"
proof -
  have law: "sort_slice_law dx_snapshot" by (simp add: sort_slice_law_def dx_snapshot_def)
  have d: "distinct (map pt_Name [ex_task ''a'' [], ex_task ''b'' []])" "distinct (map pt_Name [ex_task ''a'' []])"
    by (simp_all add: ex_task_def)
  have m: "mset [ex_task ''a'' [], ex_task ''b'' []] = mset [ex_task ''b'' [], ex_task ''a'' []]" by simp
  have f: "\<forall>x. pt_Name (x\<lparr>pt_Command := [''rm'']\<rparr>) = pt_Name x \<and> projTask (x\<lparr>pt_Command := [''rm'']\<rparr>) = projTask x"
    by (simp add: projTask_def)
  show ?thesis
    using snapshot_order_and_blindness [OF law d(1), of "[ex_task ''b'' [], ex_task ''a'' []]"] m
      snapshot_order_and_blindness [OF law d(2), of "[]" "\<lambda>x. x\<lparr>pt_Command := [''rm'']\<rparr>"] f
    by simp
qed

end
