(* ===== verification/System.thy ===== *)
theory System
  imports TaskRun_Props Dispatch_Props
begin

text \<open>
  Everything that changes the task runs of a run, working on one API server. A history is the list of what the server
  has stored of the task runs of the run, newest first; a step is one accepted write, with its cause, so the requests of
  concurrent reconciles and handlers interleave at every write. The causes are the creations of the run reconciler, the status writes of
  the task-run reconciler, the two handlers of the hub that write a task run (a decision on it, its reset by a rerun), deletions (by a
  cancellation, a rerun upstream, the garbage collector or anyone) and changes of metadata by anyone. A reset and a deletion take place
  in any phase, and a deploy task that has Succeeded goes on being written. The reconcilers read from caches that may lag: a list of
  task runs is any element of the history. What the server contributes is documented Kubernetes behaviour: a name that
  is taken is not created again, a status is only accepted of the current version (optimistic concurrency), and an
  object is stored as it was requested.
\<close>

section \<open>The steps\<close>

text \<open>The server changes the object of a key: a write of the status keeps the rest, a write of the metadata the specification and the status.\<close>

definition put_at :: "ObjectKey \<Rightarrow> (TaskRun \<Rightarrow> TaskRun) \<Rightarrow> TaskRun list \<Rightarrow> TaskRun list" where
  "put_at key f items = map (\<lambda>tr. if meta_key (tr_Meta tr) = key then f tr else tr) items"

definition put_status :: "TaskRun \<Rightarrow> TaskRun list \<Rightarrow> TaskRun list" where
  "put_status p = put_at (meta_key (tr_Meta p)) (\<lambda>tr. tr\<lparr>tr_Status := tr_Status p\<rparr>)"

definition put_meta :: "ObjectMeta \<Rightarrow> TaskRun list \<Rightarrow> TaskRun list" where
  "put_meta m = put_at (meta_key m) (\<lambda>tr. tr\<lparr>tr_Meta := m\<rparr>)"

definition stored_as :: "TaskRun \<Rightarrow> TaskRun \<Rightarrow> bool" where
  "stored_as tr x \<longleftrightarrow> tr_Spec x = tr_Spec tr \<and> tr_Status x = tr_Status tr \<and> meta_key (tr_Meta x) = meta_key (tr_Meta tr)"

datatype cause = CreatedByRun | WrittenByTask | DecidedByHub | ResetByHub | Deleted | Annotated

text \<open>\<open>sys_step k pr c hist new\<close>: with the history \<open>hist\<close>, something of the kind \<open>c\<close> makes the server store \<open>new\<close>.\<close>

inductive sys_step :: "'c kclient \<Rightarrow> PipelineRun \<Rightarrow> cause \<Rightarrow> TaskRun list list \<Rightarrow> TaskRun list \<Rightarrow> bool"
  for k :: "'c kclient" and pr where
  step_create: "exec (PipelineRun_Reconcile k r ord now req) c = (res, c', GetPR req (Inr pr') # ListTR lo (Inr seen) # es) \<Longrightarrow>
     pr_Spec pr' = pr_Spec pr \<Longrightarrow> meta_key (pr_Meta pr') = meta_key (pr_Meta pr) \<Longrightarrow> seen \<in> set (items # past) \<Longrightarrow>
     CreateTR tr (Inr x) \<in> set es \<Longrightarrow> stored_as tr x \<Longrightarrow> \<forall>y\<in>set items. meta_key (tr_Meta y) \<noteq> meta_key (tr_Meta x) \<Longrightarrow>
     sys_step k pr CreatedByRun (items # past) (items @ [x])"
| step_write: "exec (TaskRun_Reconcile k tc vals now req) c = (res, c', GetTR req (Inr tr) # es) \<Longrightarrow>
     tr \<in> set items \<Longrightarrow> StatusTR p (Inr x) \<in> set es \<Longrightarrow> sys_step k pr WrittenByTask (items # past) (put_status p items)"
| step_decide: "exec (Approve_Handle k now (Inr q)) c = (res, c', es) \<Longrightarrow> ListTR lo (Inr (tr # trs)) \<in> set es \<Longrightarrow>
     tr \<in> set items \<Longrightarrow> StatusTR p (Inr x) \<in> set es \<Longrightarrow> sys_step k pr DecidedByHub (items # past) (put_status p items)"
| step_reset: "exec (Rerun_Handle k (Inr q)) c = (res, c', es) \<Longrightarrow> ListTR lo (Inr (tr # trs)) \<in> set es \<Longrightarrow>
     tr \<in> set items \<Longrightarrow> StatusTR p (Inr x) \<in> set es \<Longrightarrow> sys_step k pr ResetByHub (items # past) (put_status p items)"
| step_delete: "tr \<in> set items \<Longrightarrow>
     sys_step k pr Deleted (items # past) (filter (\<lambda>y. meta_key (tr_Meta y) \<noteq> meta_key (tr_Meta tr)) items)"
| step_annotate: "tr \<in> set items \<Longrightarrow> meta_key m = meta_key (tr_Meta tr) \<Longrightarrow>
     sys_step k pr Annotated (items # past) (put_meta m items)"

inductive sys_reach :: "'c kclient \<Rightarrow> PipelineRun \<Rightarrow> TaskRun list list \<Rightarrow> bool" for k :: "'c kclient" and pr where
  sys_init: "sys_reach k pr [[]]"
| sys_next: "sys_reach k pr hist \<Longrightarrow> sys_step k pr c hist new \<Longrightarrow> sys_reach k pr (new # hist)"

section \<open>What the reconcilers write\<close>

definition created_from :: "'c kclient \<Rightarrow> PipelineRun \<Rightarrow> PipelineTaskSpec \<Rightarrow> TaskRun \<Rightarrow> bool" where
  "created_from k pr task tr \<longleftrightarrow> (\<exists>m. tr = (buildTaskRun pr task)\<lparr>tr_Meta := m\<rparr> \<and>
     setControllerReference k ''PipelineRun'' (pr_Meta pr) (tr_Meta (buildTaskRun pr task)) = Inr m)"

lemma run_creates_from:
  assumes "exec (PipelineRun_Reconcile k r ord now req) c = (res, c', GetPR req (Inr pr) # ListTR lo (Inr items) # es)"
    and "CreateTR tr a \<in> set es"
  shows "\<exists>task\<in>set (findRunnableTasks (prs_Tasks (pr_Spec pr)) (existingByName items)). created_from k pr task tr"
proof -
  have b: "buildTaskRun (noApproval (withSummary (defaultPhase pr) items ros)) t = buildTaskRun pr t" for t ros
    by (rule buildTaskRun_view) simp_all
  have "run_path k r ord now req (snd res) (GetPR req (Inr pr) # ListTR lo (Inr items) # es)"
    using Reconcile_path [OF assms(1)] by simp
  then obtain ros e es' where "tasks_path k r now (defaultPhase pr) items ros e es'" "CreateTR tr a \<in> set es'"
    using assms(2) by cases (auto dest: cancel_path_no_create)
  then have "\<exists>e. schedule_path k r now (noApproval (withSummary (defaultPhase pr) items ros)) (existingByName items) e es'"
    by cases auto
  then obtain e' creates where "creates_for k (noApproval (withSummary (defaultPhase pr) items ros))
      (findRunnableTasks (prs_Tasks (pr_Spec pr)) (existingByName items)) e' creates" "CreateTR tr a \<in> set creates"
    using \<open>CreateTR tr a \<in> set es'\<close> by (auto elim!: schedule_path.cases)
  then show ?thesis unfolding creates_for_def created_from_def by (fastforce simp: b)
qed

text \<open>A task-run reconcile writes the status of the task run it read, and none of a job or approval that has Succeeded.\<close>

lemma task_writes:
  assumes "exec (TaskRun_Reconcile k tc vals now req) c = (res, c', GetTR req (Inr tr) # es)" "StatusTR p a \<in> set es"
  shows "tr_Meta p = tr_Meta tr \<and> tr_Spec p = tr_Spec tr \<and> (tr_Phase tr = TaskRunSucceeded \<longrightarrow> is_deploy tr)"
proof -
  have m: "tr_Meta (approvalStatus now tr) = tr_Meta tr" "tr_Spec (approvalStatus now tr) = tr_Spec tr"
    by (simp_all add: approvalStatus_def Let_def)
  from TaskRun_path [OF assms(1)] assms(2) show ?thesis
    by cases (auto simp: m approvalStatus_phase finishedTR_def elim!: deploy_path.cases job_path.cases split: if_splits)
qed

text \<open>A decision of the hub and a reset keep the name and the specification of the task run they read, in whatever phase it is.\<close>

lemma decision_writes:
  assumes "exec (Approve_Handle k now (Inr q)) c = (res, c', es)" "ListTR lo (Inr (tr # trs)) \<in> set es" "StatusTR p a \<in> set es"
  shows "tr_Meta p = tr_Meta tr \<and> tr_Spec p = tr_Spec tr"
proof -
  from emits_exec [OF Approve_emits assms(1), THEN conjunct1, rule_format, OF assms(3)] assms(2)
  have "decideTask now q tr = Some p" by auto
  then show ?thesis by (auto simp: decideTask_def Let_def split: if_splits)
qed

lemma reset_writes:
  assumes "exec (Rerun_Handle k (Inr q)) c = (res, c', es)" "ListTR lo (Inr (tr # trs)) \<in> set es" "StatusTR p a \<in> set es"
  shows "p = tr\<lparr>tr_Status := rerunReset (tr_Status tr)\<rparr>"
proof -
  have no: "rerun_event tr' pr e \<Longrightarrow> e \<noteq> ListTR lo' ans" for tr' pr e lo' ans
    by (auto simp: rerun_event_def work_event_def)
  have status: "rerun_event tr' pr (StatusTR p a) \<Longrightarrow> p = tr'\<lparr>tr_Status := rerunReset (tr_Status tr')\<rparr>" for tr' pr
    by (auto simp: rerun_event_def work_event_def)
  from emits_exec [OF Rerun_emits assms(1)] assms(2,3) obtain tr' trs' pr es' where
    es: "es = ListTR (taskLabels (rr_PipelineRunName q) (rr_TaskName q)) (Inr (tr' # trs')) #
       GetPR (okey (trs_Namespace (tr_Spec tr')) (trs_PipelineRunRef (tr_Spec tr'))) (Inr pr) # es'" "list_all (rerun_event tr' pr) es'"
    by (auto simp: Let_def)
  have "ListTR lo (Inr (tr # trs)) \<notin> set es'" using es(2) no unfolding list_all_iff by blast
  with assms(2) es(1) have "tr' = tr" by simp
  moreover have "rerun_event tr' pr (StatusTR p a)" using es assms(3) by (auto simp: list_all_iff)
  ultimately show ?thesis using status by blast
qed

section \<open>The invariant of the histories\<close>

abbreviation task_name :: "TaskRun \<Rightarrow> string" where
  "task_name tr \<equiv> trs_TaskName (tr_Spec tr)"

definition task_of :: "PipelineRun \<Rightarrow> PipelineTaskSpec \<Rightarrow> TaskRun \<Rightarrow> bool" where
  "task_of pr task tr \<longleftrightarrow> task \<in> set (prs_Tasks (pr_Spec pr)) \<and>
     tr_Spec tr = tr_Spec (buildTaskRun pr task) \<and> meta_key (tr_Meta tr) = meta_key (tr_Meta (buildTaskRun pr task))"

definition run_items :: "PipelineRun \<Rightarrow> TaskRun list \<Rightarrow> bool" where
  "run_items pr items \<longleftrightarrow> distinct (map task_name items) \<and> (\<forall>tr\<in>set items. \<exists>task. task_of pr task tr)"

definition sys_inv :: "PipelineRun \<Rightarrow> TaskRun list list \<Rightarrow> bool" where
  "sys_inv pr hist \<longleftrightarrow> hist \<noteq> [] \<and> (\<forall>l\<in>set hist. run_items pr l) \<and>
     dag_execution findRunnableTasks (prs_Tasks (pr_Spec pr)) (map existingByName hist)"

lemma buildTaskRun_key:
  "meta_key (tr_Meta (buildTaskRun pr task)) = okey (om_Namespace (pr_Meta pr)) (om_Name (pr_Meta pr) @ ''-'' @ pt_Name task)"
  by (simp add: buildTaskRun_def Let_def meta_key_def)

lemma buildTaskRun_name [simp]: "task_name (buildTaskRun pr task) = pt_Name task"
  by (simp add: buildTaskRun_def Let_def)

lemma task_of_name: "task_of pr task tr \<Longrightarrow> task_name tr = pt_Name task"
  by (simp add: task_of_def)

lemma task_of_status [simp]: "task_of pr task (tr\<lparr>tr_Status := s\<rparr>) \<longleftrightarrow> task_of pr task tr"
  by (simp add: task_of_def)

lemma task_of_key_iff:
  "task_of pr task tr \<Longrightarrow> task_of pr task' tr' \<Longrightarrow> meta_key (tr_Meta tr) = meta_key (tr_Meta tr') \<longleftrightarrow> task_name tr = task_name tr'"
  by (simp add: task_of_def buildTaskRun_key)

lemma meta_key_eq: "meta_key m = meta_key m' \<longleftrightarrow> om_Namespace m = om_Namespace m' \<and> om_Name m = om_Name m'"
  by (simp add: meta_key_def)

lemma buildTaskRun_same:
  assumes "pr_Spec pr' = pr_Spec pr" "meta_key (pr_Meta pr') = meta_key (pr_Meta pr)"
  shows "tr_Spec (buildTaskRun pr' task) = tr_Spec (buildTaskRun pr task)"
    and "meta_key (tr_Meta (buildTaskRun pr' task)) = meta_key (tr_Meta (buildTaskRun pr task))"
  using assms unfolding buildTaskRun_key meta_key_eq
  by (cases "pt_Repo task"; simp add: buildTaskRun_def Let_def)+

lemma existing_map: "distinct (map task_name items) \<Longrightarrow> existingByName items = map (\<lambda>tr. (task_name tr, tr)) items"
proof (induction items rule: rev_induct)
  case (snoc x xs)
  moreover have "AList.update n v (map (\<lambda>tr. (task_name tr, tr)) xs) = map (\<lambda>tr. (task_name tr, tr)) xs @ [(n, v)]"
    if "n \<notin> task_name ` set xs" for n and v :: TaskRun
    using that by (induction xs) auto
  ultimately show ?case by (simp add: existingByName_def index_by_snoc)
qed (simp add: existingByName_def)

lemma existing_started: "started (existingByName items) n \<longleftrightarrow> n \<in> task_name ` set items"
  using index_by_None_iff [of task_name items n] by (auto simp: started_def existingByName_def)

lemma update_map:
  assumes "distinct (map task_name items)" "tr \<in> set items" "task_name (f tr) = task_name tr"
  shows "map (\<lambda>y. (task_name y, y)) (map (\<lambda>y. if task_name y = task_name tr then f y else y) items) =
     AList.update (task_name tr) (f tr) (map (\<lambda>y. (task_name y, y)) items)"
  using assms(1,2)
proof (induction items)
  case (Cons y ys)
  show ?case
  proof (cases "task_name y = task_name tr")
    case True
    have "task_name tr \<notin> task_name ` set ys" using Cons.prems(1) True by simp
    then have "\<forall>z\<in>set ys. task_name z \<noteq> task_name tr" by (auto simp: image_iff)
    moreover from this have "y = tr" using Cons.prems(2) by auto
    ultimately show ?thesis using assms(3) by (auto intro!: map_idI)
  next
    case False
    with Cons show ?thesis by auto
  qed
qed simp

lemma put_at_update:
  assumes "run_items pr items" "tr \<in> set items" "key = meta_key (tr_Meta tr)"
    and f: "\<And>y. meta_key (tr_Meta y) = key \<Longrightarrow> tr_Spec (f y) = tr_Spec y \<and> meta_key (tr_Meta (f y)) = meta_key (tr_Meta y)"
  shows "existingByName (put_at key f items) = AList.update (task_name tr) (f tr) (existingByName items)"
    and "run_items pr (put_at key f items)"
proof -
  have "meta_key (tr_Meta y) = key \<longleftrightarrow> task_name y = task_name tr" if "y \<in> set items" for y
    using assms(1-3) that task_of_key_iff by (metis run_items_def)
  then have put: "put_at key f items = map (\<lambda>y. if task_name y = task_name tr then f y else y) items"
    by (simp add: put_at_def)
  have names: "map task_name (put_at key f items) = map task_name items" using f by (simp add: put_at_def)
  have d: "distinct (map task_name items)" using assms(1) by (simp add: run_items_def)
  then have d': "distinct (map task_name (put_at key f items))" using names by simp
  have "task_name (f tr) = task_name tr" using f assms(3) by simp
  from existing_map [OF d'] existing_map [OF d] update_map [OF d assms(2), of f, OF this]
  show "existingByName (put_at key f items) = AList.update (task_name tr) (f tr) (existingByName items)"
    by (simp add: put)
  have "task_of pr task (f y)" if "task_of pr task y" "meta_key (tr_Meta y) = key" for task y
    using f [OF that(2)] that(1) by (simp add: task_of_def)
  then have "\<forall>y\<in>set (put_at key f items). \<exists>task. task_of pr task y"
    using assms(1) by (fastforce simp: put_at_def run_items_def)
  with d' show "run_items pr (put_at key f items)" by (simp add: run_items_def)
qed

lemma put_status_update:
  assumes "run_items pr items" "tr \<in> set items" "tr_Meta p = tr_Meta tr"
  shows "existingByName (put_status p items) = AList.update (task_name tr) (tr\<lparr>tr_Status := tr_Status p\<rparr>) (existingByName items)"
    and "run_items pr (put_status p items)"
  using put_at_update [OF assms(1,2), of "meta_key (tr_Meta p)" "\<lambda>tr. tr\<lparr>tr_Status := tr_Status p\<rparr>"] assms(3)
  by (simp_all add: put_status_def)

lemma put_meta_update:
  assumes "run_items pr items" "tr \<in> set items" "meta_key m = meta_key (tr_Meta tr)"
  shows "existingByName (put_meta m items) = AList.update (task_name tr) (tr\<lparr>tr_Meta := m\<rparr>) (existingByName items)"
    and "run_items pr (put_meta m items)"
  using put_at_update [OF assms(1-3), of "\<lambda>tr. tr\<lparr>tr_Meta := m\<rparr>"] by (simp_all add: put_meta_def)

text \<open>A step of the abstract scheduler on the newest list extends a history.\<close>

lemma sys_inv_extend:
  assumes "sys_inv pr (items # past)" "run_items pr items'"
    and "dag_step findRunnableTasks (prs_Tasks (pr_Spec pr)) (existingByName items) (existingByName items')"
  shows "sys_inv pr (items' # items # past)"
  using assms by (auto simp: sys_inv_def intro: dag_next)

lemma sys_inv_change:
  assumes "sys_inv pr (items # past)" "tr \<in> set items"
    and "existingByName items' = AList.update (task_name tr) tr' (existingByName items)" "run_items pr items'"
  shows "sys_inv pr (items' # items # past)"
proof (rule sys_inv_extend [OF assms(1,4)])
  show "dag_step findRunnableTasks (prs_Tasks (pr_Spec pr)) (existingByName items) (existingByName items')"
    unfolding assms(3) by (rule dag_change) (use assms(2) in \<open>simp add: existing_started\<close>)
qed

lemma sys_inv_items: "sys_inv pr (items # past) \<Longrightarrow> run_items pr items"
  by (simp add: sys_inv_def)

lemma sys_inv_put:
  "sys_inv pr (items # past) \<Longrightarrow> tr \<in> set items \<Longrightarrow> tr_Meta p = tr_Meta tr \<Longrightarrow> sys_inv pr (put_status p items # items # past)"
  using put_status_update sys_inv_change sys_inv_items by blast

lemma delete_existing:
  assumes "run_items pr items" "tr \<in> set items"
  shows "existingByName (filter (\<lambda>y. meta_key (tr_Meta y) \<noteq> meta_key (tr_Meta tr)) items) =
     AList.delete (task_name tr) (existingByName items)"
    and "run_items pr (filter (\<lambda>y. meta_key (tr_Meta y) \<noteq> meta_key (tr_Meta tr)) items)"
proof -
  have "meta_key (tr_Meta y) \<noteq> meta_key (tr_Meta tr) \<longleftrightarrow> task_name y \<noteq> task_name tr" if "y \<in> set items" for y
    using assms that task_of_key_iff by (metis run_items_def)
  then have f: "filter (\<lambda>y. meta_key (tr_Meta y) \<noteq> meta_key (tr_Meta tr)) items = filter (\<lambda>y. task_name y \<noteq> task_name tr) items"
    by (intro filter_cong) simp_all
  have d: "distinct (map task_name items)" using assms(1) by (simp add: run_items_def)
  then have d': "distinct (map task_name (filter (\<lambda>y. task_name y \<noteq> task_name tr) items))" by (rule distinct_map_filter)
  show "existingByName (filter (\<lambda>y. meta_key (tr_Meta y) \<noteq> meta_key (tr_Meta tr)) items) =
     AList.delete (task_name tr) (existingByName items)"
    unfolding f existing_map [OF d] existing_map [OF d'] by (auto simp: AList.delete_eq filter_map comp_def intro!: arg_cong [of _ _ "map _"] filter_cong)
  show "run_items pr (filter (\<lambda>y. meta_key (tr_Meta y) \<noteq> meta_key (tr_Meta tr)) items)"
    using assms(1) d' unfolding f by (auto simp: run_items_def)
qed

text \<open>What controller-runtime documents of \<open>SetControllerReference\<close>: it adds an owner reference, no more.\<close>

definition owner_keeps_key :: "'c kclient \<Rightarrow> bool" where
  "owner_keeps_key k \<longleftrightarrow> (\<forall>kind owner ob m. setControllerReference k kind owner ob = Inr m \<longrightarrow> meta_key m = meta_key ob)"

lemma created_task_of:
  assumes "owner_keeps_key k" "pr_Spec pr' = pr_Spec pr" "meta_key (pr_Meta pr') = meta_key (pr_Meta pr)"
    and "task \<in> set (prs_Tasks (pr_Spec pr))" "created_from k pr' task tr" "stored_as tr x"
  shows "task_of pr task x" "tr_Phase x = TaskRunUnset"
  using assms(1,4-6) buildTaskRun_same [OF assms(2,3), of task]
  by (auto simp: task_of_def created_from_def stored_as_def owner_keeps_key_def task_status0_def)

lemma sys_inv_create:
  assumes inv: "sys_inv pr (items # past)" and "owner_keeps_key k"
    and "pr_Spec pr' = pr_Spec pr" "meta_key (pr_Meta pr') = meta_key (pr_Meta pr)" "seen \<in> set (items # past)"
    and task: "task \<in> set (findRunnableTasks (prs_Tasks (pr_Spec pr')) (existingByName seen))" "created_from k pr' task tr"
    and x: "stored_as tr x" "\<forall>y\<in>set items. meta_key (tr_Meta y) \<noteq> meta_key (tr_Meta x)"
  shows "sys_inv pr ((items @ [x]) # items # past)"
proof -
  let ?tasks = "prs_Tasks (pr_Spec pr)"
  note pick = task(1) [unfolded assms(3)]
  note of = created_task_of [OF assms(2-4) runnable.pick_task [OF pick] task(2) x(1)]
  have run: "run_items pr items" using inv by (simp add: sys_inv_def)
  then have fresh: "task_name x \<notin> task_name ` set items"
    using x(2) task_of_key_iff [OF of(1)] by (fastforce simp: run_items_def)
  then have free: "\<not> started (existingByName items) (pt_Name task)"
    using task_of_name [OF of(1)] by (simp add: existing_started)
  have new: "existingByName (items @ [x]) = AList.update (pt_Name task) x (existingByName items)"
    using task_of_name [OF of(1)] by (simp add: existingByName_def index_by_snoc)
  have run': "run_items pr (items @ [x])" using run fresh of(1) by (auto simp: run_items_def)
  show ?thesis
  proof (cases "seen = items")
    case True
    with pick of(2) have "dag_step findRunnableTasks ?tasks (existingByName items) (existingByName (items @ [x]))"
      unfolding new by (intro dag_create) simp_all
    with inv run' show ?thesis by (rule sys_inv_extend)
  next
    case False
    with assms(5) have "existingByName seen \<in> set (map existingByName past)" by auto
    with inv pick free of(2) have "dag_execution findRunnableTasks ?tasks
        (AList.update (pt_Name task) x (existingByName items) # existingByName items # map existingByName past)"
      by (intro dag_stale) (simp_all add: sys_inv_def)
    with inv run' new show ?thesis by (simp add: sys_inv_def)
  qed
qed

lemma sys_step_inv: "sys_step k pr c hist new \<Longrightarrow> sys_inv pr hist \<Longrightarrow> owner_keeps_key k \<Longrightarrow> sys_inv pr (new # hist)"
proof (induction rule: sys_step.induct)
  case (step_create r ord now req c res c' pr' lo seen es items past tr x)
  from run_creates_from [OF step_create.hyps(1,5)] step_create show ?case
    by (elim bexE) (rule sys_inv_create, auto)
next
  case (step_write tc vals now req c res c' tr es items p x past)
  from task_writes [OF step_write.hyps(1,3)] step_write show ?case by (intro sys_inv_put) auto
next
  case (step_decide now q c res c' es lo tr trs items p x past)
  from decision_writes [OF step_decide.hyps(1,2,4)] step_decide show ?case by (intro sys_inv_put) auto
next
  case (step_reset q c res c' es lo tr trs items p x past)
  from reset_writes [OF step_reset.hyps(1,2,4)] step_reset show ?case by (intro sys_inv_put) auto
next
  case (step_delete tr items past)
  then have run: "run_items pr items" by (simp add: sys_inv_def)
  have "started (existingByName items) (task_name tr)" using step_delete.hyps by (simp add: existing_started)
  then have "dag_step findRunnableTasks (prs_Tasks (pr_Spec pr)) (existingByName items)
      (existingByName (filter (\<lambda>y. meta_key (tr_Meta y) \<noteq> meta_key (tr_Meta tr)) items))"
    unfolding delete_existing(1) [OF run step_delete.hyps] by (rule dag_remove)
  with step_delete.prems(1) delete_existing(2) [OF run step_delete.hyps] show ?case by (rule sys_inv_extend)
next
  case (step_annotate tr items m past)
  from put_meta_update [OF sys_inv_items [OF step_annotate.prems(1)] step_annotate.hyps] step_annotate
  show ?case by (intro sys_inv_change)
qed

lemma sys_reach_inv: "sys_reach k pr hist \<Longrightarrow> owner_keeps_key k \<Longrightarrow> sys_inv pr hist"
proof (induction rule: sys_reach.induct)
  case sys_init
  then show ?case by (simp add: sys_inv_def run_items_def existingByName_def dag_init)
next
  case (sys_next hist c new)
  then show ?case by (blast intro: sys_step_inv)
qed

section \<open>What can undo a success\<close>

text \<open>
  \<open>undone c older newer n\<close>: the step from \<open>older\<close> to \<open>newer\<close> takes a success of the task \<open>n\<close> away, and its cause is one of the four that can:
  a decision of the hub (a rejection), a reset by a rerun, a deletion, or a write of the task-run reconciler to a deploy
  task, which goes on mirroring its Rollout. No creation, no other write and no change of metadata does.
\<close>

definition undone :: "cause \<Rightarrow> TaskRun list \<Rightarrow> TaskRun list \<Rightarrow> string \<Rightarrow> bool" where
  "undone c older newer n \<longleftrightarrow> succeeded (existingByName older) n \<and> \<not> succeeded (existingByName newer) n \<and>
     (c \<in> {DecidedByHub, ResetByHub, Deleted} \<or> c = WrittenByTask \<and> (\<exists>tr\<in>set older. task_name tr = n \<and> is_deploy tr))"

text \<open>In the history \<open>hist\<close>, newest first, a step after \<open>seen\<close> has undone the success of \<open>n\<close>.\<close>

definition undone_since :: "'c kclient \<Rightarrow> PipelineRun \<Rightarrow> TaskRun list list \<Rightarrow> TaskRun list \<Rightarrow> string \<Rightarrow> bool" where
  "undone_since k pr hist seen n \<longleftrightarrow> (\<exists>xs newer older ys c. hist = xs @ newer # older # ys \<and> seen \<in> set (older # ys) \<and>
     sys_step k pr c (older # ys) newer \<and> undone c older newer n)"

lemma existing_lookup: "run_items pr items \<Longrightarrow> tr \<in> set items \<Longrightarrow> map_of (existingByName items) (task_name tr) = Some tr"
  using index_by_distinct [of task_name items tr] by (simp add: run_items_def existingByName_def)

lemma change_undoes:
  assumes "run_items pr items" "tr \<in> set items"
    and "existingByName items' = AList.update (task_name tr) tr' (existingByName items)"
    and "succeeded (existingByName items) n" "\<not> succeeded (existingByName items') n"
  shows "n = task_name tr \<and> tr_Phase tr = TaskRunSucceeded \<and> tr_Phase tr' \<noteq> TaskRunSucceeded"
  using assms(3-5) existing_lookup [OF assms(1,2)] by (auto simp: succeeded_update succeeded_map_of split: if_splits)

lemma step_undoes:
  assumes "sys_step k pr c (older # ys) newer" "run_items pr older" "run_items pr newer"
    and "succeeded (existingByName older) n" "\<not> succeeded (existingByName newer) n"
  shows "undone c older newer n"
  using assms(1)
proof cases
  case (step_create r ord now req c res c' pr' lo seen es tr x)
  have "task_name x \<noteq> n"
    using assms(3) succeeded_started [OF assms(4)] step_create by (auto simp: run_items_def existing_started)
  then have "succeeded (existingByName newer) n"
    using assms(4) step_create by (simp add: existingByName_def index_by_snoc succeeded_update)
  with assms(5) show ?thesis by simp
next
  case (step_write tc vals now req c res c' tr es p x)
  note w = task_writes [OF step_write(3,5)]
  from w have "tr_Meta p = tr_Meta tr" by simp
  from change_undoes [OF assms(2) step_write(4) _ assms(4,5)] put_status_update(1) [OF assms(2) step_write(4) this]
  have "n = task_name tr \<and> tr_Phase tr = TaskRunSucceeded" unfolding step_write(2) by blast
  with w step_write assms(4,5) show ?thesis by (auto simp: undone_def)
next
  case (step_annotate tr m)
  from change_undoes [OF assms(2) step_annotate(3) _ assms(4,5)] put_meta_update(1) [OF assms(2) step_annotate(3,4)]
  have "tr_Phase tr = TaskRunSucceeded \<and> tr_Phase (tr\<lparr>tr_Meta := m\<rparr>) \<noteq> TaskRunSucceeded" unfolding step_annotate(2) by blast
  then show ?thesis by simp
qed (use assms(4,5) in \<open>simp_all add: undone_def\<close>)

inductive_cases sys_reach_step: "sys_reach k pr (new # old # ys)"

lemma sys_reach_suffix: "sys_reach k pr (xs @ old # ys) \<Longrightarrow> sys_reach k pr (old # ys)"
proof (induction xs)
  case (Cons x xs)
  then show ?case by (cases xs) (auto elim: sys_reach_step)
qed simp

lemma sys_stopped:
  assumes "sys_reach k pr hist" "owner_keeps_key k" "seen \<in> set hist" "succeeded (existingByName seen) n"
  shows "succeeded (existingByName (hd hist)) n \<or> undone_since k pr hist seen n"
proof (rule disjCI, rule ccontr)
  assume "\<not> undone_since k pr hist seen n" "\<not> succeeded (existingByName (hd hist)) n"
  from stopped_between [of seen hist "\<lambda>l. succeeded (existingByName l) n", OF assms(3,4) this(2)]
  obtain xs newer older ys where h: "hist = xs @ newer # older # ys" "seen \<in> set (older # ys)"
    "succeeded (existingByName older) n" "\<not> succeeded (existingByName newer) n" by blast
  have reach: "sys_reach k pr (newer # older # ys)" using assms(1) h(1) sys_reach_suffix by blast
  then obtain c where step: "sys_step k pr c (older # ys) newer" by (rule sys_reach_step) blast
  from sys_reach_inv [OF reach assms(2)] have "run_items pr older" "run_items pr newer" by (simp_all add: sys_inv_def)
  from step_undoes [OF step this h(3,4)] h(1,2) step have "undone_since k pr hist seen n"
    unfolding undone_since_def by blast
  with \<open>\<not> undone_since k pr hist seen n\<close> show False ..
qed

text \<open>A task run of a history, and the list its task was ready in.\<close>

lemma run_item_task: "run_items pr items \<Longrightarrow> tr \<in> set items \<Longrightarrow> \<exists>task. task_of pr task tr"
  by (simp add: run_items_def)

lemma sys_born:
  assumes "sys_reach k pr hist" "owner_keeps_key k" "distinct (map pt_Name (prs_Tasks (pr_Spec pr)))"
    and "items \<in> set hist" "t \<in> set (prs_Tasks (pr_Spec pr))" "started (existingByName items) (pt_Name t)"
  shows "\<exists>older\<in>set hist. dag_ready (prs_Tasks (pr_Spec pr)) (existingByName older) t"
proof -
  have "dag_execution findRunnableTasks (prs_Tasks (pr_Spec pr)) (map existingByName hist)"
    using sys_reach_inv [OF assms(1,2)] by (simp add: sys_inv_def)
  from runnable.execution_born [OF this assms(3) _ assms(5,6)] assms(4) show ?thesis by auto
qed

text \<open>A concrete run: a pipeline of one Serial stage of two tasks.\<close>

lemma mem_keeps_key: "owner_keeps_key mem_client"
  by (simp add: owner_keeps_key_def mem_client_simps meta_key_def)

definition sx_pr :: PipelineRun where
  "sx_pr = (ex_run PipelineRunRunning Map.empty)\<lparr>pr_Spec := (pr_Spec (ex_run PipelineRunRunning Map.empty))
     \<lparr>prs_Tasks := [ex_serial ''build'', ex_serial ''ship''], prs_TargetNamespace := ''ci''\<rparr>\<rparr>"

text \<open>The task run of a task as it is stored, with the status \<open>st\<close>.\<close>

definition sx_tr :: "string \<Rightarrow> TaskRunStatus \<Rightarrow> TaskRun" where
  "sx_tr name st = (let tr = buildTaskRun sx_pr (ex_serial name) in
     tr\<lparr>tr_Meta := (tr_Meta tr)\<lparr>om_OwnerReferences := [''r1'']\<rparr>, tr_Status := st\<rparr>)"

definition sx_running :: "string \<Rightarrow> TaskRunStatus" where
  "sx_running name = task_status0\<lparr>tst_Phase := TaskRunRunning, tst_JobRef := ''taskrun-r1-'' @ name, tst_StartTime := Some 5\<rparr>"

definition sx_done :: "string \<Rightarrow> TaskRunStatus" where
  "sx_done name = (sx_running name)\<lparr>tst_Phase := TaskRunSucceeded, tst_CompletionTime := Some 5\<rparr>"

lemma sx_tr_views [simp]:
  "task_name (sx_tr name st) = name" "tr_Status (sx_tr name st) = st"
  "tr_Meta (sx_tr name st) = meta0\<lparr>om_Name := ''r1-'' @ name, om_Namespace := ''ci'',
     om_Labels := [''sdp.io/pipeline-run'' \<mapsto> ''r1'', ''sdp.io/task'' \<mapsto> name], om_OwnerReferences := [''r1'']\<rparr>"
  "trs_Namespace (tr_Spec (sx_tr name st)) = ''ci''" "trs_PipelineRunRef (tr_Spec (sx_tr name st)) = ''r1''"
  "trs_Type (tr_Spec (sx_tr name st)) = TaskTypeBuild" "sx_tr name st\<lparr>tr_Status := st'\<rparr> = sx_tr name st'"
  by (simp_all add: sx_tr_def sx_pr_def ex_run_def ex_serial_def ex_task_def buildTaskRun_def meta0_def Let_def)

lemma sx_pr_views [simp]:
  "prs_Tasks (pr_Spec sx_pr) = [ex_serial ''build'', ex_serial ''ship'']" "om_Annotations (pr_Meta sx_pr) = Map.empty"
  "om_Name (pr_Meta sx_pr) = ''r1''" "om_Namespace (pr_Meta sx_pr) = ''ci''" "pst_Phase (pr_Status sx_pr) = PipelineRunRunning"
  by (simp_all add: sx_pr_def ex_run_def meta0_def run_status0_def)

lemma sx_create_run:
  "\<exists>res c' lo es. ex_exec sx_pr [] = (res, c', GetPR (okey ''ci'' ''r1'') (Inr sx_pr) # ListTR lo (Inr []) # es) \<and>
     CreateTR (sx_tr ''build'' task_status0) (Inr (sx_tr ''build'' task_status0)) \<in> set es"
  by (simp add: ex_simps sx_pr_def sx_tr_def ex_serial_simps)

lemma sx_ship_run:
  "\<exists>res c' lo es. ex_exec sx_pr [sx_tr ''build'' (sx_done ''build'')] =
     (res, c', GetPR (okey ''ci'' ''r1'') (Inr sx_pr) # ListTR lo (Inr [sx_tr ''build'' (sx_done ''build'')]) # es) \<and>
     CreateTR (sx_tr ''ship'' task_status0) (Inr (sx_tr ''ship'' task_status0)) \<in> set es"
  by (simp add: ex_simps sx_pr_def sx_tr_def ex_serial_simps sx_done_def sx_running_def)

abbreviation sx_task_exec :: "string \<Rightarrow> Cluster \<Rightarrow> reconcile_result \<times> Cluster \<times> effect list" where
  "sx_task_exec name \<equiv> exec (TaskRun_Reconcile mem_client tx_reconciler id 5 (okey ''ci'' (''r1-'' @ name)))"

lemma sx_job_name: "om_Name (job_Meta (Build ord b (sx_tr name st))) = ''taskrun-r1-'' @ name"
  by (simp add: Build_def Let_def)

lemma sx_start_run:
  "\<exists>res c' es job a x. sx_task_exec name (cluster0\<lparr>cl_taskRuns := [sx_tr name task_status0]\<rparr>) =
     (res, c', GetTR (okey ''ci'' (''r1-'' @ name)) (Inr (sx_tr name task_status0)) # es) \<and> CreateJob job a \<in> set es \<and>
     StatusTR (sx_tr name (sx_running name)) (Inr x) \<in> set es"
  by (simp add: tx_simps startJob_def ensureHubCAMap_def maybeStreamLogs_def tx_reconciler_def sx_running_def sx_job_name cong: bind_weak_cong)

definition sx_job :: "string \<Rightarrow> Job" where
  "sx_job name = (Build id (trr_JobBuilder tx_reconciler) (sx_tr name task_status0))\<lparr>job_Succeeded := 1\<rparr>"

lemma sx_job_views [simp]:
  "om_Name (job_Meta (sx_job name)) = ''taskrun-r1-'' @ name" "om_Namespace (job_Meta (sx_job name)) = ''ci''"
  "job_Succeeded (sx_job name) = 1"
  by (simp_all add: sx_job_def sx_job_name) (simp add: Build_def Let_def)

lemma sx_finish_run:
  "\<exists>res c' es x. sx_task_exec name (cluster0\<lparr>cl_taskRuns := [sx_tr name (sx_running name)], cl_jobs := [sx_job name]\<rparr>) =
     (res, c', GetTR (okey ''ci'' (''r1-'' @ name)) (Inr (sx_tr name (sx_running name))) # es) \<and>
     StatusTR (sx_tr name (sx_done name)) (Inr x) \<in> set es"
  by (simp add: tx_simps watchJob_def finishedTR_def sx_running_def sx_done_def cong: bind_weak_cong)

abbreviation sx_items :: "TaskRun list" where
  "sx_items \<equiv> [sx_tr ''build'' (sx_done ''build''), sx_tr ''ship'' task_status0]"

abbreviation sx_reset :: TaskRunStatus where
  "sx_reset \<equiv> rerunReset (sx_done ''build'')"

lemma sx_rerun_run:
  "\<exists>res c' lo trs es x. exec (Rerun_Handle mem_client (Inr \<lparr>rr_PipelineRunName = ''r1'', rr_TaskName = ''build'', rr_Operator = ''ada''\<rparr>))
       (cluster0\<lparr>cl_pipelineRuns := [sx_pr], cl_taskRuns := sx_items\<rparr>) = (res, c', ListTR lo (Inr (sx_tr ''build'' (sx_done ''build'') # trs)) # es) \<and>
     StatusTR (sx_tr ''build'' sx_reset) (Inr x) \<in> set es"
  by (simp add: run_simps Rerun_Handle_def rerunTask_def deleteWork_def deleteDownstream.simps reviveRun_def
      taskLabels_def downstreamKey_def DownstreamTasks_def dependents_def ex_serial_simps rerunReset_def sx_done_def sx_running_def task_status0_def cong: bind_weak_cong)

lemma sx_put: "put_status (sx_tr name st) (sx_tr name st' # trs) = sx_tr name st # put_status (sx_tr name st) trs"
  by (simp add: put_status_def put_at_def)

lemma sx_put_other: "name' \<noteq> name \<Longrightarrow> put_status (sx_tr name st) [sx_tr name' st'] = [sx_tr name' st']" "put_status p [] = []"
  by (simp_all add: put_status_def put_at_def meta_key_eq)

abbreviation sx_history :: "TaskRun list list" where
  "sx_history \<equiv> [sx_items, [sx_tr ''build'' (sx_done ''build'')], [sx_tr ''build'' (sx_running ''build'')], [sx_tr ''build'' task_status0], []]"

lemma sx_reached: "sys_reach mem_client sx_pr sx_history"
proof -
  note simps = sx_put sx_put_other stored_as_def meta_key_eq
  obtain res c' lo es where 1: "ex_exec sx_pr [] = (res, c', GetPR (okey ''ci'' ''r1'') (Inr sx_pr) # ListTR lo (Inr []) # es)"
    "CreateTR (sx_tr ''build'' task_status0) (Inr (sx_tr ''build'' task_status0)) \<in> set es"
    using sx_create_run by metis
  have "sys_reach mem_client sx_pr [[sx_tr ''build'' task_status0], []]"
    using sys_next [OF sys_init step_create [OF 1(1) _ _ _ 1(2)]] by (simp add: simps)
  moreover obtain res c' es job a x where 2: "sx_task_exec ''build'' (cluster0\<lparr>cl_taskRuns := [sx_tr ''build'' task_status0]\<rparr>) =
     (res, c', GetTR (okey ''ci'' (''r1-'' @ ''build'')) (Inr (sx_tr ''build'' task_status0)) # es)"
     "StatusTR (sx_tr ''build'' (sx_running ''build'')) (Inr x) \<in> set es"
    using sx_start_run [of "''build''"] by metis
  ultimately have "sys_reach mem_client sx_pr [[sx_tr ''build'' (sx_running ''build'')], [sx_tr ''build'' task_status0], []]"
    using sys_next [OF _ step_write [OF 2(1) _ 2(2)]] by (fastforce simp: simps)
  moreover obtain res c' es x where 3: "sx_task_exec ''build'' (cluster0\<lparr>cl_taskRuns := [sx_tr ''build'' (sx_running ''build'')], cl_jobs := [sx_job ''build'']\<rparr>) =
     (res, c', GetTR (okey ''ci'' (''r1-'' @ ''build'')) (Inr (sx_tr ''build'' (sx_running ''build''))) # es)"
     "StatusTR (sx_tr ''build'' (sx_done ''build'')) (Inr x) \<in> set es"
    using sx_finish_run [of "''build''"] by metis
  ultimately have "sys_reach mem_client sx_pr [[sx_tr ''build'' (sx_done ''build'')], [sx_tr ''build'' (sx_running ''build'')], [sx_tr ''build'' task_status0], []]"
    using sys_next [OF _ step_write [OF 3(1) _ 3(2)]] by (fastforce simp: simps)
  moreover obtain res c' lo es where 4: "ex_exec sx_pr [sx_tr ''build'' (sx_done ''build'')] =
     (res, c', GetPR (okey ''ci'' ''r1'') (Inr sx_pr) # ListTR lo (Inr [sx_tr ''build'' (sx_done ''build'')]) # es)"
     "CreateTR (sx_tr ''ship'' task_status0) (Inr (sx_tr ''ship'' task_status0)) \<in> set es"
    using sx_ship_run by metis
  ultimately show ?thesis
    using sys_next [OF _ step_create [OF 4(1) _ _ _ 4(2)]] by (fastforce simp: simps)
qed

abbreviation sx_rerun_items :: "TaskRun list" where
  "sx_rerun_items \<equiv> [sx_tr ''build'' sx_reset, sx_tr ''ship'' task_status0]"

lemma sx_reached_rerun: "sys_reach mem_client sx_pr (sx_rerun_items # sx_history)"
proof -
  obtain res c' lo trs es x where run: "exec (Rerun_Handle mem_client (Inr \<lparr>rr_PipelineRunName = ''r1'', rr_TaskName = ''build'', rr_Operator = ''ada''\<rparr>))
       (cluster0\<lparr>cl_pipelineRuns := [sx_pr], cl_taskRuns := sx_items\<rparr>) = (res, c', ListTR lo (Inr (sx_tr ''build'' (sx_done ''build'') # trs)) # es)"
     "StatusTR (sx_tr ''build'' sx_reset) (Inr x) \<in> set es"
    using sx_rerun_run by metis
  have "sys_step mem_client sx_pr ResetByHub sx_history (put_status (sx_tr ''build'' sx_reset) sx_items)"
    by (rule step_reset [OF run(1) _ _ list.set_intros(2) [OF run(2)]], rule list.set_intros(1)) simp
  from sys_next [OF sx_reached this] show ?thesis by (simp add: sx_put sx_put_other)
qed

lemma sx_phases:
  "succeeded (existingByName [sx_tr a s, sx_tr b t]) n \<longleftrightarrow> (if n = b then tst_Phase t = TaskRunSucceeded else n = a \<and> tst_Phase s = TaskRunSucceeded)"
  "started (existingByName [sx_tr a s, sx_tr b t]) n \<longleftrightarrow> n = a \<or> n = b"
  by (auto simp: existingByName_def index_by_def succeeded_update started_update) (auto simp: succeeded_def started_def split: if_splits)

lemma sx_statuses [simp]:
  "tst_Phase task_status0 = TaskRunUnset" "tst_Phase (sx_done name) = TaskRunSucceeded" "tst_Phase sx_reset = TaskRunPending"
  by (simp_all add: sx_done_def sx_running_def rerunReset_def task_status0_def)

lemma sx_lost:
  "succeeded (existingByName sx_items) ''build''" "\<not> succeeded (existingByName sx_rerun_items) ''build''"
  "started (existingByName sx_rerun_items) ''build''" "started (existingByName sx_rerun_items) ''ship''"
  "\<not> succeeded (existingByName sx_rerun_items) ''ship''"
  by (simp_all add: sx_phases)

section \<open>The properties\<close>

text \<open>C2: Everything that writes the task runs of a run, together, refines the scheduler. However the requests of the two reconcilers,
  the decisions, the reruns, the deletions and the changes of metadata interleave, and however old the lists are that are read, the
  lists the server stores are an execution of the abstract scheduler, each holds at most one task run per task and each
  task run is the one \<open>buildTaskRun\<close> makes of a task of the run; and a success that any of them showed is still there, unless a step
  since then has undone it, which only a decision, a reset, a deletion or a write to a deploy task does.\<close>

theorem system_refines_scheduler:
  assumes "sys_reach k pr hist" "owner_keeps_key k"
  shows "dag_execution findRunnableTasks (prs_Tasks (pr_Spec pr)) (map existingByName hist) \<and>
     (\<forall>items\<in>set hist. distinct (map task_name items) \<and>
        (\<forall>tr\<in>set items. \<exists>task\<in>set (prs_Tasks (pr_Spec pr)). tr_Spec tr = tr_Spec (buildTaskRun pr task) \<and>
           meta_key (tr_Meta tr) = meta_key (tr_Meta (buildTaskRun pr task)))) \<and>
     (\<forall>seen\<in>set hist. \<forall>n. succeeded (existingByName seen) n \<longrightarrow>
        succeeded (existingByName (hd hist)) n \<or> undone_since k pr hist seen n)"
  using sys_reach_inv [OF assms] sys_stopped [OF assms] by (fastforce simp: sys_inv_def run_items_def task_of_def)

lemma system_refines_scheduler_witness:
  "dag_execution findRunnableTasks [ex_serial ''build'', ex_serial ''ship''] (map existingByName (sx_rerun_items # sx_history)) \<and>
     succeeded (existingByName sx_items) ''build'' \<and> \<not> succeeded (existingByName sx_rerun_items) ''build'' \<and>
     undone_since mem_client sx_pr (sx_rerun_items # sx_history) sx_items ''build''"
proof -
  note r = system_refines_scheduler [OF sx_reached_rerun mem_keeps_key]
  have "sx_items \<in> set (sx_rerun_items # sx_history)" by simp
  with r sx_lost(1,2) have "undone_since mem_client sx_pr (sx_rerun_items # sx_history) sx_items ''build''"
    unfolding list.sel by blast
  with r sx_lost(1,2) show ?thesis unfolding sx_pr_views by blast
qed

text \<open>C4: No Job before its dependencies. When a task-run reconcile that has read any stored version of a task run requests a Job, then the
  Job is the one \<open>Build\<close> makes of it, the task run is the one of a task of the run, and it goes back to an earlier stored list in
  which that task had no task run and every task it depends on and every earlier task of its Serial stage had Succeeded; each of
  them still has, unless a decision, a reset, a deletion or a write to a deploy task has undone it since.\<close>

theorem job_after_dependencies:
  assumes "sys_reach k pr (xs @ seen # ys)" "owner_keeps_key k" "distinct (map pt_Name (prs_Tasks (pr_Spec pr)))"
    and "exec (TaskRun_Reconcile k tc vals now req) c = (res, c', GetTR req (Inr tr) # es)" "tr \<in> set seen" "CreateJob job a \<in> set es"
  shows "\<exists>task\<in>set (prs_Tasks (pr_Spec pr)). \<exists>m. \<exists>older\<in>set ys.
     job = (Build vals (trr_JobBuilder tc) tr)\<lparr>job_Meta := m\<rparr> \<and> tr_Spec tr = tr_Spec (buildTaskRun pr task) \<and>
     dag_ready (prs_Tasks (pr_Spec pr)) (existingByName older) task \<and>
     (\<forall>n \<in> set (pt_DependsOn task) \<union> {pt_Name s | s. serial_before (prs_Tasks (pr_Spec pr)) s task}.
        succeeded (existingByName (hd (xs @ seen # ys))) n \<or> undone_since k pr (xs @ seen # ys) older n)"
proof -
  let ?tasks = "prs_Tasks (pr_Spec pr)"
  have reach: "sys_reach k pr (seen # ys)" using assms(1) by (rule sys_reach_suffix)
  obtain task where task: "task_of pr task tr"
    using run_item_task [OF sys_inv_items [OF sys_reach_inv [OF reach assms(2)]] assms(5)] by blast
  have t: "task \<in> set ?tasks" "tr_Spec tr = tr_Spec (buildTaskRun pr task)" using task by (simp_all add: task_of_def)
  have "started (existingByName seen) (pt_Name task)"
    using assms(5) task_of_name [OF task] by (force simp: existing_started)
  with sys_born [OF reach assms(2,3) _ t(1), of seen] obtain older where
    older: "older \<in> set (seen # ys)" "dag_ready ?tasks (existingByName older) task" by auto
  with \<open>started (existingByName seen) (pt_Name task)\<close> have "older \<in> set ys" by (auto simp: dag_ready_def)
  moreover from this have "older \<in> set (xs @ seen # ys)" by simp
  note still = sys_stopped [OF assms(1,2) this]
  moreover have "\<exists>m. job = (Build vals (trr_JobBuilder tc) tr)\<lparr>job_Meta := m\<rparr>"
    using TaskRun_path [OF assms(4)] assms(6) by cases (auto elim: deploy_path.cases dest: job_path_creates)
  moreover have "\<forall>n \<in> set (pt_DependsOn task) \<union> {pt_Name s | s. serial_before ?tasks s task}. succeeded (existingByName older) n"
    using older(2) by (auto simp: dag_ready_def)
  ultimately show ?thesis using t older(2) by blast
qed

text \<open>The Job of \<open>ship\<close> is requested although \<open>build\<close>, which had Succeeded when its task run was created, has been rerun.\<close>

lemma job_after_dependencies_witness:
  "\<exists>res c' es job a older. sx_task_exec ''ship'' (cluster0\<lparr>cl_taskRuns := [sx_tr ''ship'' task_status0]\<rparr>) =
       (res, c', GetTR (okey ''ci'' (''r1-'' @ ''ship'')) (Inr (sx_tr ''ship'' task_status0)) # es) \<and> CreateJob job a \<in> set es \<and>
     older \<in> set sx_history \<and> succeeded (existingByName older) ''build'' \<and>
     undone_since mem_client sx_pr (sx_rerun_items # sx_history) older ''build''"
proof -
  obtain res c' es job a where run: "sx_task_exec ''ship'' (cluster0\<lparr>cl_taskRuns := [sx_tr ''ship'' task_status0]\<rparr>) =
     (res, c', GetTR (okey ''ci'' (''r1-'' @ ''ship'')) (Inr (sx_tr ''ship'' task_status0)) # es)" "CreateJob job a \<in> set es"
    using sx_start_run [of "''ship''"] by metis
  have reach: "sys_reach mem_client sx_pr ([] @ sx_rerun_items # sx_history)" using sx_reached_rerun by simp
  have d: "distinct (map pt_Name (prs_Tasks (pr_Spec sx_pr)))" "sx_tr ''ship'' task_status0 \<in> set sx_rerun_items"
    by (simp_all add: ex_serial_def ex_task_def)
  obtain task older where task: "tr_Spec (sx_tr ''ship'' task_status0) = tr_Spec (buildTaskRun sx_pr task)"
    "task \<in> set (prs_Tasks (pr_Spec sx_pr))"
    and older: "older \<in> set sx_history" "dag_ready (prs_Tasks (pr_Spec sx_pr)) (existingByName older) task"
    "\<forall>n \<in> set (pt_DependsOn task) \<union> {pt_Name s | s. serial_before (prs_Tasks (pr_Spec sx_pr)) s task}.
       succeeded (existingByName (hd ([] @ sx_rerun_items # sx_history))) n \<or> undone_since mem_client sx_pr ([] @ sx_rerun_items # sx_history) older n"
    using job_after_dependencies [OF reach mem_keeps_key d(1) run(1) d(2) run(2)] by blast
  have "pt_Name task = ''ship''" using arg_cong [OF task(1), of trs_TaskName] by simp
  with task(2) have t: "task = ex_serial ''ship''" by (auto simp: ex_serial_def ex_task_def)
  have s: "serial_before (prs_Tasks (pr_Spec sx_pr)) (ex_serial ''build'') task" "pt_Name (ex_serial ''build'') = ''build''"
    unfolding t by (simp_all add: serial_before_def ex_serial_simps)
  then have "succeeded (existingByName older) ''build''" using older(2) by (auto simp: dag_ready_def)
  moreover have "undone_since mem_client sx_pr (sx_rerun_items # sx_history) older ''build''"
    using older(3) s by (force simp: sx_phases)
  ultimately show ?thesis using run older(1) by blast
qed



section \<open>Completion\<close>

text \<open>
  The other half of the state is the PipelineRun: a status write of a reconcile that read a stored list of task runs,
  a change of its metadata (a cancel request too), or its revival when a task of a Failed run is rerun.
\<close>

inductive run_next :: "'c kclient \<Rightarrow> TaskRun list list \<Rightarrow> PipelineRun \<Rightarrow> PipelineRun \<Rightarrow> bool"
  for k :: "'c kclient" and hist pr where
  next_write: "exec (PipelineRun_Reconcile k r ord now req) c = (res, c', GetPR req (Inr pr) # ListTR lo (Inr seen) # es) \<Longrightarrow>
     seen \<in> set hist \<Longrightarrow> StatusPR p (Inr x) \<in> set es \<Longrightarrow> run_next k hist pr (pr\<lparr>pr_Status := pr_Status p\<rparr>)"
| next_annotate: "meta_key m = meta_key (pr_Meta pr) \<Longrightarrow> run_next k hist pr (pr\<lparr>pr_Meta := m\<rparr>)"
| next_revive: "exec (Rerun_Handle k (Inr q)) c = (res, c', es) \<Longrightarrow> GetPR key (Inr pr) \<in> set es \<Longrightarrow> StatusPR p (Inr x) \<in> set es \<Longrightarrow>
     run_next k hist pr (pr\<lparr>pr_Status := pr_Status p\<rparr>)"

abbreviation run_phase :: "PipelineRun \<Rightarrow> PipelineRunPhase" where
  "run_phase pr \<equiv> pst_Phase (pr_Status pr)"

lemma revive_writes:
  assumes "exec (Rerun_Handle k (Inr q)) c = (res, c', es)" "GetPR key (Inr pr) \<in> set es" "StatusPR p a \<in> set es"
  shows "run_phase pr = PipelineRunFailed \<and> p = revivedRun pr"
proof -
  have no: "rerun_event tr' pr' e \<Longrightarrow> e \<noteq> GetPR key' ans" for tr' pr' e key' ans
    by (auto simp: rerun_event_def work_event_def)
  have status: "rerun_event tr' pr' (StatusPR p a) \<Longrightarrow> run_phase pr' = PipelineRunFailed \<and> p = revivedRun pr'" for tr' pr'
    by (auto simp: rerun_event_def work_event_def)
  from emits_exec [OF Rerun_emits assms(1)] assms(2,3) obtain tr' trs' pr' es' where
    es: "es = ListTR (taskLabels (rr_PipelineRunName q) (rr_TaskName q)) (Inr (tr' # trs')) #
       GetPR (okey (trs_Namespace (tr_Spec tr')) (trs_PipelineRunRef (tr_Spec tr'))) (Inr pr') # es'" "list_all (rerun_event tr' pr') es'"
    by (auto simp: Let_def)
  have "GetPR key (Inr pr) \<notin> set es'" using es(2) no unfolding list_all_iff by blast
  with assms(2) es(1) have "pr' = pr" by simp
  moreover have "rerun_event tr' pr' (StatusPR p a)" using es assms(3) by (auto simp: list_all_iff)
  ultimately show ?thesis using status by blast
qed

text \<open>Every step keeps the specification and the key; a finished run keeps its status, except that a Failed one may be revived.\<close>

lemma run_next_keeps:
  assumes "run_next k hist pr pr'"
  shows "pr_Spec pr' = pr_Spec pr" "meta_key (pr_Meta pr') = meta_key (pr_Meta pr)"
  using assms by (cases; simp)+

lemma run_next_finished:
  assumes "run_next k hist pr pr'" "isTerminalPhase (run_phase pr)"
  shows "pr_Status pr' = pr_Status pr \<or> run_phase pr = PipelineRunFailed \<and> run_phase pr' = PipelineRunRunning"
  using assms(1)
proof cases
  case (next_write r ord now req c res c' lo seen es p x)
  from run_path_terminal [OF conjunct2 [OF Reconcile_path [OF next_write(2)]] assms(2)] show ?thesis by (auto split: if_splits)
next
  case (next_revive q c res c' es key p x)
  from revive_writes [OF next_revive(2-4)] next_revive(1) show ?thesis by (simp add: revivedRun_def)
qed simp

text \<open>What a run ends with is what a stored list shows.\<close>

definition verdict_of :: "PipelineRun \<Rightarrow> TaskRun list list \<Rightarrow> bool" where
  "verdict_of pr hist \<longleftrightarrow>
     (case run_phase pr of
        PipelineRunSucceeded \<Rightarrow> pst_CompletionTime (pr_Status pr) \<noteq> None \<and>
          (\<exists>items\<in>set hist. allTasksSucceeded (prs_Tasks (pr_Spec pr)) (existingByName items))
      | PipelineRunFailed \<Rightarrow> (\<exists>items\<in>set hist. hasFailedTask (existingByName items))
      | PipelineRunCancelled \<Rightarrow> False
      | _ \<Rightarrow> True)"

lemma verdict_mono: "verdict_of pr hist \<Longrightarrow> set hist \<subseteq> set hist' \<Longrightarrow> verdict_of pr hist'"
  unfolding verdict_of_def by (cases "run_phase pr") auto

lemma verdict_cong:
  "pr_Status pr' = pr_Status pr \<Longrightarrow> pr_Spec pr' = pr_Spec pr \<Longrightarrow> verdict_of pr' hist \<longleftrightarrow> verdict_of pr hist"
  by (cases "run_phase pr") (simp_all add: verdict_of_def)

lemma verdict_decided:
  assumes "\<not> isTerminalPhase (run_phase pr)" "items \<in> set hist" "pr_Spec pr' = pr_Spec pr"
    and "pr_Status pr' = pr_Status (decided now pr items ros)"
  shows "verdict_of pr' hist"
  using assms decided_succeeded [OF assms(1), of now items ros] decided_failed [OF assms(1), of now items ros]
    decided_not_cancelled [OF assms(1), of now items ros] decided_completion [OF assms(1), of now items ros]
  unfolding verdict_of_def by (auto split: PipelineRunPhase.splits)

lemma run_next_verdict:
  assumes "run_next k hist pr pr'" "verdict_of pr hist" "om_Annotations (pr_Meta pr) AnnCancelRequested = None"
  shows "verdict_of pr' hist"
  using assms(1)
proof cases
  case (next_write r ord now req c res c' lo seen es p x)
  from run_path_tasks [OF conjunct2 [OF Reconcile_path [OF next_write(2)]], of p "Inr x"] assms(3) next_write(4)
  have t: "\<not> isTerminalPhase (run_phase pr)" by auto
  have "run_path k r ord now req (snd res) (GetPR req (Inr pr) # ListTR lo (Inr seen) # es)"
    using Reconcile_path [OF next_write(2)] by simp
  then obtain ros e es' where "tasks_path k r now (defaultPhase pr) seen ros e es'" "StatusPR p (Inr x) \<in> set es'"
    using assms(3) next_write(4) t by cases auto
  from tasks_path_status [OF this] have "p = decided now (defaultPhase pr) seen ros" by simp
  with verdict_decided [of "defaultPhase pr" seen hist pr' now ros] t next_write show ?thesis by simp
next
  case (next_annotate m)
  then show ?thesis using assms(2) verdict_cong [of pr' pr] by simp
next
  case (next_revive q c res c' es key p x)
  from revive_writes [OF next_revive(2-4)] next_revive(1) show ?thesis by (simp add: revivedRun_def verdict_of_def)
qed

text \<open>Once all its task runs have Succeeded, an unfinished run gets a new one.\<close>

lemma settled_run_advances:
  assumes "exec (PipelineRun_Reconcile k r ord now req) c = ((0, None), c', GetPR req (Inr pr) # ListTR lo (Inr items) # ListRO lo' (Inr ros) # es)"
    and "om_Annotations (pr_Meta pr) AnnCancelRequested = None" "dag_ranked rank (prs_Tasks (pr_Spec pr))"
    and settled: "\<forall>tr\<in>set items. succeeded (existingByName items) (task_name tr)"
    and left: "t0 \<in> set (prs_Tasks (pr_Spec pr))" "\<not> succeeded (existingByName items) (pt_Name t0)"
  shows "\<exists>tr a. CreateTR tr a \<in> set es \<and> \<not> started (existingByName items) (task_name tr)"
proof -
  let ?tasks = "prs_Tasks (pr_Spec pr)" and ?ex = "existingByName items"
  have all: "succeeded ?ex n" if "started ?ex n" for n
    using that settled by (auto simp: existing_started)
  have "tr_Phase tr = TaskRunSucceeded" if "map_of ?ex n = Some tr" for n tr
    using all [of n] that by (simp add: started_def succeeded_def)
  note finished = this
  have quiet: "findPendingApproval ?tasks ?ex = None" "\<not> hasFailedTask ?ex"
  proof -
    show "findPendingApproval ?tasks ?ex = None"
      using findPendingApproval_SomeD [of ?tasks ?ex] finished by (cases "findPendingApproval ?tasks ?ex") fastforce+
    have "distinct (map fst ?ex)" unfolding existingByName_def by (rule distinct_index_by)
    then show "\<not> hasFailedTask ?ex" using finished by (fastforce simp: hasFailedTask_iff)
  qed
  obtain task where task: "task \<in> set (findRunnableTasks ?tasks ?ex)"
    using runnable.pick_progress [OF assms(3), of ?ex t0] all left by (auto simp: dag_settled_def dag_todo_def)
  obtain rbac creates a where
    creates: "creates_for k (scheduled_view pr items ros) (findRunnableTasks ?tasks ?ex) None creates"
    and es: "es = rbac @ creates @ StatusPR (advancePhase now (scheduled_view pr items ros) ?ex) a # report_events r a"
    using scheduled_transcript [OF assms(1,2) quiet] by blast
  from creates_for_all [OF creates task] es runnable.pick_fresh [OF task] show ?thesis
    by (fastforce simp: scheduled_build)
qed

text \<open>Finitely many things that each hold from some point on hold together from some point on.\<close>

lemma eventually_all:
  assumes "finite S" "\<forall>x\<in>S. \<exists>i::nat. \<forall>j\<ge>i. P x j"
  shows "\<exists>i. \<forall>j\<ge>i. \<forall>x\<in>S. P x j"
  using assms
proof (induction S rule: finite_induct)
  case (insert x S)
  then obtain i i' where "\<forall>j\<ge>i. \<forall>x\<in>S. P x j" "\<forall>j\<ge>i'. P x j" by auto
  then show ?case by (intro exI [of _ "max i i'"]) auto
qed simp

text \<open>
  A schedule is an infinite sequence of the stored run and of the histories of its task runs: the run starts unfinished and without task
  runs, and at each point each of the two stays or makes a step.
\<close>

definition sys_schedule :: "'c kclient \<Rightarrow> (nat \<Rightarrow> PipelineRun) \<Rightarrow> (nat \<Rightarrow> TaskRun list list) \<Rightarrow> bool" where
  "sys_schedule k R H \<longleftrightarrow> \<not> isTerminalPhase (run_phase (R 0)) \<and> H 0 = [[]] \<and>
     (\<forall>i. sys_reach k (R 0) (H i) \<and> (H (Suc i) = H i \<or> (\<exists>items. H (Suc i) = items # H i)) \<and>
        (R (Suc i) = R i \<or> run_next k (H i) (R i) (R (Suc i))))"

text \<open>
  What the environment owes. Every task run that ever exists comes to an end: from some point on the newest list shows it as
  Succeeded or Failed (retried, approved, rerun and recreated before that as often as it may be). And from some point on no
  Failed run is revived.
\<close>

definition ended :: "TaskRun gomap \<Rightarrow> string \<Rightarrow> bool" where
  "ended existing n \<longleftrightarrow> (\<exists>tr. map_of existing n = Some tr \<and> tr_Phase tr \<in> {TaskRunSucceeded, TaskRunFailed})"

definition tasks_end :: "(nat \<Rightarrow> TaskRun list list) \<Rightarrow> bool" where
  "tasks_end H \<longleftrightarrow> (\<forall>i. \<forall>tr\<in>set (hd (H i)). \<exists>m. \<forall>j\<ge>m. ended (existingByName (hd (H j))) (task_name tr))"

definition reruns_stop :: "(nat \<Rightarrow> PipelineRun) \<Rightarrow> bool" where
  "reruns_stop R \<longleftrightarrow> (\<exists>m. \<forall>j\<ge>m. run_phase (R j) = PipelineRunFailed \<longrightarrow> run_phase (R (Suc j)) = PipelineRunFailed)"

text \<open>
  And the run is served: as long as it is not finished there is, again and again, a reconcile that reads the stored run and the
  newest list and ends without an error, and what it has requested takes effect at some point: its creations and its status.
\<close>

definition served_at :: "'c kclient \<Rightarrow> (nat \<Rightarrow> PipelineRun) \<Rightarrow> (nat \<Rightarrow> TaskRun list list) \<Rightarrow> nat \<Rightarrow> bool" where
  "served_at k R H j \<longleftrightarrow> (\<exists>r ord now req c c' lo lo' ros es.
     exec (PipelineRun_Reconcile k r ord now req) c =
       ((0, None), c', GetPR req (Inr (R j)) # ListTR lo (Inr (hd (H j))) # ListRO lo' (Inr ros) # es) \<and>
     (\<forall>tr a. CreateTR tr a \<in> set es \<longrightarrow> (\<exists>i\<ge>j. started (existingByName (hd (H i))) (task_name tr))) \<and>
     (\<forall>p a. StatusPR p a \<in> set es \<longrightarrow> (\<exists>i\<ge>j. pr_Status (R i) = pr_Status p)))"

definition run_served :: "'c kclient \<Rightarrow> (nat \<Rightarrow> PipelineRun) \<Rightarrow> (nat \<Rightarrow> TaskRun list list) \<Rightarrow> bool" where
  "run_served k R H \<longleftrightarrow> (\<forall>i. \<exists>j\<ge>i. isTerminalPhase (run_phase (R j)) \<or> served_at k R H j)"

lemma schedule_keeps:
  assumes "sys_schedule k R H"
  shows "pr_Spec (R i) = pr_Spec (R 0)" "set (H i) \<subseteq> set (H (Suc i))"
proof -
  show "pr_Spec (R i) = pr_Spec (R 0)"
  proof (induction i)
    case (Suc i)
    then show ?case using assms run_next_keeps(1) [of k "H i" "R i" "R (Suc i)"] by (metis sys_schedule_def)
  qed simp
  show "set (H i) \<subseteq> set (H (Suc i))" using assms unfolding sys_schedule_def by (metis order_refl set_subset_Cons)
qed

lemma schedule_verdict:
  assumes "sys_schedule k R H" "\<forall>i. om_Annotations (pr_Meta (R i)) AnnCancelRequested = None"
  shows "verdict_of (R i) (H i)"
proof (induction i)
  case 0
  have "\<not> isTerminalPhase (run_phase (R 0))" using assms(1) by (simp add: sys_schedule_def)
  then show ?case by (cases "run_phase (R 0)") (simp_all add: verdict_of_def isTerminalPhase_def)
next
  case (Suc i)
  have "verdict_of (R (Suc i)) (H i)"
    using assms Suc run_next_verdict [of k "H i" "R i" "R (Suc i)"] by (metis sys_schedule_def)
  then show ?case using schedule_keeps(2) [OF assms(1)] by (rule verdict_mono)
qed

text \<open>Without a Failed one to be revived, a finished run stays as it is.\<close>

lemma schedule_finished:
  assumes "sys_schedule k R H" "isTerminalPhase (run_phase (R i))" "i \<le> j"
    and "\<forall>j\<ge>i. run_phase (R j) = PipelineRunFailed \<longrightarrow> run_phase (R (Suc j)) = PipelineRunFailed"
  shows "pr_Status (R j) = pr_Status (R i)"
  using assms(3)
proof (induction rule: dec_induct)
  case (step j)
  have "R (Suc j) = R j \<or> run_next k (H j) (R j) (R (Suc j))" using assms(1) by (simp add: sys_schedule_def)
  then show ?case using run_next_finished [of k "H j" "R j" "R (Suc j)"] step assms(2,4) by fastforce
qed simp

text \<open>The status an error-free reconcile writes.\<close>

lemma served_status:
  assumes "exec (PipelineRun_Reconcile k r ord now req) c = ((0, None), c', GetPR req (Inr pr) # ListTR lo (Inr items) # ListRO lo' (Inr ros) # es)"
    and "om_Annotations (pr_Meta pr) AnnCancelRequested = None"
  shows "\<exists>a. StatusPR (decided now (defaultPhase pr) items ros) a \<in> set es" "\<not> isTerminalPhase (run_phase pr)"
proof -
  have "run_path k r ord now req None (GetPR req (Inr pr) # ListTR lo (Inr items) # ListRO lo' (Inr ros) # es)"
    using Reconcile_path [OF assms(1)] by simp
  with assms(2) have "tasks_path k r now (defaultPhase pr) items ros None es \<and> \<not> isTerminalPhase (run_phase pr)"
    by (auto elim!: run_path.cases)
  then show "\<not> isTerminalPhase (run_phase pr)" "\<exists>a. StatusPR (decided now (defaultPhase pr) items ros) a \<in> set es"
    by (auto elim!: tasks_path.cases schedule_path.cases simp: decided_def)
qed

lemma ended_quiet:
  assumes "\<forall>tr\<in>set items. ended (existingByName items) (task_name tr)" "distinct (map task_name items)"
  shows "findPendingApproval tasks (existingByName items) = None"
    and "\<not> hasFailedTask (existingByName items) \<Longrightarrow> tr \<in> set items \<Longrightarrow> succeeded (existingByName items) (task_name tr)"
proof -
  have look: "map_of (existingByName items) (task_name tr) = Some tr" if "tr \<in> set items" for tr
    using index_by_distinct [OF assms(2) that] by (simp add: existingByName_def)
  then have phase: "tr_Phase tr \<in> {TaskRunSucceeded, TaskRunFailed}" if "tr \<in> set items" for tr
    using assms(1) that by (force simp: ended_def)
  have of: "tr \<in> set items" if "map_of (existingByName items) n = Some tr" for n tr
    using map_of_SomeD [OF that] by (auto simp: existing_map [OF assms(2)])
  show "findPendingApproval tasks (existingByName items) = None"
    using findPendingApproval_SomeD [of tasks "existingByName items"] of phase
    by (cases "findPendingApproval tasks (existingByName items)") fastforce+
  show "succeeded (existingByName items) (task_name tr)" if "\<not> hasFailedTask (existingByName items)" "tr \<in> set items"
    using that phase [OF that(2)] look [OF that(2)] map_of_SomeD [OF look [OF that(2)]]
    by (auto simp: hasFailedTask_iff succeeded_map_of)
qed

lemma served_advances:
  assumes run: "exec (PipelineRun_Reconcile k r ord now req) c = ((0, None), c', GetPR req (Inr pr) # ListTR lo (Inr items) # ListRO lo' (Inr ros) # es)"
    and "om_Annotations (pr_Meta pr) AnnCancelRequested = None" "dag_ranked rank (prs_Tasks (pr_Spec pr))"
    and ended: "\<forall>tr\<in>set items. ended (existingByName items) (task_name tr)" "distinct (map task_name items)"
  shows "isTerminalPhase (run_phase (decided now (defaultPhase pr) items ros)) \<or>
     (\<exists>tr a. CreateTR tr a \<in> set es \<and> \<not> started (existingByName items) (task_name tr))"
proof -
  let ?new = "decided now (defaultPhase pr) items ros" and ?ex = "existingByName items"
  have live: "\<not> isTerminalPhase (run_phase (defaultPhase pr))" using served_status(2) [OF run assms(2)] by simp
  show ?thesis
  proof (cases "hasFailedTask ?ex \<or> allTasksSucceeded (prs_Tasks (pr_Spec pr)) ?ex")
    case True
    then show ?thesis
      using ended_quiet(1) [OF ended] decided_failed [OF live, of now items ros] decided_succeeded [OF live, of now items ros]
      by (auto simp: isTerminalPhase_def)
  next
    case False
    with ended_quiet(2) [OF ended] have "\<forall>tr\<in>set items. succeeded ?ex (task_name tr)" by blast
    with False settled_run_advances [OF run assms(2,3)] show ?thesis unfolding allTasksSucceeded_iff by blast
  qed
qed

text \<open>In a schedule only the tasks of the run are ever started, so all of them have ended from some point on.\<close>

lemma schedule_items:
  assumes "sys_schedule k R H" "owner_keeps_key k"
  shows "run_items (R 0) (hd (H i))"
  using assms sys_reach_inv unfolding sys_schedule_def sys_inv_def by (metis list.set_sel(1))

lemma schedule_ends:
  assumes "sys_schedule k R H" "owner_keeps_key k" "tasks_end H"
  shows "\<exists>K. \<forall>j\<ge>K. \<forall>i n. started (existingByName (hd (H i))) n \<longrightarrow> ended (existingByName (hd (H j))) n"
proof -
  define E where "E = {n. \<exists>i. started (existingByName (hd (H i))) n}"
  have "n \<in> pt_Name ` set (prs_Tasks (pr_Spec (R 0)))" if "n \<in> E" for n
  proof -
    from that obtain i tr where "tr \<in> set (hd (H i))" "task_name tr = n" by (auto simp: E_def existing_started)
    then show ?thesis using run_item_task [OF schedule_items [OF assms(1,2)]] task_of_name by (force simp: task_of_def)
  qed
  then have "finite E" by (meson finite_imageI finite_set finite_subset subsetI)
  moreover have "\<forall>n\<in>E. \<exists>m. \<forall>j\<ge>m. ended (existingByName (hd (H j))) n"
    using assms(3) by (auto simp: E_def tasks_end_def existing_started)
  ultimately obtain K where "\<forall>j\<ge>K. \<forall>n\<in>E. ended (existingByName (hd (H j))) n"
    using eventually_all [of E "\<lambda>n j. ended (existingByName (hd (H j))) n"] by blast
  then show ?thesis by (intro exI [of _ K]) (auto simp: E_def)
qed

text \<open>So the run is finished, later than any given point.\<close>

lemma schedule_finishes:
  assumes "sys_schedule k R H" "owner_keeps_key k" "dag_ranked rank (prs_Tasks (pr_Spec (R 0)))"
    and "\<forall>i. om_Annotations (pr_Meta (R i)) AnnCancelRequested = None" "tasks_end H" "run_served k R H"
  shows "\<exists>i\<ge>m. isTerminalPhase (run_phase (R i))"
proof (rule ccontr)
  let ?ex = "\<lambda>i. existingByName (hd (H i))"
  assume "\<not> (\<exists>i\<ge>m. isTerminalPhase (run_phase (R i)))"
  then have live: "\<And>i. i \<ge> m \<Longrightarrow> \<not> isTerminalPhase (run_phase (R i))" by blast
  obtain K where K: "\<And>i j n. j \<ge> K \<Longrightarrow> started (?ex i) n \<Longrightarrow> ended (?ex j) n"
    using schedule_ends [OF assms(1,2,5)] by blast
  obtain j where j: "j \<ge> m" "j \<ge> K" and "served_at k R H j"
    using assms(6) live unfolding run_served_def by (meson le_trans max.cobounded1 max.cobounded2)
  then obtain r ord now req c c' lo lo' ros es where
    run: "exec (PipelineRun_Reconcile k r ord now req) c =
       ((0, None), c', GetPR req (Inr (R j)) # ListTR lo (Inr (hd (H j))) # ListRO lo' (Inr ros) # es)"
    and created: "\<forall>tr a. CreateTR tr a \<in> set es \<longrightarrow> (\<exists>i\<ge>j. started (?ex i) (task_name tr))"
    and stored: "\<forall>p a. StatusPR p a \<in> set es \<longrightarrow> (\<exists>i\<ge>j. pr_Status (R i) = pr_Status p)"
    unfolding served_at_def by blast
  note none = assms(4) [rule_format, of j]
  obtain i where i: "i \<ge> j" "pr_Status (R i) = pr_Status (decided now (defaultPhase (R j)) (hd (H j)) ros)"
    using served_status(1) [OF run none] stored by blast
  have "\<forall>tr\<in>set (hd (H j)). ended (?ex j) (task_name tr)" using K [of j j] j by (simp add: existing_started)
  moreover have "distinct (map task_name (hd (H j)))" using schedule_items [OF assms(1,2), of j] by (simp add: run_items_def)
  moreover have "dag_ranked rank (prs_Tasks (pr_Spec (R j)))" using assms(3) schedule_keeps(1) [OF assms(1), of j] by simp
  ultimately obtain tr a where "CreateTR tr a \<in> set es" "\<not> started (?ex j) (task_name tr)"
    using served_advances [OF run none] live [of i] i j by fastforce
  moreover from this(1) created K [of j] j have "ended (?ex j) (task_name tr)" by blast
  ultimately show False by (auto simp: ended_def started_def)
qed

text \<open>C3: A served run comes to its end. Take any schedule of the stored run and its task runs, with all the steps of C2 and stale reads,
  in which nobody asks to cancel, and suppose that every task run that ever exists ends as Succeeded or Failed, that reruns stop
  reviving the run, and that, while it is not finished, error-free reconciles of the current state come back
  again and again and take effect. Then, if the dependencies and Serial stages are acyclic, the status of the run is the same from some
  point on, and it is Succeeded, with a completion time and a stored list in which every task had Succeeded, or Failed, with
  a stored list in which a task had Failed; so it ends as Succeeded where no task ever fails.\<close>

theorem fair_system_completes:
  assumes "sys_schedule k R H" "owner_keeps_key k" "dag_ranked rank (prs_Tasks (pr_Spec (R 0)))"
    and "\<forall>i. om_Annotations (pr_Meta (R i)) AnnCancelRequested = None"
    and "tasks_end H" "reruns_stop R" "run_served k R H"
  shows "\<exists>i. (\<forall>j\<ge>i. pr_Status (R j) = pr_Status (R i)) \<and>
     (run_phase (R i) = PipelineRunSucceeded \<and> pst_CompletionTime (pr_Status (R i)) \<noteq> None \<and>
        (\<exists>items\<in>set (H i). allTasksSucceeded (prs_Tasks (pr_Spec (R 0))) (existingByName items)) \<or>
      run_phase (R i) = PipelineRunFailed \<and> (\<exists>items\<in>set (H i). hasFailedTask (existingByName items)))"
proof -
  obtain N where N: "\<forall>j\<ge>N. run_phase (R j) = PipelineRunFailed \<longrightarrow> run_phase (R (Suc j)) = PipelineRunFailed"
    using assms(6) by (auto simp: reruns_stop_def)
  obtain i where i: "i \<ge> N" "isTerminalPhase (run_phase (R i))"
    using schedule_finishes [OF assms(1-5,7)] by blast
  have "pr_Status (R j) = pr_Status (R i)" if "j \<ge> i" for j
    using schedule_finished [OF assms(1) i(2) that] N i(1) by simp
  moreover have "run_phase (R i) = PipelineRunSucceeded \<and> pst_CompletionTime (pr_Status (R i)) \<noteq> None \<and>
      (\<exists>items\<in>set (H i). allTasksSucceeded (prs_Tasks (pr_Spec (R 0))) (existingByName items)) \<or>
      run_phase (R i) = PipelineRunFailed \<and> (\<exists>items\<in>set (H i). hasFailedTask (existingByName items))"
    using schedule_verdict [OF assms(1,4), of i] i(2) unfolding verdict_of_def schedule_keeps(1) [OF assms(1), of i]
    by (cases "run_phase (R i)") (simp_all add: isTerminalPhase_def)
  ultimately show ?thesis by blast
qed

text \<open>The schedule of the run of two tasks: both are created, run and end, and then the run is written as Succeeded.\<close>

abbreviation sx_final :: "TaskRun list" where
  "sx_final \<equiv> [sx_tr ''build'' (sx_done ''build''), sx_tr ''ship'' (sx_done ''ship'')]"

abbreviation sx_full :: "TaskRun list list" where
  "sx_full \<equiv> sx_final # [sx_tr ''build'' (sx_done ''build''), sx_tr ''ship'' (sx_running ''ship'')] # sx_history"

definition sx_schedule :: "nat \<Rightarrow> TaskRun list list" where
  "sx_schedule i = drop (6 - i) sx_full"

lemma sx_reached_final: "sys_reach mem_client sx_pr sx_full"
proof -
  obtain res c' es job a x where 1: "sx_task_exec ''ship'' (cluster0\<lparr>cl_taskRuns := [sx_tr ''ship'' task_status0]\<rparr>) =
     (res, c', GetTR (okey ''ci'' (''r1-'' @ ''ship'')) (Inr (sx_tr ''ship'' task_status0)) # es)"
     "StatusTR (sx_tr ''ship'' (sx_running ''ship'')) (Inr x) \<in> set es"
    using sx_start_run [of "''ship''"] by metis
  have "put_status (sx_tr ''ship'' (sx_running ''ship'')) sx_items = [sx_tr ''build'' (sx_done ''build''), sx_tr ''ship'' (sx_running ''ship'')]"
    "put_status (sx_tr ''ship'' (sx_done ''ship'')) [sx_tr ''build'' (sx_done ''build''), sx_tr ''ship'' (sx_running ''ship'')] = sx_final"
    by (simp_all add: put_status_def put_at_def meta_key_eq)
  note put = this
  have 2: "sys_reach mem_client sx_pr ([sx_tr ''build'' (sx_done ''build''), sx_tr ''ship'' (sx_running ''ship'')] # sx_history)"
    using sys_next [OF sx_reached step_write [OF 1(1) _ 1(2)]] unfolding put by simp
  obtain res c' es x where 3: "sx_task_exec ''ship'' (cluster0\<lparr>cl_taskRuns := [sx_tr ''ship'' (sx_running ''ship'')], cl_jobs := [sx_job ''ship'']\<rparr>) =
     (res, c', GetTR (okey ''ci'' (''r1-'' @ ''ship'')) (Inr (sx_tr ''ship'' (sx_running ''ship''))) # es)"
     "StatusTR (sx_tr ''ship'' (sx_done ''ship'')) (Inr x) \<in> set es"
    using sx_finish_run [of "''ship''"] by metis
  show ?thesis using sys_next [OF 2 step_write [OF 3(1) _ 3(2)]] unfolding put by simp
qed

lemma sx_last_run:
  "\<exists>res c' lo es p x. ex_exec sx_pr sx_final = (res, c', GetPR (okey ''ci'' ''r1'') (Inr sx_pr) # ListTR lo (Inr sx_final) # es) \<and>
     StatusPR p (Inr x) \<in> set es \<and> run_phase p = PipelineRunSucceeded"
  by (simp add: ex_simps sx_pr_def sx_tr_def ex_serial_simps sx_done_def sx_running_def)

lemma sx_schedule_late [simp]: "i \<ge> 6 \<Longrightarrow> sx_schedule i = sx_full"
  by (simp add: sx_schedule_def)

lemma sx_schedule_step:
  "sys_reach mem_client sx_pr (sx_schedule i) \<and> (sx_schedule (Suc i) = sx_schedule i \<or> (\<exists>items. sx_schedule (Suc i) = items # sx_schedule i))"
proof -
  have "sys_reach mem_client sx_pr (drop n sx_full)" if "n \<le> 6" for n
  proof -
    have "7 \<le> length sx_full" by simp
    with that have "\<not> length sx_full \<le> n" by linarith
    then obtain y ys where y: "drop n sx_full = y # ys" unfolding drop_eq_Nil [symmetric] neq_Nil_conv by blast
    have "sys_reach mem_client sx_pr (take n sx_full @ y # ys)"
      using sx_reached_final unfolding y [symmetric] append_take_drop_id .
    then show ?thesis unfolding y by (rule sys_reach_suffix)
  qed
  moreover consider "i = 0" | "i = 1" | "i = 2" | "i = 3" | "i = 4" | "i = 5" | "6 \<le> i" by linarith
  then have "sx_schedule (Suc i) = sx_schedule i \<or> (\<exists>items. sx_schedule (Suc i) = items # sx_schedule i)"
    by cases (simp_all add: sx_schedule_def numeral_eq_Suc)
  ultimately show ?thesis by (simp add: sx_schedule_def)
qed

lemma sx_ends: "tasks_end sx_schedule"
proof -
  have "tr \<in> set items \<Longrightarrow> items \<in> set sx_full \<Longrightarrow> task_name tr \<in> {''build'', ''ship''}" for tr items by auto
  moreover have "hd (sx_schedule i) \<in> set sx_full" for i
  proof -
    have "drop (6 - i) sx_full \<noteq> []" by simp
    then show ?thesis unfolding sx_schedule_def by (metis hd_in_set in_set_dropD)
  qed
  moreover have "ended (existingByName (hd (sx_schedule j))) n" if "n \<in> {''build'', ''ship''}" "j \<ge> 6" for n j
    using that by (auto simp: ended_def existing_map sx_done_def)
  ultimately show ?thesis unfolding tasks_end_def by blast
qed

lemma fair_system_completes_witness:
  "\<exists>R. sys_schedule mem_client R sx_schedule \<and> run_served mem_client R sx_schedule \<and> R 0 = sx_pr \<and>
     (\<exists>i. \<forall>j\<ge>i. run_phase (R j) = PipelineRunSucceeded)"
proof -
  obtain res c' lo es p x where run: "ex_exec sx_pr sx_final = (res, c', GetPR (okey ''ci'' ''r1'') (Inr sx_pr) # ListTR lo (Inr sx_final) # es)"
    "StatusPR p (Inr x) \<in> set es" "run_phase p = PipelineRunSucceeded"
    using sx_last_run by metis
  define R where "R = (\<lambda>i. if i \<le> (6::nat) then sx_pr else sx_pr\<lparr>pr_Status := pr_Status p\<rparr>)"
  have late: "run_phase (R i) = (if i \<le> 6 then PipelineRunRunning else PipelineRunSucceeded)" for i
    using run(3) by (simp add: R_def)
  have step: "R (Suc i) = R i \<or> run_next mem_client (sx_schedule i) (R i) (R (Suc i))" for i
  proof (cases "i = 6")
    case True
    have "run_next mem_client (sx_schedule 6) sx_pr (sx_pr\<lparr>pr_Status := pr_Status p\<rparr>)"
      by (rule next_write [OF run(1) _ run(2)]) simp
    then show ?thesis using True by (simp add: R_def)
  qed (auto simp: R_def)
  have 1: "sys_schedule mem_client R sx_schedule"
    using step sx_schedule_step unfolding sys_schedule_def by (simp add: R_def sx_schedule_def isTerminalPhase_def)
  have 2: "dag_ranked (\<lambda>n. if n = ''ship'' then 1 else 0) (prs_Tasks (pr_Spec (R 0)))"
    by (auto simp: R_def dag_ranked_def serial_before_def ex_serial_simps)
  have 3: "\<forall>i. om_Annotations (pr_Meta (R i)) AnnCancelRequested = None" by (simp add: R_def)
  have 4: "reruns_stop R" using late by (simp add: reruns_stop_def)
  have 5: "run_served mem_client R sx_schedule"
    unfolding run_served_def by (intro allI, rule_tac x = "max i 7" in exI) (simp add: late isTerminalPhase_def)
  obtain i where "run_phase (R i) = PipelineRunSucceeded \<or> run_phase (R i) = PipelineRunFailed"
    using fair_system_completes [OF 1 mem_keeps_key 2 3 sx_ends 4 5] by blast
  then have "i > 6" unfolding late by (cases "i \<le> 6") simp_all
  then have "\<forall>j\<ge>i. run_phase (R j) = PipelineRunSucceeded" unfolding late by simp
  moreover have "R 0 = sx_pr" by (simp add: R_def)
  ultimately show ?thesis using 1 5 by blast
qed

end
