(* ===== verification/Deploy_System.thy ===== *)
theory Deploy_System
  imports Rollout_Props TaskRun_Props
begin

text \<open>
  The rollout reconciler and the task-run reconciler working on one Rollout. A history is the list of what the server has
  stored of the Rollout, newest first. Writes of concurrent reconciles, the commands of the hub and the stamps of the pauses
  interleave at every accepted write; a status is only accepted if the object it was made of is the stored
  one (optimistic concurrency), and a patch of the metadata always is. Nobody changes the spec.
\<close>

section \<open>The steps\<close>

text \<open>The object a status write is made of: with a command, the answer to the last patch, else the object that was read.\<close>

fun patched :: "Rollout \<Rightarrow> effect list \<Rightarrow> Rollout" where
  "patched ro [] = ro"
| "patched ro (PatchRO b q (Inr rb) # es) = patched rb es"
| "patched ro (e # es) = patched ro es"

definition written_from :: "Rollout \<Rightarrow> effect list \<Rightarrow> Rollout" where
  "written_from ro es = (if commanded ro then patched ro es else ro)"

text \<open>\<open>envs\<close> are the environments of the controller: what the probes answer may change from reconcile to reconcile.\<close>

definition reconciled ::
  "'c kclient \<Rightarrow> 'f RolloutEnv set \<Rightarrow> 'f RolloutEnv \<Rightarrow> gotime \<Rightarrow> Rollout \<Rightarrow> effect list \<Rightarrow> Rollout \<Rightarrow> bool" where
  "reconciled k envs env now ro es p \<longleftrightarrow> env \<in> envs \<and>
     (\<exists>req c res c' x. exec (Rollout_Reconcile k env now req) c = (res, c', GetRO req (Inr ro) # es) \<and> StatusRO p (Inr x) \<in> set es)"

inductive rollout_reach :: "'c kclient \<Rightarrow> 'f RolloutEnv set \<Rightarrow> RolloutSpec \<Rightarrow> Rollout list \<Rightarrow> bool" for k envs spec where
  ro_created: "ro_Spec ro = spec \<Longrightarrow> ro_Status ro = rollout_status0 \<Longrightarrow> rollout_reach k envs spec [ro]"
| ro_annotated: "rollout_reach k envs spec (cur # past) \<Longrightarrow> rollout_reach k envs spec (cur\<lparr>ro_Meta := m\<rparr> # cur # past)"
| ro_written: "rollout_reach k envs spec (cur # past) \<Longrightarrow> reconciled k envs env now ro es p \<Longrightarrow> written_from ro es = cur \<Longrightarrow>
     rollout_reach k envs spec (cur\<lparr>ro_Status := ro_Status p\<rparr> # cur # past)"

section \<open>How a step is left\<close>

abbreviation idx :: "Rollout \<Rightarrow> int" where
  "idx ro \<equiv> rst_CurrentStepIndex (ro_Status ro)"

text \<open>The write from \<open>old\<close> to \<open>new\<close> leaves a weight step because the canary was at its weight, up and healthy,\<close>

definition left_healthy :: "'c kclient \<Rightarrow> 'f RolloutEnv set \<Rightarrow> Rollout \<Rightarrow> Rollout \<Rightarrow> int \<Rightarrow> bool" where
  "left_healthy k envs old new w \<longleftrightarrow> (\<exists>env now es p cd r t. reconciled k envs env now old es p \<and> ro_Status new = ro_Status p \<and>
     rst_CurrentWeight (ro_Status (initRollout now old)) = w \<and> set_option cd \<subseteq> canary_objs old es \<and> canaryReplicaState cd = (r, t) \<and>
     0 < t \<and> t \<le> r \<and> observeHealth env now old r t)"

text \<open>or because an operator promoted the Rollout.\<close>

definition left_promoted :: "'c kclient \<Rightarrow> 'f RolloutEnv set \<Rightarrow> Rollout \<Rightarrow> Rollout \<Rightarrow> bool" where
  "left_promoted k envs old new \<longleftrightarrow> (\<exists>env now ro es p. reconciled k envs env now ro es p \<and> written_from ro es = old \<and>
     ro_Status new = ro_Status p \<and> ro_ann ro annRolloutAction = RolloutActionPromote)"

definition passed :: "'c kclient \<Rightarrow> 'f RolloutEnv set \<Rightarrow> RolloutSpec \<Rightarrow> Rollout list \<Rightarrow> nat \<Rightarrow> bool" where
  "passed k envs spec hist j \<longleftrightarrow> (\<exists>xs new old ys. hist = xs @ new # old # ys \<and> idx old = int j \<and> idx new = int j + 1 \<and>
     (\<forall>w. step_Pause (ros_Steps spec ! j) = None \<longrightarrow> step_SetWeight (ros_Steps spec ! j) = Some w \<longrightarrow>
        left_healthy k envs old new w \<or> left_promoted k envs old new))"

lemma passed_later: "passed k envs spec hist j \<Longrightarrow> passed k envs spec (xs @ hist) j"
  unfolding passed_def by (metis append_assoc)

lemma observeHealth_init [simp]: "observeHealth env now (initRollout now' ro) r t = observeHealth env now ro r t"
proof -
  have "rst_LastHealthCheckTime (ro_Status (initRollout now' ro)) = rst_LastHealthCheckTime (ro_Status ro)" by (simp add: initRollout_def)
  moreover have "canaryHealthy env (initRollout now' ro) b = canaryHealthy env ro b" for b
    unfolding canaryHealthy_def initRollout_views by (rule refl)
  ultimately show ?thesis by (simp add: observeHealth_def probeDue_def)
qed

text \<open>What a command makes of the index and the phase.\<close>

definition stays :: "Rollout \<Rightarrow> Rollout \<Rightarrow> bool" where
  "stays old new \<longleftrightarrow> idx new = idx old \<and>
     (rst_Phase (ro_Status new) = RolloutHealthy \<longrightarrow>
        rst_Phase (ro_Status old) = RolloutHealthy \<or> idx old = int (length (ros_Steps (ro_Spec old)))) \<and>
     (rst_Phase (ro_Status new) = RolloutUnset \<longrightarrow> rst_Phase (ro_Status old) = RolloutUnset)"

lemma promoteStatus_index:
  assumes "valid_steps (ro_Spec rb)" "index_ok rb"
  shows "stays rb (rb\<lparr>ro_Status := promoteStatus now sfx rb\<rparr>) \<or>
    rst_CurrentStepIndex (promoteStatus now sfx rb) = idx rb + 1 \<and> idx rb < int (length (ros_Steps (ro_Spec rb))) \<and>
    rst_Phase (promoteStatus now sfx rb) = RolloutProgressing"
proof (cases "idx rb < int (length (ros_Steps (ro_Spec rb)))")
  case True
  then show ?thesis using index_succ [OF assms True] by (simp add: promoteStatus_def Let_def)
next
  case False
  with assms(2) have "idx rb = int (length (ros_Steps (ro_Spec rb)))" by (simp add: index_ok_def)
  with False show ?thesis by (simp add: promoteStatus_def Let_def stays_def)
qed

lemma action_outcome_index:
  assumes "action_outcome now action ro1 rb p" "valid_steps (ro_Spec rb)" "index_ok rb"
  shows "stays rb p \<or> idx p = idx rb + 1 \<and> action = RolloutActionPromote \<and> idx rb < int (length (ros_Steps (ro_Spec rb))) \<and>
       rst_Phase (ro_Status p) = RolloutProgressing"
proof (cases "action = RolloutActionPromote \<and> ro_ann ro1 annRolloutAborted \<noteq> ''true''")
  case True
  with assms(1) obtain sfx where "ro_Status p = promoteStatus now sfx rb" unfolding action_outcome_def by auto
  with promoteStatus_index [OF assms(2,3), of now sfx] True show ?thesis by (auto simp: stays_def)
next
  case False
  with assms(1) show ?thesis unfolding action_outcome_def by (auto simp: stays_def split: if_splits)
qed

text \<open>What a decision makes of them.\<close>

lemma decision_index:
  assumes v: "valid_steps (ro_Spec ro)" and i: "index_ok ro" and d: "Evaluate now ro r t n h = Some d"
  shows "stays ro (ro\<lparr>ro_Status := recordDecision now probed d (ro_Status ro)\<rparr>) \<or>
    d_CurrentStepIndex d = idx ro + 1 \<and> idx ro < int (length (ros_Steps (ro_Spec ro))) \<and> d_Phase d \<in> {RolloutPaused, RolloutProgressing} \<and>
    (\<forall>w. step_Pause (cur_step ro) = None \<longrightarrow> step_SetWeight (cur_step ro) = Some w \<longrightarrow>
       rst_CurrentWeight (ro_Status ro) = w \<and> 0 < t \<and> t \<le> r \<and> h)"
  using v i d
proof (cases rule: Evaluate_cases)
  case (judged w)
  have "d_Phase d \<noteq> RolloutUnset" "d_Phase d \<noteq> RolloutHealthy" "d_CurrentStepIndex d \<noteq> idx ro \<Longrightarrow> d_Phase d = RolloutProgressing"
    unfolding judged(5) by (auto simp: healthDecision_def Let_def RollbackDecision_def atWeight_def decision0_def split: if_splits)
  moreover have "d_CurrentStepIndex d \<in> {idx ro, idx ro + 1}" using engine.eval_index [OF v i d] by blast
  moreover have "d_CurrentStepIndex d = idx ro + 1 \<Longrightarrow> rst_CurrentWeight (ro_Status ro) = w \<and> 0 < t \<and> t \<le> r \<and> h"
    using engine.eval_gate [OF v i d _ judged(2,3)] by (simp add: pods_ready_def)
  ultimately show ?thesis using judged(1-3) by (cases "d_CurrentStepIndex d = idx ro") (auto simp: stays_def)
qed (auto simp: stays_def)

lemma command_written:
  assumes "command_path now ro e es" "StatusRO p a \<in> set es"
  shows "\<exists>ro1. action_outcome now (ro_ann ro annRolloutAction) ro1 (patched ro0 es) p"
  using assms(1)
proof cases
  case (cmd_status ps rb ro1 ro2 p' a')
  then have "p' = p" "patched ro0 es = rb" using assms(2) by auto
  with cmd_status show ?thesis by blast
qed (use assms(2) in auto)

text \<open>A status write stays at the step, or leaves it for a reason.\<close>

lemma write_index:
  assumes w: "reconciled k envs env now ro es p" "written_from ro es = cur"
    and v: "valid_steps (ro_Spec cur)" and i: "index_ok cur" and u: "rst_Phase (ro_Status cur) = RolloutUnset \<Longrightarrow> idx cur = 0"
  shows "stays cur p \<or> idx p = idx cur + 1 \<and> idx cur < int (length (ros_Steps (ro_Spec cur))) \<and>
    rst_Phase (ro_Status p) \<in> {RolloutPaused, RolloutProgressing} \<and>
    (\<forall>w. step_Pause (cur_step cur) = None \<longrightarrow> step_SetWeight (cur_step cur) = Some w \<longrightarrow>
       left_healthy k envs cur (cur\<lparr>ro_Status := ro_Status p\<rparr>) w \<or> left_promoted k envs cur (cur\<lparr>ro_Status := ro_Status p\<rparr>))"
proof -
  obtain req c res c' x where env: "env \<in> envs" and run: "exec (Rollout_Reconcile k env now req) c = (res, c', GetRO req (Inr ro) # es)"
    and p: "StatusRO p (Inr x) \<in> set es"
    using w(1) unfolding reconciled_def by blast
  show ?thesis
  proof (cases rule: Rollout_cases [OF run])
    case 1
    obtain ro1 where o1: "action_outcome now (ro_ann ro annRolloutAction) ro1 cur p"
      using command_written [OF 1(3) p, of ro] w(2) 1(1) by (auto simp: written_from_def)
    have "ro_ann ro annRolloutAction = RolloutActionPromote \<Longrightarrow> left_promoted k envs cur (cur\<lparr>ro_Status := ro_Status p\<rparr>)"
      unfolding left_promoted_def by (intro exI conjI, rule w(1), rule w(2), simp)
    with action_outcome_index [OF o1 v i] show ?thesis by auto
  next
    case 2
    then have "ro = cur" using w(2) by (simp add: written_from_def)
    with 2(4) p u show ?thesis by cases (auto simp: stays_def abortedStatus_def initRollout_def Let_def)
  next
    case 3
    then have "ro = cur" using w(2) by (simp add: written_from_def)
    with 3(5) p u show ?thesis by cases (auto simp: stays_def pausedStatus_def initRollout_def)
  next
    case 4
    then show ?thesis using p by simp
  next
    case (5 es1 es2)
    then have ro: "ro = cur" using w(2) by (simp add: written_from_def)
    let ?ro = "initRollout now cur"
    have init: "idx ?ro = idx cur" "index_ok ?ro" "valid_steps (ro_Spec ?ro)" "cur_step ?ro = cur_step cur"
      using u i v by (auto simp: initRollout_def index_ok_def cur_step_def)
    have stays: "stays cur q" if "stays ?ro q" for q
      using that init(1) by (auto simp: stays_def initRollout_def split: if_splits)
    have p2: "StatusRO p (Inr x) \<in> set es2" using p 5(4,5) by auto
    then have "evaluate_path env now ?ro res es2" using 5(6) ro by auto
    from evaluate_path_status [OF this p2] show ?thesis
    proof (elim disjE exE conjE)
      fix cd r t n d
      assume c: "set_option cd \<subseteq> canary_objs ?ro es2" "canaryReplicaState cd = (r, t)"
        and d: "Evaluate now ?ro r t n (observeHealth env now ?ro r t) = Some d"
        and q: "p = ?ro\<lparr>ro_Status := recordDecision now (probeDue now ?ro) d (ro_Status ?ro)\<rparr>"
      have objs: "set_option cd \<subseteq> canary_objs cur es" using c(1) canary_objs_mono [of es2 es cur] 5(4) by auto
      have healthy: "left_healthy k envs cur (cur\<lparr>ro_Status := ro_Status p\<rparr>) w'"
        if "rst_CurrentWeight (ro_Status ?ro) = w'" "0 < t" "t \<le> r" "observeHealth env now cur r t" for w'
        unfolding left_healthy_def using w(1) ro that objs c(2) by (intro exI [of _ env] exI [of _ now] exI [of _ es] exI [of _ p]) auto
      from decision_index [OF init(3,2) d, of "probeDue now ?ro"] show ?thesis
      proof
        assume "stays ?ro (?ro\<lparr>ro_Status := recordDecision now (probeDue now ?ro) d (ro_Status ?ro)\<rparr>)"
        then show ?thesis using stays q by simp
      next
        assume "d_CurrentStepIndex d = idx ?ro + 1 \<and> idx ?ro < int (length (ros_Steps (ro_Spec ?ro))) \<and> d_Phase d \<in> {RolloutPaused, RolloutProgressing} \<and>
          (\<forall>w. step_Pause (cur_step ?ro) = None \<longrightarrow> step_SetWeight (cur_step ?ro) = Some w \<longrightarrow>
             rst_CurrentWeight (ro_Status ?ro) = w \<and> 0 < t \<and> t \<le> r \<and> observeHealth env now ?ro r t)"
        then show ?thesis using init healthy q by auto
      qed
    next
      assume "p = ?ro\<lparr>ro_Status := (ro_Status ?ro)\<lparr>rst_Phase := RolloutRolledBack, rst_CompletionTime := Some now\<rparr>\<rparr>"
      then show ?thesis using init(1) by (auto simp: stays_def)
    qed
  qed
qed

section \<open>The histories of a Rollout\<close>

definition rollout_inv :: "'c kclient \<Rightarrow> 'f RolloutEnv set \<Rightarrow> RolloutSpec \<Rightarrow> Rollout list \<Rightarrow> bool" where
  "rollout_inv k envs spec hist \<longleftrightarrow> (\<exists>cur past. hist = cur # past \<and> ro_Spec cur = spec \<and> index_ok cur \<and>
     (rst_Phase (ro_Status cur) = RolloutUnset \<longrightarrow> idx cur = 0) \<and>
     (rst_Phase (ro_Status cur) = RolloutHealthy \<longrightarrow> idx cur = int (length (ros_Steps spec))) \<and>
     (\<forall>j. int j < idx cur \<longrightarrow> passed k envs spec hist j))"

lemma rollout_reach_inv:
  assumes "rollout_reach k envs spec hist" "valid_steps spec"
  shows "rollout_inv k envs spec hist"
  using assms(1)
proof induction
  case (ro_created ro)
  then show ?case by (auto simp: rollout_inv_def index_ok_def rollout_status0_def)
next
  case (ro_annotated cur past m)
  then show ?case using passed_later [of k envs spec "cur # past" _ "[cur\<lparr>ro_Meta := m\<rparr>]"] by (auto simp: rollout_inv_def index_ok_def)
next
  case (ro_written cur past env now ro es p)
  let ?new = "cur\<lparr>ro_Status := ro_Status p\<rparr>"
  have inv: "ro_Spec cur = spec" "index_ok cur" "rst_Phase (ro_Status cur) = RolloutUnset \<Longrightarrow> idx cur = 0"
    "rst_Phase (ro_Status cur) = RolloutHealthy \<Longrightarrow> idx cur = int (length (ros_Steps spec))" "\<And>j. int j < idx cur \<Longrightarrow> passed k envs spec (cur # past) j"
    using ro_written.IH by (auto simp: rollout_inv_def)
  have before: "int j < idx cur \<Longrightarrow> passed k envs spec (?new # cur # past) j" for j
    using passed_later [OF inv(5), of j "[?new]"] by simp
  have v: "valid_steps (ro_Spec cur)" using assms(2) inv(1) by simp
  from write_index [OF ro_written.hyps(2,3) v inv(2,3)] show ?case
  proof
    assume "stays cur p"
    then show ?thesis using inv before by (auto simp: rollout_inv_def stays_def index_ok_def)
  next
    assume left: "idx p = idx cur + 1 \<and> idx cur < int (length (ros_Steps (ro_Spec cur))) \<and> rst_Phase (ro_Status p) \<in> {RolloutPaused, RolloutProgressing} \<and>
      (\<forall>w. step_Pause (cur_step cur) = None \<longrightarrow> step_SetWeight (cur_step cur) = Some w \<longrightarrow>
         left_healthy k envs cur ?new w \<or> left_promoted k envs cur ?new)"
    have here: "passed k envs spec (?new # cur # past) (nat (idx cur))"
      unfolding passed_def using left inv(1,2)
      by (intro exI [of _ "[]"] exI [of _ ?new] exI [of _ cur] exI [of _ past]) (auto simp: index_ok_def cur_step_def)
    have "passed k envs spec (?new # cur # past) j" if "int j < idx cur + 1" for j
    proof (cases "int j = idx cur")
      case True
      then have "nat (idx cur) = j" by simp
      with here show ?thesis by simp
    next
      case False
      with that show ?thesis by (intro before) simp
    qed
    with left inv(1,2) show ?thesis by (auto simp: rollout_inv_def index_ok_def)
  qed
qed

lemma rollout_reach_suffix: "rollout_reach k envs spec (xs @ ro # ys) \<Longrightarrow> rollout_reach k envs spec (ro # ys)"
proof (induction xs)
  case (Cons x xs)
  from Cons.prems have "rollout_reach k envs spec (xs @ ro # ys)" by cases (auto simp: Cons_eq_append_conv)
  then show ?case by (rule Cons.IH)
qed simp

text \<open>C5: A deploy task only succeeds when its canary went all the way. Whenever the task-run reconciler writes Succeeded for a
  deploy task that had not succeeded, and the Rollout it read, from a cache that may lag, is one the server has stored, then every step of the
  Rollout has been left, one write each; and each of its weight steps by a reconcile that found the canary at the weight of the step,
  with a positive number of pods wanted, all of them available, and its health check passed, or by an operator's promote.\<close>

theorem deploy_succeeds_after_canary:
  assumes "rollout_reach k envs spec hist" "valid_steps spec"
    and "exec (TaskRun_Reconcile k' r ord now req) c = (res, c', GetTR req (Inr tr) # es)"
    and "is_deploy tr" "tr_Phase tr \<noteq> TaskRunSucceeded" "StatusTR p a \<in> set es" "tr_Phase p = TaskRunSucceeded"
    and "\<forall>key ro. GetRO key (Inr ro) \<in> set es \<longrightarrow> ro \<in> set hist" "j < length (ros_Steps spec)"
  shows "\<exists>xs new old ys. hist = xs @ new # old # ys \<and> idx old = int j \<and> idx new = int j + 1 \<and>
    (\<forall>w. step_Pause (ros_Steps spec ! j) = None \<longrightarrow> step_SetWeight (ros_Steps spec ! j) = Some w \<longrightarrow>
       left_healthy k envs old new w \<or> left_promoted k envs old new)"
proof -
  have "\<exists>key ro. GetRO key (Inr ro) \<in> set es \<and> rst_Phase (ro_Status ro) = RolloutHealthy"
    using TaskRun_path [OF assms(3)] assms(4-7)
    by cases (auto simp: is_deploy_def mirrorRollout_def elim!: deploy_path.cases split: RolloutPhase.splits)
  with assms(8) obtain ro where ro: "ro \<in> set hist" "rst_Phase (ro_Status ro) = RolloutHealthy" by blast
  then obtain xs ys where hist: "hist = xs @ ro # ys" by (meson split_list)
  have "rollout_inv k envs spec (ro # ys)"
    using rollout_reach_inv [OF _ assms(2)] rollout_reach_suffix assms(1) unfolding hist by blast
  then have "passed k envs spec (ro # ys) j" using ro(2) assms(9) by (auto simp: rollout_inv_def)
  from passed_later [OF this, of xs] show ?thesis unfolding hist passed_def by blast
qed

text \<open>A Rollout with one weight, 20: scaled, judged, finished.\<close>

definition dy_ro :: "RolloutStatus \<Rightarrow> Rollout" where
  "dy_ro st = (ex_rollout Map.empty (Some 10) [ex_w 20] st)\<lparr>ro_Meta := meta0\<lparr>om_Name := ''shop'', om_Namespace := ''ci''\<rparr>\<rparr>"

abbreviation dy_key :: ObjectKey where "dy_key \<equiv> okey ''ci'' ''shop''"

lemma dy_views:
  "om_Name (ro_Meta (dy_ro st)) = ''shop''" "om_Namespace (ro_Meta (dy_ro st)) = ''ci''" "om_Annotations (ro_Meta (dy_ro st)) = Map.empty"
  "ros_WorkloadRef (ro_Spec (dy_ro st)) = ''shop''" "ros_Replicas (ro_Spec (dy_ro st)) = Some 10" "ros_CanaryImage (ro_Spec (dy_ro st)) = ''shop:2''"
  "ros_StableImage (ro_Spec (dy_ro st)) = ''shop:1''" "ros_Steps (ro_Spec (dy_ro st)) = [ex_w 20]" "ros_AutoRollback (ro_Spec (dy_ro st))"
  "hc_Type (ros_HealthCheck (ro_Spec (dy_ro st))) = HealthCheckPodReady" "hc_IntervalSeconds (ros_HealthCheck (ro_Spec (dy_ro st))) = 30"
  "hc_FailureThreshold (ros_HealthCheck (ro_Spec (dy_ro st))) = 3"
  "tf_Type (ros_TrafficRouting (ro_Spec (dy_ro st))) = TrafficRoutingDeploymentWeight" "ro_Status (dy_ro st) = st"
  "(dy_ro st)\<lparr>ro_Status := st'\<rparr> = dy_ro st'"
  by (simp_all add: dy_ro_def ex_rollout_def meta0_def)

definition dy_decision :: "RolloutPhase \<Rightarrow> int \<Rightarrow> string \<Rightarrow> duration \<Rightarrow> Decision" where
  "dy_decision ph i msg requeue = (atWeight ph i 20 10 msg)\<lparr>d_RequeueAfter := requeue\<rparr>"

lemma dy_decision_views:
  "d_CanaryReplicas (dy_decision ph i msg q) = 2" "d_StableReplicas (dy_decision ph i msg q) = 8" "d_Phase (dy_decision ph i msg q) = ph"
  "d_CurrentStepIndex (dy_decision ph i msg q) = i" "d_CurrentWeight (dy_decision ph i msg q) = 20" "d_RequeueAfter (dy_decision ph i msg q) = q"
  by (simp_all add: dy_decision_def weightReplicas_def i32_def i64_def signed_divide_int_def atWeight_def decision0_def)

abbreviation dy_scaling :: Decision where "dy_scaling \<equiv> dy_decision RolloutProgressing 0 ''scaling to weight'' (30 * second)"
abbreviation dy_advance :: Decision where "dy_advance \<equiv> dy_decision RolloutProgressing 1 ''healthy at weight, advancing'' (30 * second)"
abbreviation dy_done :: Decision where "dy_done \<equiv> dy_decision RolloutHealthy 1 ''all steps complete'' 0"

definition dy_fresh :: RolloutStatus where
  "dy_fresh = rollout_status0\<lparr>rst_Phase := RolloutProgressing, rst_CurrentStepIndex := 0, rst_CurrentWeight := 0, rst_StartTime := Some 5\<rparr>"

definition dy_st :: "int \<Rightarrow> RolloutStatus" where
  "dy_st n = (let s1 = recordDecision 5 True dy_scaling dy_fresh; s2 = recordDecision 6 False dy_advance s1 in
     if n = 0 then rollout_status0 else if n = 1 then s1 else if n = 2 then s2 else recordDecision 7 False dy_done s2)"

lemma dy_evaluate:
  "Evaluate 5 (dy_ro dy_fresh) 0 0 10 False = Some dy_scaling"
  "Evaluate 6 (dy_ro (dy_st 1)) 2 2 10 True = Some dy_advance"
  "Evaluate 7 (dy_ro (dy_st 2)) 2 2 10 True = Some dy_done"
  by (simp_all add: dy_views Evaluate_def healthDecision_def dy_decision_def dy_st_def dy_fresh_def
      healthInterval_def seconds_def second_def i64_def i32_def Let_def rollout_status0_def recordDecision_def atWeight_def decision0_def)

lemma dy_st_views:
  "rst_Phase (dy_st 0) = RolloutUnset" "rst_Phase (dy_st 1) = RolloutProgressing" "rst_Phase (dy_st 2) = RolloutProgressing"
  "rst_Phase (dy_st 3) = RolloutHealthy" "rst_CurrentStepIndex (dy_st 1) = 0" "rst_CurrentStepIndex (dy_st 2) = 1" "rst_CurrentStepIndex (dy_st 3) = 1"
  "rst_LastHealthCheckTime (dy_st 1) = Some 5" "rst_LastHealthCheckTime (dy_st 2) = Some 5" "rst_CurrentWeight (dy_st 1) = 20"
  "rst_LastHealthCheckTime dy_fresh = None" "rst_CurrentStepIndex dy_fresh = 0" "rst_Phase dy_fresh = RolloutProgressing"
  by (simp_all add: dy_st_def dy_fresh_def rollout_status0_def recordDecision_def dy_decision_views Let_def)

lemma dy_records:
  "recordDecision 5 True dy_scaling dy_fresh = dy_st 1" "recordDecision 6 False dy_advance (dy_st 1) = dy_st 2"
  "recordDecision 7 False dy_done (dy_st 2) = dy_st 3"
  by (simp_all add: dy_st_def Let_def)

lemma dy_fresh_init: "initRollout 5 (dy_ro (dy_st 0)) = dy_ro dy_fresh"
  by (simp add: initRollout_def dy_views dy_st_def dy_fresh_def rollout_status0_def)

lemmas dy_simps = run_simps ex_env_def ex_cluster_def workloadDeployment_def buildStable_def container0_def
  rollout_constants Rollout_Reconcile_def applyControlCommand_def stampPause_def evaluateRollout_def ensureWorkload_def ensureCanary_def
  getStable_def resolveTotalReplicas_def canaryReplicaState_def canaryDeploymentHasReplicaFailure_def
  applyDecision_def scaleDeployment_def ensureService_def ensureCanaryIngress_def observeHealth_def probeDue_def
  canaryHealthy_def currentStep_def ownedBy_def alertPhases_def

lemma dy_not_due: "\<not> healthCheckInterval \<le> since 6 5" "\<not> healthCheckInterval \<le> since 7 5"
  by (simp_all add: healthCheckInterval_def since_def second_def i64_def)

lemma dy_first: "\<exists>es. reconciled mem_client {ex_env} ex_env 5 (dy_ro (dy_st 0)) es (dy_ro (dy_st 1))"
proof -
  have "\<exists>res c' es x. exec (Rollout_Reconcile mem_client ex_env 5 dy_key) (ex_cluster (dy_ro (dy_st 0)) 10 0) =
     (res, c', GetRO dy_key (Inr (dy_ro (dy_st 0))) # es) \<and> StatusRO (dy_ro (dy_st 1)) (Inr x) \<in> set es"
    by (simp add: dy_simps dy_fresh_init dy_views dy_st_views dy_evaluate dy_records dy_decision_views cong: bind_weak_cong)
  then show ?thesis unfolding reconciled_def by blast
qed

lemma dy_second: "\<exists>es. reconciled mem_client {ex_env} ex_env 6 (dy_ro (dy_st 1)) es (dy_ro (dy_st 2))"
proof -
  have "\<exists>res c' es x. exec (Rollout_Reconcile mem_client ex_env 6 dy_key) (ex_cluster (dy_ro (dy_st 1)) 8 2) =
     (res, c', GetRO dy_key (Inr (dy_ro (dy_st 1))) # es) \<and> StatusRO (dy_ro (dy_st 2)) (Inr x) \<in> set es"
    by (simp add: dy_simps dy_views dy_st_views dy_evaluate dy_records dy_decision_views dy_not_due cong: bind_weak_cong)
  then show ?thesis unfolding reconciled_def by blast
qed

lemma dy_third: "\<exists>es. reconciled mem_client {ex_env} ex_env 7 (dy_ro (dy_st 2)) es (dy_ro (dy_st 3))"
proof -
  have "\<exists>res c' es x. exec (Rollout_Reconcile mem_client ex_env 7 dy_key) (ex_cluster (dy_ro (dy_st 2)) 8 2) =
     (res, c', GetRO dy_key (Inr (dy_ro (dy_st 2))) # es) \<and> StatusRO (dy_ro (dy_st 3)) (Inr x) \<in> set es"
    by (simp add: dy_simps dy_views dy_st_views dy_evaluate dy_records dy_decision_views dy_not_due cong: bind_weak_cong)
  then show ?thesis unfolding reconciled_def by blast
qed

abbreviation dy_history :: "Rollout list" where
  "dy_history \<equiv> [dy_ro (dy_st 3), dy_ro (dy_st 2), dy_ro (dy_st 1), dy_ro (dy_st 0)]"

lemma dy_write:
  assumes "rollout_reach mem_client {ex_env} spec (dy_ro st # past)" "\<exists>es. reconciled mem_client {ex_env} ex_env now (dy_ro st) es (dy_ro st')"
  shows "rollout_reach mem_client {ex_env} spec (dy_ro st' # dy_ro st # past)"
proof -
  obtain es where es: "reconciled mem_client {ex_env} ex_env now (dy_ro st) es (dy_ro st')" using assms(2) by blast
  have "written_from (dy_ro st) es = dy_ro st" by (simp add: written_from_def commanded_def dy_views map_get_def)
  from ro_written [OF assms(1) es this] show ?thesis by (simp add: dy_views)
qed

lemma dy_reached: "rollout_reach mem_client {ex_env} (ro_Spec (dy_ro (dy_st 0))) dy_history"
proof -
  have "rollout_reach mem_client {ex_env} (ro_Spec (dy_ro (dy_st 0))) [dy_ro (dy_st 0)]"
    by (rule ro_created) (simp_all add: dy_views dy_st_def)
  from dy_write [OF dy_write [OF dy_write [OF this dy_first] dy_second] dy_third] show ?thesis .
qed

lemma deploy_succeeds_after_canary_witness:
  "\<exists>p a. StatusTR p a \<in> set (snd (snd (tx_deploy_exec tx_deploy (dy_ro (dy_st 3))))) \<and> tr_Phase p = TaskRunSucceeded \<and>
     (left_healthy mem_client {ex_env} (dy_ro (dy_st 1)) (dy_ro (dy_st 2)) 20 \<or> left_promoted mem_client {ex_env} (dy_ro (dy_st 1)) (dy_ro (dy_st 2)))"
proof -
  have deploy: "is_deploy tx_deploy" "tst_RolloutRef (tr_Status tx_deploy) = ''shop''" "trs_Namespace (tr_Spec tx_deploy) = ''ci''"
    "om_Name (tr_Meta tx_deploy) = ''r1-build''" "om_Namespace (tr_Meta tx_deploy) = ''ci''" "tr_Phase tx_deploy \<noteq> TaskRunSucceeded"
    by (simp_all add: tx_deploy_def is_deploy_def)
  let ?spec = "ro_Spec (dy_ro (dy_st 0))"
  obtain res c' key a where run: "tx_deploy_exec tx_deploy (dy_ro (dy_st 3)) = (res, c', [GetTR tx_key (Inr tx_deploy), GetRO key (Inr (dy_ro (dy_st 3))),
     StatusTR (tx_deploy\<lparr>tr_Status := mirrorRollout 5 (ro_Status (dy_ro (dy_st 3))) (tr_Status tx_deploy)\<rparr>) a])"
    using tx_deploy_run [OF dy_views(1,2) deploy(1-5)] by blast
  let ?p = "tx_deploy\<lparr>tr_Status := mirrorRollout 5 (ro_Status (dy_ro (dy_st 3))) (tr_Status tx_deploy)\<rparr>"
  have p: "tr_Phase ?p = TaskRunSucceeded" by (simp add: mirrorRollout_def dy_views dy_st_views)
  have v: "valid_steps ?spec" "0 < length (ros_Steps ?spec)" by (simp_all add: dy_views valid_steps_def weights_of_def)
  have "\<exists>xs new old ys. dy_history = xs @ new # old # ys \<and> idx old = int 0 \<and> idx new = int 0 + 1 \<and>
    (\<forall>w. step_Pause (ros_Steps ?spec ! 0) = None \<longrightarrow> step_SetWeight (ros_Steps ?spec ! 0) = Some w \<longrightarrow>
       left_healthy mem_client {ex_env} old new w \<or> left_promoted mem_client {ex_env} old new)"
    by (rule deploy_succeeds_after_canary [OF dy_reached v(1) run deploy(1,6) _ p _ v(2)]) (auto simp: dy_views)
  then obtain xs new old ys where h: "dy_history = xs @ new # old # ys" "idx old = 0" "idx new = 1"
    "left_healthy mem_client {ex_env} old new 20 \<or> left_promoted mem_client {ex_env} old new"
    by (auto simp: dy_views)
  have "new = dy_ro (dy_st 2) \<and> old = dy_ro (dy_st 1)"
    using h(1-3) by (auto simp: Cons_eq_append_conv dy_views dy_st_views)
  moreover have "StatusTR ?p a \<in> set (snd (snd (tx_deploy_exec tx_deploy (dy_ro (dy_st 3)))))" by (simp add: run)
  ultimately show ?thesis using h(4) p by blast
qed

end
