(* ===== verification/Manager_Setup.thy ===== *)
theory Manager_Setup
  imports PipelineRun_Controller TaskRun_Controller Rollout_Controller
begin

text \<open>
  How the reconcilers are put into the manager: the kinds the API package registers (\<open>groupversion_info.go\<close> and the
  \<open>init\<close> functions of the types), and the \<open>SetupWithManager\<close> of the reconcilers as the description of the watches they
  ask the library for. A reconcile is triggered by a change of an object of the kind \<open>su_For\<close>, and by a change of an
  object of a kind in \<open>su_Owns\<close> for the object its controller reference names; what is triggered is the library's.
\<close>

section \<open>The scheme\<close>

definition GroupVersion :: "string \<times> string" where
  "GroupVersion = (''pipeline.sdp.io'', ''v1alpha1'')"

definition PipelineRun_init :: "string list" where
  "PipelineRun_init = [''PipelineRun'', ''PipelineRunList'']"

definition Rollout_init :: "string list" where
  "Rollout_init = [''Rollout'', ''RolloutList'']"

definition TaskRun_init :: "string list" where
  "TaskRun_init = [''TaskRun'', ''TaskRunList'']"

text \<open>The group, version and kind of everything \<open>AddToScheme\<close> adds.\<close>

definition AddToScheme :: "(string \<times> string \<times> string) list" where
  "AddToScheme = map (\<lambda>kind. (fst GroupVersion, snd GroupVersion, kind)) (PipelineRun_init @ Rollout_init @ TaskRun_init)"

section \<open>The watches\<close>

record Setup =
  su_For :: string
  su_Owns :: "string list"
  su_SkipNameValidation :: bool

definition skipNameValidation :: bool where
  "skipNameValidation = True"

definition PipelineRun_SetupWithManager :: Setup where
  "PipelineRun_SetupWithManager = \<lparr>su_For = ''PipelineRun'', su_Owns = [''TaskRun''], su_SkipNameValidation = skipNameValidation\<rparr>"

definition TaskRun_SetupWithManager :: Setup where
  "TaskRun_SetupWithManager = \<lparr>su_For = ''TaskRun'', su_Owns = [''Job'', ''Rollout''], su_SkipNameValidation = skipNameValidation\<rparr>"

definition Rollout_SetupWithManager :: Setup where
  "Rollout_SetupWithManager = \<lparr>su_For = ''Rollout'', su_Owns = [''Deployment'', ''Service'', ''Ingress''],
     su_SkipNameValidation = skipNameValidation\<rparr>"

end
