(* ===== verification/Ownership.thy ===== *)
theory Ownership
  imports Manager_Setup TaskRun_Props Rollout_Props
begin

text \<open>
  The reconcilers and their watches together: every object a reconcile creates is handed to a watch, and what it
  reads is watched. Also what a deploy task passes on of its Rollout, which is where the chain of watches ends.
\<close>

section \<open>What a reconcile reads and creates\<close>

fun created :: "effect \<Rightarrow> (string \<times> ObjectMeta) option" where
  "created (CreatePR pr a) = Some (''PipelineRun'', pr_Meta pr)"
| "created (CreateTR tr a) = Some (''TaskRun'', tr_Meta tr)"
| "created (CreateRO ro a) = Some (''Rollout'', ro_Meta ro)"
| "created (CreateJob j a) = Some (''Job'', job_Meta j)"
| "created (CreateDep d a) = Some (''Deployment'', dep_Meta d)"
| "created (CreateSvc s a) = Some (''Service'', svc_Meta s)"
| "created (CreateIng i a) = Some (''Ingress'', ing_Meta i)"
| "created (CreateNs n a) = Some (''Namespace'', ns_Meta n)"
| "created (CreateCM cm a) = Some (''ConfigMap'', cm_Meta cm)"
| "created (CreateSA sa a) = Some (''ServiceAccount'', sa_Meta sa)"
| "created (CreateRole ro a) = Some (''Role'', role_Meta ro)"
| "created (CreateRB rb a) = Some (''RoleBinding'', rb_Meta rb)"
| "created e = None"

fun read_kind :: "effect \<Rightarrow> string option" where
  "read_kind (GetPR key a) = Some ''PipelineRun''"
| "read_kind (ListPR lo a) = Some ''PipelineRun''"
| "read_kind (GetTR key a) = Some ''TaskRun''"
| "read_kind (ListTR lo a) = Some ''TaskRun''"
| "read_kind (GetRO key a) = Some ''Rollout''"
| "read_kind (ListRO lo a) = Some ''Rollout''"
| "read_kind (GetJob key a) = Some ''Job''"
| "read_kind (GetDep key a) = Some ''Deployment''"
| "read_kind (GetSvc key a) = Some ''Service''"
| "read_kind (GetIng key a) = Some ''Ingress''"
| "read_kind (GetNs key a) = Some ''Namespace''"
| "read_kind (GetCM key a) = Some ''ConfigMap''"
| "read_kind e = None"

text \<open>
  A call that leaves nothing unattended: what it creates is of an owned kind and has the controller reference of the object
  the reconcile is for, what it reads is of a watched kind, apart from the kinds in \<open>aside\<close>.
\<close>

definition attended :: "'c kclient \<Rightarrow> Setup \<Rightarrow> ObjectMeta \<Rightarrow> string list \<Rightarrow> effect \<Rightarrow> bool" where
  "attended k su owner aside e \<longleftrightarrow>
     (\<forall>kind m. created e = Some (kind, m) \<longrightarrow> kind \<in> set aside \<or>
        kind \<in> set (su_Owns su) \<and> (\<exists>ob. setControllerReference k (su_For su) owner ob = Inr m)) \<and>
     (\<forall>kind. read_kind e = Some kind \<longrightarrow> kind \<in> set (su_For su # su_Owns su @ aside))"

lemmas attended_simps = attended_def PipelineRun_SetupWithManager_def TaskRun_SetupWithManager_def Rollout_SetupWithManager_def

subsection \<open>Runs\<close>

abbreviation run_attended :: "'c kclient \<Rightarrow> PipelineRun \<Rightarrow> effect \<Rightarrow> bool" where
  "run_attended k pr \<equiv> attended k PipelineRun_SetupWithManager (pr_Meta pr) [''ServiceAccount'', ''Role'', ''RoleBinding'', ''Rollout'']"

lemma run_attended_simps:
  "run_attended k pr (ListTR lo a1)" "run_attended k pr (ListRO lo a2)" "run_attended k pr (StatusPR p a3)"
  "run_attended k pr (PatchPR p1 p2 a4)" "run_attended k pr (DeleteTR key a5)" "run_attended k pr (ReportStatus su)"
  "rbac_event e \<Longrightarrow> run_attended k pr e"
  by (auto simp: attended_simps rbac_event_def)

lemma report_attended: "e \<in> set (report_events r a) \<Longrightarrow> run_attended k pr e"
  by (auto simp: set_report_events run_attended_simps)

lemma deletes_attended: "deleted_in trs dels \<Longrightarrow> e \<in> set dels \<Longrightarrow> run_attended k pr e"
  by (auto simp: deleted_in_def run_attended_simps dest!: bspec)

lemma creates_attended:
  assumes "creates_for k pr' tasks err es" "e \<in> set es" "pr_Meta pr' = pr_Meta pr"
  shows "run_attended k pr e"
proof -
  from assms(1,2) obtain task m a where "e = CreateTR ((buildTaskRun pr' task)\<lparr>tr_Meta := m\<rparr>) a"
    "setControllerReference k ''PipelineRun'' (pr_Meta pr') (tr_Meta (buildTaskRun pr' task)) = Inr m"
    unfolding creates_for_def by blast
  with assms(3) show ?thesis by (auto simp: attended_simps)
qed

lemma schedule_attended:
  "schedule_path k r now pr' existing err es \<Longrightarrow> pr_Meta pr' = pr_Meta pr \<Longrightarrow> \<forall>e\<in>set es. run_attended k pr e"
  by (erule schedule_path.cases)
    (auto simp: list_all_iff run_attended_simps intro: report_attended creates_attended)

lemma cancel_attended: "cancel_path r ord now pr err es \<Longrightarrow> \<forall>e\<in>set es. run_attended k pr e"
  by (erule cancel_path.cases)
    (auto simp: deleted_all_def run_attended_simps intro: report_attended deletes_attended)

lemma tasks_attended:
  "tasks_path k r now pr' items ros err es \<Longrightarrow> pr_Meta pr' = pr_Meta pr \<Longrightarrow> \<forall>e\<in>set es. run_attended k pr e"
  by (erule tasks_path.cases)
    (auto simp: run_attended_simps spec_views noApproval_def withSummary_def intro: report_attended dest!: schedule_attended [where pr = pr])

lemma run_path_attended:
  "run_path k r ord now req err (GetPR req (Inr pr) # es) \<Longrightarrow> \<forall>e\<in>set es. run_attended k pr e"
proof (erule run_path.cases, goal_cases)
  case (3 pr0 e es0)
  then show ?case using cancel_attended [of r ord now pr0 e es0 k] by simp
next
  case (7 pr0 items ros e es0)
  then show ?case using tasks_attended [of k r now "defaultPhase pr0" items ros e es0 pr0]
    by (auto simp: run_attended_simps defaultPhase_def)
qed (auto simp: run_attended_simps)

subsection \<open>Task runs\<close>

abbreviation task_attended :: "'c kclient \<Rightarrow> TaskRun \<Rightarrow> effect \<Rightarrow> bool" where
  "task_attended k tr \<equiv> attended k TaskRun_SetupWithManager (tr_Meta tr) [''ConfigMap'']"

lemma task_attended_simps [simp]:
  "task_attended k tr (StatusTR p a1)" "task_attended k tr (GetRO key a2)" "task_attended k tr (GetJob key a3)"
  "task_attended k tr (GetCM key a4)" "task_attended k tr (CreateCM cm a5)" "task_attended k tr (UpdateCM cm a6)"
  "task_attended k tr (DeleteJob key a7)" "task_attended k tr (StreamLogsFor s)" "task_attended k tr (PhaseMetric s1 s2)"
  "task_attended k tr (AlertEvent s3 s4 s5)"
  "setControllerReference k ''TaskRun'' (tr_Meta tr) ob = Inr m \<Longrightarrow> task_attended k tr (CreateJob (j\<lparr>job_Meta := m\<rparr>) a8)"
  "setControllerReference k ''TaskRun'' (tr_Meta tr) ob = Inr m \<Longrightarrow> task_attended k tr (CreateRO (ro\<lparr>ro_Meta := m\<rparr>) a9)"
  by (auto simp: attended_simps)

lemma updateTR_attended: "emits (updateTR k p) (\<lambda>res new. list_all (task_attended k tr) new)"
  by (rule emits_mono [OF updateTR_emits]) auto

lemma ca_attended: "ca_event e \<Longrightarrow> task_attended k tr e"
  unfolding ca_event_def by (elim disjE exE) simp_all

lemma ensureHubCAMap_attended: "emits (ensureHubCAMap k r ns) (\<lambda>res new. list_all (task_attended k tr) new)"
  by (rule emits_mono [OF ensureHubCAMap_emits]) (metis list.pred_mono_strong ca_attended)

lemma maybeStreamLogs_attended: "emits (maybeStreamLogs r p) (\<lambda>res new. list_all (task_attended k tr) new)"
  by (rule emits_mono [OF maybeStreamLogs_emits]) auto

lemmas task_parts_attended = wp_emits [OF updateTR_attended] wp_emits [OF ensureHubCAMap_attended] wp_emits [OF maybeStreamLogs_attended]

lemma startJob_attended: "emits (startJob k r ord now tr) (\<lambda>res new. list_all (task_attended k tr) new)"
  unfolding startJob_def Let_def by (intro emitsI wp_intro task_parts_attended) simp_all

lemma reconcileDeploy_attended: "emits (reconcileDeploy k now tr) (\<lambda>res new. list_all (task_attended k tr) new)"
  unfolding reconcileDeploy_def Let_def by (intro emitsI wp_intro task_parts_attended) simp_all

lemma watchJob_attended: "emits (watchJob k now tr) (\<lambda>res new. list_all (task_attended k tr) new)"
  unfolding watchJob_def failJob_def Let_def by (intro emitsI wp_intro task_parts_attended) simp_all

lemma reconcileApproval_attended: "emits (reconcileApproval k now tr) (\<lambda>res new. list_all (task_attended k tr) new)"
  unfolding reconcileApproval_def Let_def by (intro emitsI wp_intro task_parts_attended) simp_all

lemma TaskRun_Reconcile_attended:
  "emits (TaskRun_Reconcile k r ord now req) (\<lambda>res new. \<forall>tr es. new = GetTR req (Inr tr) # es \<longrightarrow> list_all (task_attended k tr) es)"
  unfolding TaskRun_Reconcile_def
  by (intro emitsI wp_intro wp_emits [OF startJob_attended] wp_emits [OF reconcileDeploy_attended]
      wp_emits [OF watchJob_attended] wp_emits [OF reconcileApproval_attended]) simp_all

subsection \<open>Rollouts\<close>

abbreviation rollout_attended :: "'c kclient \<Rightarrow> Rollout \<Rightarrow> effect \<Rightarrow> bool" where
  "rollout_attended k ro \<equiv> attended k Rollout_SetupWithManager (ro_Meta ro) []"

text \<open>What \<open>SetControllerReference\<close> documents of an object nobody owns yet, in the namespace of the owner: the reference is not refused.
  (One that has another controller is, with \<open>AlreadyOwnedError\<close>.)\<close>

definition owns_here :: "'c kclient \<Rightarrow> string \<Rightarrow> ObjectMeta \<Rightarrow> bool" where
  "owns_here k kind owner \<longleftrightarrow> (\<forall>ob. om_Namespace ob = om_Namespace owner \<longrightarrow> om_OwnerReferences ob = [] \<longrightarrow>
     (\<exists>m. setControllerReference k kind owner ob = Inr m))"

lemma ownedBy_reference:
  "owns_here k ''Rollout'' (ro_Meta ro) \<Longrightarrow> om_Namespace ob = om_Namespace (ro_Meta ro) \<Longrightarrow> om_OwnerReferences ob = [] \<Longrightarrow>
   \<exists>ob'. setControllerReference k ''Rollout'' (ro_Meta ro) ob' = Inr (ownedBy k ro ob)"
  unfolding owns_here_def ownedBy_def by (auto dest!: spec [of _ ob])

lemma rollout_attended_simps [simp]:
  "rollout_attended k ro (GetRO key a1)" "rollout_attended k ro (StatusRO p a2)" "rollout_attended k ro (PatchRO p1 p2 a3)"
  "rollout_attended k ro (GetDep key a4)" "rollout_attended k ro (PatchDep d1 d2 a5)" "rollout_attended k ro (GetSvc key a6)"
  "rollout_attended k ro (GetIng key a7)" "rollout_attended k ro (PatchIng i1 i2 a8)" "rollout_attended k ro (WeightMetric w)"
  "rollout_attended k ro (AlertEvent s1 s2 s3)"
  by (simp_all add: attended_simps)

lemma rollout_attended_creates [simp]:
  "rollout_attended k ro (CreateDep d a1) \<longleftrightarrow> (\<exists>ob. setControllerReference k ''Rollout'' (ro_Meta ro) ob = Inr (dep_Meta d))"
  "rollout_attended k ro (CreateSvc s a2) \<longleftrightarrow> (\<exists>ob. setControllerReference k ''Rollout'' (ro_Meta ro) ob = Inr (svc_Meta s))"
  "rollout_attended k ro (CreateIng i a3) \<longleftrightarrow> (\<exists>ob. setControllerReference k ''Rollout'' (ro_Meta ro) ob = Inr (ing_Meta i))"
  by (simp_all add: attended_simps)

lemma scaleDeployment_attended: "emits (scaleDeployment k dep n) (\<lambda>res new. list_all (rollout_attended k ro) new)"
  by (rule emits_mono [OF scaleDeployment_emits]) auto

lemma getStable_attended: "emits (getStable k ro') (\<lambda>res new. list_all (rollout_attended k ro) new)"
  unfolding getStable_def by (intro emitsI wp_intro) simp

lemma ensureWorkload_attended:
  "owns_here k ''Rollout'' (ro_Meta ro) \<Longrightarrow> emits (ensureWorkload k ro) (\<lambda>res new. list_all (rollout_attended k ro) new)"
  unfolding ensureWorkload_def Let_def
  by (intro emitsI wp_intro wp_emits [OF getStable_attended])
    (simp_all add: buildStable_def workloadDeployment_def ownedBy_reference meta0_def)

lemma ensureCanary_attended:
  "owns_here k ''Rollout'' (ro_Meta ro) \<Longrightarrow> emits (ensureCanary k ro) (\<lambda>res new. list_all (rollout_attended k ro) new)"
  unfolding ensureCanary_def Let_def
  by (intro emitsI wp_intro) (simp_all add: workloadDeployment_def ownedBy_reference meta0_def)

lemma ensureService_attended:
  "owns_here k ''Rollout'' (ro_Meta ro) \<Longrightarrow> emits (ensureService k env ro dep) (\<lambda>res new. list_all (rollout_attended k ro) new)"
  unfolding ensureService_def Let_def
  by (intro emitsI wp_intro) (simp_all add: ownedBy_reference meta0_def)

lemma ensureCanaryIngress_attended:
  "owns_here k ''Rollout'' (ro_Meta ro) \<Longrightarrow> emits (ensureCanaryIngress k env ro w) (\<lambda>res new. list_all (rollout_attended k ro) new)"
  unfolding ensureCanaryIngress_def Let_def
  by (intro emitsI wp_intro) (simp_all add: ownedBy_reference meta0_def)

lemmas rollout_parts_attended = wp_emits [OF getStable_attended] wp_emits [OF scaleDeployment_attended]
  wp_emits [OF ensureWorkload_attended] wp_emits [OF ensureCanary_attended] wp_emits [OF ensureService_attended]
  wp_emits [OF ensureCanaryIngress_attended]

lemma applyDecision_attended:
  "owns_here k ''Rollout'' (ro_Meta ro) \<Longrightarrow> emits (applyDecision k env ro d cd) (\<lambda>res new. list_all (rollout_attended k ro) new)"
  unfolding applyDecision_def
  by (intro emitsI wp_intro rollout_parts_attended) simp_all

lemma evaluateRollout_attended:
  "owns_here k ''Rollout'' (ro_Meta ro) \<Longrightarrow> emits (evaluateRollout k env now ro) (\<lambda>res new. list_all (rollout_attended k ro) new)"
  unfolding evaluateRollout_def Let_def
  by (intro emitsI wp_intro rollout_parts_attended wp_emits [OF applyDecision_attended]) simp_all

lemma holds_attended:
  "owns_here k ''Rollout'' (ro_Meta ro) \<Longrightarrow> emits (holdAborted k env now ro) (\<lambda>res new. list_all (rollout_attended k ro) new)"
  "owns_here k ''Rollout'' (ro_Meta ro) \<Longrightarrow> emits (holdPaused k env ro) (\<lambda>res new. list_all (rollout_attended k ro) new)"
  unfolding holdAborted_def holdPaused_def Let_def
  by (intro emitsI wp_intro rollout_parts_attended wp_emits [OF applyDecision_attended]; simp)+

lemma applyControlCommand_attended: "emits (applyControlCommand k now ro) (\<lambda>res new. \<forall>ro. list_all (rollout_attended k ro) new)"
  unfolding applyControlCommand_def applyAction_def Let_def by (intro emitsI wp_intro) simp_all

lemma stampPause_attended: "emits (stampPause k now req ro) (\<lambda>res new. \<forall>ro. list_all (rollout_attended k ro) new)"
  unfolding stampPause_def by (intro emitsI wp_intro) simp_all

text \<open>A description of an operation that holds under a condition on its input.\<close>

lemma emits_when: "emits m P' \<Longrightarrow> (b \<Longrightarrow> emits m P) \<Longrightarrow> emits m (\<lambda>r new. b \<longrightarrow> P r new)"
  by (cases b) (auto elim: emits_mono)

lemma Rollout_Reconcile_attended:
  "emits (Rollout_Reconcile k env now req) (\<lambda>res new. \<forall>ro es. new = GetRO req (Inr ro) # es \<longrightarrow>
     owns_here k ''Rollout'' (ro_Meta ro) \<longrightarrow> list_all (rollout_attended k ro) es)"
  unfolding Rollout_Reconcile_def Let_def
  by (intro emitsI wp_intro wp_emits [OF applyControlCommand_attended] wp_emits [OF stampPause_attended]
      wp_emits [OF emits_when [OF holdAborted_emits holds_attended(1)]]
      wp_emits [OF emits_when [OF holdPaused_emits holds_attended(2)]]
      wp_emits [OF emits_when [OF evaluateRollout_emits evaluateRollout_attended]]) simp_all

section \<open>The watches and the work\<close>

text \<open>C28: No reconcile leaves its work unwatched. Everything a reconcile of a run, a task run or a Rollout creates is of a kind its controller
  owns and has the controller reference of the object the reconcile is for, so that its changes bring that object back and its
  deletion follows; and every object it reads is of a kind it watches. The exceptions are the account, the role and the
  binding of a run, the ConfigMap of the hub CA, and the Rollouts that a run reads for its summary. A reconcile of a Rollout only logs a
  refused owner reference and creates the object without it: there, and only there, the library must not refuse the reference of an
  object that nobody owns, in the namespace of the Rollout.\<close>

theorem reconcilers_watch_their_work:
  "(exec (PipelineRun_Reconcile k r ord now req) c = (res, c', GetPR req (Inr pr) # es) \<longrightarrow>
       (\<forall>e\<in>set es. attended k PipelineRun_SetupWithManager (pr_Meta pr) [''ServiceAccount'', ''Role'', ''RoleBinding'', ''Rollout''] e)) \<and>
   (exec (TaskRun_Reconcile k tc vals now req') d = (res', d', GetTR req' (Inr tr) # es') \<longrightarrow>
       (\<forall>e\<in>set es'. attended k TaskRun_SetupWithManager (tr_Meta tr) [''ConfigMap''] e)) \<and>
   (exec (Rollout_Reconcile k env now req'') b = (res'', b', GetRO req'' (Inr ro) # es'') \<longrightarrow>
       owns_here k ''Rollout'' (ro_Meta ro) \<longrightarrow>
       (\<forall>e\<in>set es''. attended k Rollout_SetupWithManager (ro_Meta ro) [] e))"
  using emits_exec [OF TaskRun_Reconcile_attended [of k tc vals now req'], of d]
    emits_exec [OF Rollout_Reconcile_attended [of k env now req''], of b]
  by (auto simp: list_all_iff dest!: Reconcile_path run_path_attended)

lemma reconcilers_watch_their_work_witness:
  "\<exists>d' b' es es' es'' a. snd (snd (ex_reconcile (ex_run PipelineRunRunning Map.empty) [ex_taskrun ''build'' TaskRunSucceeded])) = a # es \<and>
     (\<forall>e\<in>set es. run_attended mem_client (ex_run PipelineRunRunning Map.empty) e) \<and>
     tx_exec 5 (cluster0\<lparr>cl_taskRuns := [tx_build]\<rparr>) = ((0, None), d', GetTR tx_key (Inr tx_build) # es') \<and>
     (\<forall>e\<in>set es'. task_attended mem_client tx_build e) \<and>
     ex_exec 5 ex_ro 8 2 = ((30 * second, None), b', GetRO Rollout_Props.ex_key (Inr ex_ro) # es'') \<and>
     (\<forall>e\<in>set es''. rollout_attended mem_client ex_ro e)"
proof -
  let ?pr = "ex_run PipelineRunRunning Map.empty" and ?items = "[ex_taskrun ''build'' TaskRunSucceeded]"
  have owns: "owns_here mem_client ''Rollout'' (ro_Meta ex_ro)" by (simp add: owns_here_def mem_client_simps)
  obtain c' es where run: "ex_reconcile ?pr ?items = ((0, None), c', GetPR (okey ''ci'' ''r1'') (Inr ?pr) # es)"
    using ex_schedule_run by blast
  obtain d' es' where task: "tx_exec 5 (cluster0\<lparr>cl_taskRuns := [tx_build]\<rparr>) = ((0, None), d', GetTR tx_key (Inr tx_build) # es')"
    using tx_build_run by blast
  obtain b' es'' where rollout: "ex_exec 5 ex_ro 8 2 = ((30 * second, None), b', GetRO Rollout_Props.ex_key (Inr ex_ro) # es'')"
    using ex_ro_run by blast
  note watched = reconcilers_watch_their_work
  have es: "snd (snd (ex_reconcile ?pr ?items)) = GetPR (okey ''ci'' ''r1'') (Inr ?pr) # es" by (simp only: run snd_conv)
  show ?thesis
    by (intro exI conjI, rule es, rule watched [THEN conjunct1, THEN mp, OF run [unfolded ex_reconcile_def]], rule task,
        rule watched [THEN conjunct2, THEN conjunct1, THEN mp, OF task], rule rollout,
        rule watched [THEN conjunct2, THEN conjunct2, THEN mp, THEN mp, OF rollout owns])
qed

text \<open>The phases of a Rollout that has not ended.\<close>

definition in_progress :: "RolloutPhase set" where
  "in_progress = {RolloutUnset, RolloutProgressing, RolloutPaused}"

lemma mirror_in_progress:
  "rst_Phase ro \<in> in_progress \<Longrightarrow> tst_Phase st = TaskRunRunning \<Longrightarrow> mirrorRollout now ro st = st"
  by (auto simp: mirrorRollout_def in_progress_def)

lemma mirror_ended: "rst_Phase ro \<notin> in_progress \<Longrightarrow> tst_CompletionTime (mirrorRollout now ro st) = Some now"
  by (cases "rst_Phase ro") (auto simp: mirrorRollout_def in_progress_def)

lemma job_path_no_rollout: "job_path r ord now tr res es \<Longrightarrow> GetRO key x \<notin> set es"
proof -
  have "\<not> ca_event (GetRO key x)" by (simp add: ca_event_def)
  then have "list_all ca_event ca \<Longrightarrow> GetRO key x \<notin> set ca" for ca by (auto simp: list_all_iff)
  then show "job_path r ord now tr res es \<Longrightarrow> GetRO key x \<notin> set es" by (auto elim!: job_path.cases)
qed

text \<open>C30: What a deploy task passes on of its Rollout. A reconcile of a deploy task that reads its Rollout writes one status. As long
  as the Rollout is in progress or paused, the status of a running task is written as it was, whatever step and
  weight the Rollout has reached: no change of the task run brings its run back, which does not watch Rollouts, although the summary of the
  run would have the new weight. Once the Rollout has ended, every reconcile writes its own clock as the completion time.\<close>

theorem rollout_progress_not_passed_on:
  assumes "exec (TaskRun_Reconcile k r ord now req) c = (res, c', GetTR req (Inr tr) # es)"
    and "is_deploy tr" "GetRO key (Inr ro) \<in> set es"
  shows "(\<exists>p a. es = [GetRO key (Inr ro), StatusTR p a] \<and>
       (rst_Phase (ro_Status ro) \<in> in_progress \<and> tr_Phase tr = TaskRunRunning \<longrightarrow> p = tr) \<and>
       (rst_Phase (ro_Status ro) \<notin> in_progress \<longrightarrow> tst_CompletionTime (tr_Status p) = Some now)) \<and>
     ''Rollout'' \<notin> set (su_For PipelineRun_SetupWithManager # su_Owns PipelineRun_SetupWithManager) \<and>
     (tst_RolloutRef (tr_Status tr) \<noteq> '''' \<and> om_Labels (ro_Meta ro) ''sdp.io/task-run'' = Some (om_Name (tr_Meta tr)) \<longrightarrow>
       map_option rss_CurrentWeight (rolloutSummaryFor tr (rolloutsByName [ro])) = Some (rst_CurrentWeight (ro_Status ro)))"
proof -
  have "\<exists>p a. es = [GetRO key (Inr ro), StatusTR p a] \<and> p = tr\<lparr>tr_Status := mirrorRollout now (ro_Status ro) (tr_Status tr)\<rparr>"
    using TaskRun_path [OF assms(1)] assms(2,3) job_path_no_rollout
    by cases (auto simp: is_deploy_def elim!: deploy_path.cases)
  then obtain p a where es: "es = [GetRO key (Inr ro), StatusTR p a]"
    and p: "p = tr\<lparr>tr_Status := mirrorRollout now (ro_Status ro) (tr_Status tr)\<rparr>"
    by blast
  have "rolloutsByName [ro] = [(map_get (om_Labels (ro_Meta ro)) ''sdp.io/task-run'', ro)]"
    by (simp add: rolloutsByName_def index_by_def)
  then have summary: "tst_RolloutRef (tr_Status tr) \<noteq> '''' \<Longrightarrow> om_Labels (ro_Meta ro) ''sdp.io/task-run'' = Some (om_Name (tr_Meta tr)) \<Longrightarrow>
     map_option rss_CurrentWeight (rolloutSummaryFor tr (rolloutsByName [ro])) = Some (rst_CurrentWeight (ro_Status ro))"
    by (simp add: rolloutSummaryFor_def map_get_def)
  have same: "rst_Phase (ro_Status ro) \<in> in_progress \<Longrightarrow> tr_Phase tr = TaskRunRunning \<Longrightarrow> p = tr"
    unfolding p by (simp add: mirror_in_progress)
  show ?thesis
    using es same summary by (simp add: p mirror_ended PipelineRun_SetupWithManager_def)
qed

text \<open>A Rollout at its second step and one at its first: the task run is written as it was, both times.\<close>

definition ox_rollout :: "int \<Rightarrow> Rollout" where
  "ox_rollout w = tx_rollout\<lparr>ro_Meta := (ro_Meta tx_rollout)\<lparr>om_Labels := [''sdp.io/task-run'' \<mapsto> ''r1-build'']\<rparr>,
     ro_Status := (ro_Status tx_rollout)\<lparr>rst_CurrentWeight := w\<rparr>\<rparr>"

lemma rollout_progress_not_passed_on_witness:
  "\<exists>key c1 c2 a1 a2. snd (tx_deploy_exec tx_deploy (ox_rollout 20)) = (c1, [GetTR tx_key (Inr tx_deploy), GetRO key (Inr (ox_rollout 20)), StatusTR tx_deploy a1]) \<and>
     snd (tx_deploy_exec tx_deploy (ox_rollout 50)) = (c2, [GetTR tx_key (Inr tx_deploy), GetRO key (Inr (ox_rollout 50)), StatusTR tx_deploy a2]) \<and>
     map_option rss_CurrentWeight (rolloutSummaryFor tx_deploy (rolloutsByName [ox_rollout 20])) = Some 20 \<and>
     map_option rss_CurrentWeight (rolloutSummaryFor tx_deploy (rolloutsByName [ox_rollout 50])) = Some 50"
proof -
  have deploy: "is_deploy tx_deploy" "tst_RolloutRef (tr_Status tx_deploy) = ''shop''" "trs_Namespace (tr_Spec tx_deploy) = ''ci''"
    "om_Name (tr_Meta tx_deploy) = ''r1-build''" "om_Namespace (tr_Meta tx_deploy) = ''ci''" "tr_Phase tx_deploy = TaskRunRunning"
    by (simp_all add: tx_deploy_def is_deploy_def)
  have ro: "om_Name (ro_Meta (ox_rollout w)) = ''shop''" "om_Namespace (ro_Meta (ox_rollout w)) = ''ci''"
    "rst_Phase (ro_Status (ox_rollout w)) \<in> in_progress" "rst_CurrentWeight (ro_Status (ox_rollout w)) = w"
    "om_Labels (ro_Meta (ox_rollout w)) ''sdp.io/task-run'' = Some (om_Name (tr_Meta tx_deploy))" for w
    by (simp_all add: ox_rollout_def tx_rollout_def rollout_status0_def in_progress_def deploy)
  have one: "\<exists>c a. snd (tx_deploy_exec tx_deploy (ox_rollout w)) =
       (c, [GetTR tx_key (Inr tx_deploy), GetRO (okey ''ci'' ''shop'') (Inr (ox_rollout w)), StatusTR tx_deploy a]) \<and>
     map_option rss_CurrentWeight (rolloutSummaryFor tx_deploy (rolloutsByName [ox_rollout w])) = Some w" for w
  proof -
    obtain res c' key a where run: "tx_deploy_exec tx_deploy (ox_rollout w) = (res, c', [GetTR tx_key (Inr tx_deploy),
       GetRO key (Inr (ox_rollout w)), StatusTR (tx_deploy\<lparr>tr_Status := mirrorRollout 5 (ro_Status (ox_rollout w)) (tr_Status tx_deploy)\<rparr>) a])"
      using tx_deploy_run [OF ro(1,2) deploy(1-5)] by blast
    have key: "key = okey ''ci'' ''shop''" using TaskRun_path [OF run] deploy
      by cases (auto simp: is_deploy_def elim!: deploy_path.cases)
    show ?thesis
      using rollout_progress_not_passed_on [OF run deploy(1), of key "ox_rollout w"] run ro deploy by (auto simp: key)
  qed
  show ?thesis using one [of 20] one [of 50] by blast
qed

end
