(* ===== verification/Logstream.thy ===== *)
theory Logstream
  imports Api_Types
begin

text \<open>
  \<open>src/pkg/logstream/logstream.go\<close>, and the goroutine of \<open>maybeStreamLogs\<close> with \<open>jobPodLog\<close> in
  \<open>src/internal/controller/taskrun_controller.go\<close>: a pod's log as chunks of lines. A stream is the bytes a reader delivers until its end, and
  the error it ends with (\<open>None\<close> for end of file).
\<close>

section \<open>The line scanner\<close>

definition newline :: char where "newline = CHR 0x0A"
definition carriageReturn :: char where "carriageReturn = CHR 0x0D"

type_synonym stream = "string \<times> go_error option"

definition dropCR :: "string \<Rightarrow> string" where
  "dropCR l = (if l \<noteq> [] \<and> last l = carriageReturn then butlast l else l)"

definition ErrTooLong :: go_error where "ErrTooLong = Err ''bufio.Scanner: token too long''"

lemma dropWhile_shorter: "dropWhile P s = c # s' \<Longrightarrow> length s' < length s"
  using length_dropWhile_le [of P s] by simp

text \<open>\<open>bufio.Scanner\<close> with \<open>ScanLines\<close> and a buffer of at most \<open>limit\<close> bytes: the lines, and whether a line did not
  fit. What is left at the end of the stream, by end of file or by an error, is a line too if it is not empty.\<close>

function scanLines :: "nat \<Rightarrow> string \<Rightarrow> string list \<times> bool" where
  "scanLines limit s =
     (if s = [] then ([], False)
      else let l = takeWhile (\<lambda>c. c \<noteq> newline) s; rest = dropWhile (\<lambda>c. c \<noteq> newline) s in
        if length l \<ge> limit then ([], True)
        else (case rest of
                [] \<Rightarrow> ([dropCR l], False)
              | _ # s' \<Rightarrow> (case scanLines limit s' of (ls, tooLong) \<Rightarrow> (dropCR l # ls, tooLong))))"
  by pat_completeness auto

termination
  by (relation "measure (\<lambda>(limit, s). length s)") (auto intro: dropWhile_shorter [OF sym])

declare scanLines.simps [simp del]

section \<open>Chunks\<close>

definition chunkSize :: int where "chunkSize = 8 * 1024"

definition maxTokenSize :: nat where "maxTokenSize = 16 * 1024 * 1024"

definition flush :: "string list \<times> string \<Rightarrow> string list \<times> string" where
  "flush st = (case st of (chunks, buf) \<Rightarrow> if buf \<noteq> [] then (chunks @ [buf], []) else (chunks, buf))"

text \<open>One line: it is written whole, after a flush when it would not fit, before one when the buffer is full.\<close>

definition addLine :: "int \<Rightarrow> string \<Rightarrow> string list \<times> string \<Rightarrow> string list \<times> string" where
  "addLine maxChunkSize line st =
     (let candidate = line @ [newline];
          st = (if snd st \<noteq> [] \<and> int (length (snd st) + length candidate) > maxChunkSize then flush st else st);
          st = (fst st, snd st @ candidate) in
      if int (length (snd st)) \<ge> maxChunkSize then flush st else st)"

fun splitLoop :: "int \<Rightarrow> string list \<Rightarrow> string list \<times> string \<Rightarrow> string list \<times> string" where
  "splitLoop maxChunkSize [] st = st"
| "splitLoop maxChunkSize (line # lines) st = splitLoop maxChunkSize lines (addLine maxChunkSize line st)"

definition SplitChunks :: "stream \<Rightarrow> int \<Rightarrow> string list \<times> go_error option" where
  "SplitChunks r maxSize =
     (let maxChunkSize = (if maxSize \<le> 0 then chunkSize else maxSize);
          (lines, tooLong) = scanLines maxTokenSize (fst r);
          chunks = fst (flush (splitLoop maxChunkSize lines ([], ''''))) in
      (chunks, if tooLong then Some ErrTooLong else snd r))"

text \<open>\<open>StreamLogs\<close>: the payloads handed to the sender and the error. \<open>cancelled i\<close> is whether the context is done
  before the \<open>i\<close>-th chunk, \<open>send\<close> the sender's answer.\<close>

fun sendChunks :: "(nat \<Rightarrow> bool) \<Rightarrow> (LogChunkPayload \<Rightarrow> go_error option) \<Rightarrow> LogChunkPayload \<Rightarrow> nat \<Rightarrow> string list \<Rightarrow>
  LogChunkPayload list \<times> go_error option" where
  "sendChunks cancelled send p i [] = ([], None)"
| "sendChunks cancelled send p i (c # cs) =
     (if cancelled i then ([], Some (Err ''context canceled''))
      else case send (p\<lparr>lc_Chunk := c\<rparr>) of
             Some err \<Rightarrow> ([p\<lparr>lc_Chunk := c\<rparr>], Some err)
           | None \<Rightarrow> (case sendChunks cancelled send p (i + 1) cs of (ps, e) \<Rightarrow> (p\<lparr>lc_Chunk := c\<rparr> # ps, e)))"

definition StreamLogs :: "(nat \<Rightarrow> bool) \<Rightarrow> (LogChunkPayload \<Rightarrow> go_error option) \<Rightarrow> stream \<Rightarrow> LogChunkPayload \<Rightarrow>
  LogChunkPayload list \<times> go_error option" where
  "StreamLogs cancelled send rc p =
     (case SplitChunks rc chunkSize of
        (chunks, Some err) \<Rightarrow> ([], Some err)
      | (chunks, None) \<Rightarrow> sendChunks cancelled send p 0 chunks)"

section \<open>The streamer of a task run\<close>

text \<open>The first pod of the Job, and its log as far as it is written: the options do not follow it.\<close>

definition jobPodLog :: "string list result \<Rightarrow> (string \<Rightarrow> stream result) \<Rightarrow> (string \<times> stream) option" where
  "jobPodLog pods getLogs =
     (case pods of
        Inl err \<Rightarrow> None
      | Inr [] \<Rightarrow> None
      | Inr (pod # _) \<Rightarrow> (case getLogs pod of Inl err \<Rightarrow> None | Inr rc \<Rightarrow> Some (pod, rc)))"

text \<open>The goroutine: at most ten attempts, two seconds apart, to open the log; \<open>pods t\<close> and \<open>logs t\<close> are what the cluster
  answers at the \<open>t\<close>-th attempt. Its own context is never done.\<close>

fun streamAttempts :: "nat \<Rightarrow> nat \<Rightarrow> (nat \<Rightarrow> string list result) \<Rightarrow> (nat \<Rightarrow> string \<Rightarrow> stream result) \<Rightarrow>
  (LogChunkPayload \<Rightarrow> go_error option) \<Rightarrow> LogChunkPayload \<Rightarrow> LogChunkPayload list" where
  "streamAttempts 0 t pods logs send p = []"
| "streamAttempts (Suc n) t pods logs send p =
     (case jobPodLog (pods t) (logs t) of
        Some (_, rc) \<Rightarrow> fst (StreamLogs (\<lambda>_. False) send rc p)
      | None \<Rightarrow> streamAttempts n (t + 1) pods logs send p)"

definition streamJobLogs :: "(nat \<Rightarrow> string list result) \<Rightarrow> (nat \<Rightarrow> string \<Rightarrow> stream result) \<Rightarrow>
  (LogChunkPayload \<Rightarrow> go_error option) \<Rightarrow> string \<Rightarrow> string \<Rightarrow> string \<Rightarrow> LogChunkPayload list" where
  "streamJobLogs pods logs send target run task =
     streamAttempts 10 0 pods logs send
       \<lparr>lc_TargetID = target, lc_PipelineRunName = run, lc_TaskName = task, lc_Stream = '''', lc_Chunk = ''''\<rparr>"

section \<open>What the chunks are\<close>

text \<open>The lines, one after the other, with their terminators.\<close>

definition unlines :: "string list \<Rightarrow> string" where
  "unlines ls = concat (map (\<lambda>l. l @ [newline]) ls)"

lemma unlines_simps [simp]: "unlines [] = []" "unlines (l # ls) = l @ newline # unlines ls"
  by (simp_all add: unlines_def)

text \<open>The state of the loop: the chunks closed so far, and the buffer.\<close>

definition chunk_ok :: "int \<Rightarrow> string list \<Rightarrow> string \<Rightarrow> bool" where
  "chunk_ok m ls c \<longleftrightarrow> c \<noteq> [] \<and> last c = newline \<and> (int (length c) \<le> m \<or> (\<exists>l\<in>set ls. c = l @ [newline]))"

definition split_inv :: "int \<Rightarrow> string list \<Rightarrow> string list \<times> string \<Rightarrow> bool" where
  "split_inv m ls st \<longleftrightarrow> (\<forall>c\<in>set (fst st). chunk_ok m ls c) \<and> (snd st \<noteq> [] \<longrightarrow> chunk_ok m ls (snd st) \<and> int (length (snd st)) < m)"

definition contents :: "string list \<times> string \<Rightarrow> string" where
  "contents st = concat (fst st) @ snd st"

lemma flush_contents [simp]: "contents (flush st) = contents st"
  by (simp add: flush_def contents_def split: prod.splits)

lemma flush_inv: "split_inv m ls (chunks, buf) \<Longrightarrow> split_inv m ls (flush (chunks, buf))"
  by (auto simp: split_inv_def flush_def)

lemma addLine_contents: "contents (addLine m l st) = contents st @ l @ [newline]"
proof -
  have step: "contents (fst st', snd st' @ l @ [newline]) = contents st' @ l @ [newline]" for st'
    by (simp add: contents_def)
  show ?thesis using flush_contents [of st] by (simp add: addLine_def Let_def step)
qed

lemma addLine_inv:
  assumes "split_inv m ls st" "l \<in> set ls"
  shows "split_inv m ls (addLine m l st)"
proof (cases st)
  case (Pair chunks buf)
  have line: "chunk_ok m ls (l @ [newline])" using assms(2) by (auto simp: chunk_ok_def)
  show ?thesis
  proof (cases "buf \<noteq> [] \<and> int (length buf + length (l @ [newline])) > m")
    case True
    then have "addLine m l st = (if int (length (l @ [newline])) \<ge> m then (chunks @ [buf] @ [l @ [newline]], []) else (chunks @ [buf], l @ [newline]))"
      by (simp add: addLine_def Pair flush_def Let_def)
    then show ?thesis using assms(1) line True Pair by (auto simp: split_inv_def)
  next
    case False
    have ok: "chunk_ok m ls (buf @ l @ [newline])" if "buf \<noteq> []"
      using False that by (simp add: chunk_ok_def)
    from False have "addLine m l st = (if int (length (buf @ l @ [newline])) \<ge> m then (chunks @ [buf @ l @ [newline]], []) else (chunks, buf @ l @ [newline]))"
      by (auto simp: addLine_def Pair flush_def Let_def)
    then show ?thesis using assms(1) line ok Pair by (cases "buf = []") (auto simp: split_inv_def)
  qed
qed

lemma splitLoop_spec:
  "split_inv m ls st \<Longrightarrow> set lines \<subseteq> set ls \<Longrightarrow>
   split_inv m ls (splitLoop m lines st) \<and> contents (splitLoop m lines st) = contents st @ unlines lines"
  by (induction lines arbitrary: st) (auto simp: addLine_inv addLine_contents)

lemma SplitChunks_spec:
  assumes "SplitChunks r maxSize = (chunks, err)" "m = (if maxSize \<le> 0 then chunkSize else maxSize)"
    and "scanLines maxTokenSize (fst r) = (lines, tooLong)"
  shows "concat chunks = unlines lines \<and> (\<forall>c\<in>set chunks. chunk_ok m lines c) \<and>
    err = (if tooLong then Some ErrTooLong else snd r)"
proof -
  let ?st = "splitLoop m lines ([], '''')"
  have s: "split_inv m lines ?st \<and> contents ?st = unlines lines"
    using splitLoop_spec [of m lines "([], '''')" lines] by (simp add: split_inv_def contents_def)
  then have f: "split_inv m lines (flush ?st)" "contents (flush ?st) = unlines lines"
    using flush_inv [of m lines "fst ?st" "snd ?st"] by simp_all
  have "snd (flush ?st) = []" by (simp add: flush_def split: prod.splits)
  moreover have "chunks = fst (flush ?st)" "err = (if tooLong then Some ErrTooLong else snd r)"
    using assms by (simp_all add: SplitChunks_def Let_def)
  ultimately show ?thesis using f by (simp add: contents_def split_inv_def)
qed

text \<open>A text of short lines without carriage returns is scanned to its lines.\<close>

lemma scanLines_unlines:
  assumes "\<forall>l\<in>set ls. newline \<notin> set l \<and> carriageReturn \<notin> set l \<and> length l < limit"
  shows "scanLines limit (unlines ls) = (ls, False)"
  using assms
proof (induction ls)
  case Nil
  then show ?case by (simp add: scanLines.simps)
next
  case (Cons l ls)
  have t: "takeWhile (\<lambda>c. c \<noteq> newline) (l @ newline # unlines ls) = l"
    "dropWhile (\<lambda>c. c \<noteq> newline) (l @ newline # unlines ls) = newline # unlines ls"
    using Cons.prems by (auto simp: takeWhile_tail dropWhile_append)
  have "l \<noteq> [] \<Longrightarrow> last l \<noteq> carriageReturn" using Cons.prems last_in_set [of l] by (metis list.set_intros(1))
  then have d: "dropCR l = l" by (auto simp: dropCR_def)
  show ?case using Cons t d by (simp add: scanLines.simps [of limit "l @ newline # unlines ls"])
qed

lemma sendChunks_ok:
  "(\<forall>c\<in>set cs. send (p\<lparr>lc_Chunk := c\<rparr>) = None) \<Longrightarrow> sendChunks (\<lambda>_. False) send p i cs = (map (\<lambda>c. p\<lparr>lc_Chunk := c\<rparr>) cs, None)"
  by (induction cs arbitrary: i) simp_all

lemma sendChunks_prefix: "\<exists>k. fst (sendChunks cancelled send p i cs) = map (\<lambda>c. p\<lparr>lc_Chunk := c\<rparr>) (take k cs)"
proof (induction cs arbitrary: i)
  case Nil
  then show ?case by simp
next
  case (Cons c cs)
  obtain k where "fst (sendChunks cancelled send p (i + 1) cs) = map (\<lambda>c. p\<lparr>lc_Chunk := c\<rparr>) (take k cs)"
    using Cons.IH by blast
  then show ?case
    by (cases "cancelled i"; cases "send (p\<lparr>lc_Chunk := c\<rparr>)")
      (auto intro: exI [of _ 0] exI [of _ 1] exI [of _ "Suc k"] split: prod.splits)
qed

end
