(* ===== verification/Connector.thy ===== *)
theory Connector
  imports Api_Types Go_Std
begin

text \<open>
  \<open>src/pkg/connector/client.go\<close> and \<open>src/api/v1alpha1/protocol.go\<close>: the long connection to the hub. The
  bearer tokens and the backoff are functions; the goroutines that share the bounded outbox are a step
  relation, with the other senders of the process as one more step. The websocket and the file system are parameters.
\<close>

section \<open>Messages\<close>

datatype MessageType =
    MessageApplyPipelineRun | MessageApproveTask | MessageRerunTask | MessageCancelPipelineRun | MessageRolloutControl
  | MessageAgentOp | MessageStatusUpdate | MessageLogChunk | MessageHeartbeat | MessageAgentOpStatus | MessageAgentOpLog
  | MessageAgentInfo | MessageOther string

record 'p Message =
  msg_Type :: MessageType
  msg_Payload :: 'p

section \<open>The client\<close>

record ('p, 'h) Client =
  cc_hubURL :: string
  cc_targetName :: string
  cc_authToken :: string
  cc_enrollToken :: string
  cc_credentialFile :: string
  cc_vendor :: string
  cc_region :: string
  cc_handlers :: "MessageType \<rightharpoonup> 'h"
  cc_onConnect :: "'p Message list option"
  cc_agentInfo :: "AgentInfoPayload option"

definition New :: "string \<Rightarrow> string \<Rightarrow> string \<Rightarrow> ('p, 'h) Client" where
  "New hubURL targetName authToken = \<lparr>cc_hubURL = hubURL, cc_targetName = targetName, cc_authToken = authToken,
     cc_enrollToken = '''', cc_credentialFile = '''', cc_vendor = '''', cc_region = '''', cc_handlers = Map.empty,
     cc_onConnect = None, cc_agentInfo = None\<rparr>"

definition WithEnrollInfo :: "string \<Rightarrow> string \<Rightarrow> ('p, 'h) Client \<Rightarrow> ('p, 'h) Client" where
  "WithEnrollInfo vendor region c = c\<lparr>cc_vendor := vendor, cc_region := region\<rparr>"

definition WithEnrollBootstrap :: "string \<Rightarrow> string \<Rightarrow> ('p, 'h) Client \<Rightarrow> ('p, 'h) Client" where
  "WithEnrollBootstrap enrollToken credentialFile c = c\<lparr>cc_enrollToken := enrollToken, cc_credentialFile := credentialFile\<rparr>"

text \<open>The platform is that of the build: \<open>runtime.GOOS\<close>, \<open>GOARCH\<close> and \<open>Version\<close>.\<close>

definition WithAgentInfo :: "string \<Rightarrow> string \<Rightarrow> string \<Rightarrow> AgentInfoPayload \<Rightarrow> ('p, 'h) Client \<Rightarrow> ('p, 'h) Client" where
  "WithAgentInfo goos goarch goversion info c =
     (let info = (if ai_OS info = '''' then info\<lparr>ai_OS := goos\<rparr> else info);
          info = (if ai_Arch info = '''' then info\<lparr>ai_Arch := goarch\<rparr> else info);
          info = (if ai_GoVersion info = '''' then info\<lparr>ai_GoVersion := goversion\<rparr> else info) in
      c\<lparr>cc_agentInfo := Some info\<rparr>)"

definition OnMessage :: "MessageType \<Rightarrow> 'h \<Rightarrow> ('p, 'h) Client \<Rightarrow> ('p, 'h) Client" where
  "OnMessage t h c = c\<lparr>cc_handlers := (cc_handlers c)(t \<mapsto> h)\<rparr>"

text \<open>The callback is the frames it sends; it is called synchronously.\<close>

definition OnConnect :: "'p Message list \<Rightarrow> ('p, 'h) Client \<Rightarrow> ('p, 'h) Client" where
  "OnConnect frames c = c\<lparr>cc_onConnect := Some frames\<rparr>"

section \<open>Credentials\<close>

text \<open>\<open>file\<close> is what \<open>os.ReadFile\<close> of the credential file answers.\<close>

definition currentToken :: "('p, 'h) Client \<Rightarrow> string result \<Rightarrow> string" where
  "currentToken c file =
     (let stored = (if cc_credentialFile c \<noteq> '''' then (case file of Inr b \<Rightarrow> TrimSpace b | Inl err \<Rightarrow> '''') else '''') in
      if stored \<noteq> '''' then stored
      else if cc_enrollToken c \<noteq> '''' then cc_enrollToken c
      else cc_authToken c)"

text \<open>The file after the handshake: \<open>mkdirErr\<close> is the error of \<open>os.MkdirAll\<close>, \<open>written\<close> the file after \<open>os.WriteFile\<close>.\<close>

definition persistCredential :: "('p, 'h) Client \<Rightarrow> string \<Rightarrow> go_error option \<Rightarrow> (string \<Rightarrow> string result) \<Rightarrow> string result \<Rightarrow> string result" where
  "persistCredential c cred mkdirErr written file =
     (if cc_credentialFile c = '''' \<or> cred = '''' then file
      else if mkdirErr \<noteq> None then file
      else written (cred @ [CHR 0x0A]))"

definition dialHeader :: "('p, 'h) Client \<Rightarrow> string result \<Rightarrow> (string \<times> string) list" where
  "dialHeader c file =
     [(''Authorization'', ''Bearer '' @ currentToken c file), (''X-Target-Name'', cc_targetName c)] @
     (if cc_vendor c \<noteq> '''' \<and> cc_region c \<noteq> ''''
      then [(''X-Target-Vendor'', cc_vendor c), (''X-Target-Region'', cc_region c)] else [])"

section \<open>The reconnect loop\<close>

definition nextBackoff :: "duration \<Rightarrow> duration" where
  "nextBackoff backoff = (if backoff < 30 * second then i64 (backoff * 2) else backoff)"

text \<open>The sleeps of \<open>Run\<close> over the outcomes of \<open>connectAndServe\<close>, \<open>True\<close> for no error.\<close>

fun Run :: "duration \<Rightarrow> bool list \<Rightarrow> duration list" where
  "Run backoff [] = []"
| "Run backoff (ok # rest) =
     (if ok then Run second rest else backoff # Run (nextBackoff backoff) rest)"

section \<open>The outbox\<close>

text \<open>Where the goroutine of the connection stands: dialling; blocked in a \<open>Send\<close> of its own with what it does
  after it (the identity frame, the frames of the callback, a heartbeat); in the select loop; stopped.\<close>

datatype 'p pc = Dialing | Announce | Resync "'p Message list" | Serving | Beat | Stopped

record 'p ConnState =
  cs_pc :: "'p pc"
  cs_outbox :: "'p Message list"
  cs_sent :: "'p Message list"
  cs_taken :: "('p Message \<times> bool) list"

definition outboxCap :: nat where "outboxCap = 256"

definition conn_init :: "'p ConnState" where
  "conn_init = \<lparr>cs_pc = Dialing, cs_outbox = [], cs_sent = [], cs_taken = []\<rparr>"

text \<open>\<open>Send\<close> appends when there is room and blocks otherwise; \<open>cs_sent\<close> records the frames accepted, \<open>cs_taken\<close>
  the frames taken off the outbox and whether they were written to the hub.\<close>

definition enqueue :: "'p Message \<Rightarrow> 'p pc \<Rightarrow> 'p ConnState \<Rightarrow> 'p ConnState" where
  "enqueue m pc s = s\<lparr>cs_pc := pc, cs_outbox := cs_outbox s @ [m], cs_sent := cs_sent s @ [m]\<rparr>"

definition hasRoom :: "'p ConnState \<Rightarrow> bool" where
  "hasRoom s \<longleftrightarrow> length (cs_outbox s) < outboxCap"

definition connected :: "('p, 'h) Client \<Rightarrow> 'p pc" where
  "connected c =
     (if cc_agentInfo c \<noteq> None then Announce
      else case cc_onConnect c of Some frames \<Rightarrow> Resync frames | None \<Rightarrow> Serving)"

definition announced :: "('p, 'h) Client \<Rightarrow> 'p pc" where
  "announced c = (case cc_onConnect c of Some frames \<Rightarrow> Resync frames | None \<Rightarrow> Serving)"

inductive conn_step :: "('p, 'h) Client \<Rightarrow> 'p ConnState \<Rightarrow> 'p ConnState \<Rightarrow> bool" for c where
  st_other: "hasRoom s \<Longrightarrow> conn_step c s (enqueue m (cs_pc s) s)"
| st_dial: "cs_pc s = Dialing \<Longrightarrow> conn_step c s (s\<lparr>cs_pc := connected c\<rparr>)"
| st_announce: "cs_pc s = Announce \<Longrightarrow> hasRoom s \<Longrightarrow> msg_Type m = MessageAgentInfo \<Longrightarrow> conn_step c s (enqueue m (announced c) s)"
| st_resync: "cs_pc s = Resync (m # ms) \<Longrightarrow> hasRoom s \<Longrightarrow> conn_step c s (enqueue m (Resync ms) s)"
| st_resynced: "cs_pc s = Resync [] \<Longrightarrow> conn_step c s (s\<lparr>cs_pc := Serving\<rparr>)"
| st_tick: "cs_pc s = Serving \<Longrightarrow> conn_step c s (s\<lparr>cs_pc := Beat\<rparr>)"
| st_beat: "cs_pc s = Beat \<Longrightarrow> hasRoom s \<Longrightarrow> msg_Type m = MessageHeartbeat \<Longrightarrow> conn_step c s (enqueue m Serving s)"
| st_write: "cs_pc s = Serving \<Longrightarrow> cs_outbox s = m # rest \<Longrightarrow>
     conn_step c s (s\<lparr>cs_outbox := rest, cs_taken := cs_taken s @ [(m, True)]\<rparr>)"
| st_write_fails: "cs_pc s = Serving \<Longrightarrow> cs_outbox s = m # rest \<Longrightarrow>
     conn_step c s (s\<lparr>cs_pc := Dialing, cs_outbox := rest, cs_taken := cs_taken s @ [(m, False)]\<rparr>)"
| st_lost: "cs_pc s = Serving \<Longrightarrow> conn_step c s (s\<lparr>cs_pc := Dialing\<rparr>)"
| st_done: "cs_pc s \<in> {Dialing, Serving} \<Longrightarrow> conn_step c s (s\<lparr>cs_pc := Stopped\<rparr>)"

inductive_cases conn_stepE: "conn_step c s s'"

text \<open>\<open>readLoop\<close> on one inbound message: the handler that runs, if one is registered.\<close>

definition readMessage :: "('p, 'h) Client \<Rightarrow> 'p Message \<Rightarrow> ('h \<times> 'p) option" where
  "readMessage c m = (case cc_handlers c (msg_Type m) of None \<Rightarrow> None | Some h \<Rightarrow> Some (h, msg_Payload m))"

section \<open>Lemmas\<close>

lemma i64_double: "0 \<le> x \<Longrightarrow> x \<le> 16 \<Longrightarrow> i64 (2000000000 * x) = 2000000000 * x"
  by (intro i64_id) simp_all

lemma Run_step_bound: "0 < b \<Longrightarrow> b \<le> 32 * second \<Longrightarrow> (\<exists>k. b = 2 ^ k * second) \<Longrightarrow>
  nextBackoff b \<le> 32 * second \<and> 0 < nextBackoff b \<and> (\<exists>k. nextBackoff b = 2 ^ k * second)"
proof -
  assume b: "0 < b" "b \<le> 32 * second" "\<exists>k. b = 2 ^ k * second"
  then obtain k where k: "b = 2 ^ k * second" by blast
  show ?thesis
  proof (cases "b < 30 * second")
    case True
    then have "(2::int) ^ k < 2 ^ 5" using k by (simp add: second_def)
    then have k4: "k \<le> 4" using power_strict_increasing_iff [of "2 :: int" k 5] by simp
    then have p: "(2::int) ^ k \<le> 2 ^ 4" by (intro power_increasing) simp_all
    have "(0 :: int) \<le> 2 ^ k" by simp
    with p have big: "i64 (2000000000 * 2 ^ k) = 2000000000 * 2 ^ k" by (intro i64_double) simp_all
    have n: "nextBackoff b = 2 ^ Suc k * second"
      using True big by (simp add: nextBackoff_def k second_def)
    then show ?thesis using p by (auto simp: second_def intro: exI [of _ "Suc k"])
  next
    case False
    then show ?thesis using b by (simp add: nextBackoff_def)
  qed
qed

text \<open>The invariant of the outbox: bounded, and first in, first out.\<close>

definition conn_inv :: "'p ConnState \<Rightarrow> bool" where
  "conn_inv s \<longleftrightarrow> length (cs_outbox s) \<le> outboxCap \<and> cs_sent s = map fst (cs_taken s) @ cs_outbox s"

lemma conn_inv_init: "conn_inv conn_init"
  by (simp add: conn_inv_def conn_init_def)

lemma enqueue_views [simp]:
  "cs_pc (enqueue m pc s) = pc" "cs_outbox (enqueue m pc s) = cs_outbox s @ [m]"
  "cs_sent (enqueue m pc s) = cs_sent s @ [m]" "cs_taken (enqueue m pc s) = cs_taken s"
  by (simp_all add: enqueue_def)

lemma conn_inv_step: "conn_step c s s' \<Longrightarrow> conn_inv s \<Longrightarrow> conn_inv s'"
  by (induction rule: conn_step.induct) (auto simp: conn_inv_def hasRoom_def)

lemma conn_inv_reach: "(conn_step c)\<^sup>*\<^sup>* conn_init s \<Longrightarrow> conn_inv s"
  by (induction rule: rtranclp_induct) (auto simp: conn_inv_init intro: conn_inv_step)

text \<open>Other senders fill the outbox.\<close>

lemma fill_outbox:
  fixes m :: "'p Message" and s :: "'p ConnState"
  shows "length (cs_outbox s) + n \<le> outboxCap \<Longrightarrow>
  \<exists>s'. (conn_step c)\<^sup>*\<^sup>* s s' \<and> cs_pc s' = cs_pc s \<and> length (cs_outbox s') = length (cs_outbox s) + n"
proof (induction n)
  case 0
  then show ?case by (intro exI [of _ s]) simp
next
  case (Suc n)
  then obtain s' where s': "(conn_step c)\<^sup>*\<^sup>* s s'" "cs_pc s' = cs_pc s" "length (cs_outbox s') = length (cs_outbox s) + n"
    by auto
  have "conn_step c s' (enqueue m (cs_pc s') s')" using Suc.prems s'(3) by (intro st_other) (simp add: hasRoom_def)
  with s' show ?case by (intro exI [of _ "enqueue m (cs_pc s') s'"]) (auto intro: rtranclp.rtrancl_into_rtrancl)
qed

text \<open>A goroutine that waits to send while nobody can take anything off the outbox.\<close>

lemma full_stuck:
  assumes "\<not> hasRoom s" "cs_pc s = Announce \<or> cs_pc s = Beat \<or> (\<exists>m ms. cs_pc s = Resync (m # ms))"
  shows "\<not> conn_step c s s'"
  using assms by (auto elim!: conn_stepE)

text \<open>
  A callback with more frames than the outbox holds is never done: nothing is taken off the outbox before the select
  loop runs, and what is left of the frames and what is in the outbox are at least all of them.
\<close>

definition resync_inv :: "'p Message list \<Rightarrow> 'p ConnState \<Rightarrow> bool" where
  "resync_inv frames s \<longleftrightarrow> length (cs_outbox s) \<le> outboxCap \<and> cs_pc s \<noteq> Serving \<and> cs_pc s \<noteq> Beat \<and> cs_taken s = [] \<and>
     (\<forall>ms. cs_pc s = Resync ms \<longrightarrow> length frames \<le> length ms + length (cs_outbox s))"

lemma resync_inv_step:
  assumes "conn_step c s s'" "resync_inv frames s" "cc_onConnect c = Some frames" "outboxCap < length frames"
  shows "resync_inv frames s'"
  using assms by (induction rule: conn_step.induct) (auto simp: resync_inv_def hasRoom_def connected_def announced_def)

lemma resync_inv_reach:
  assumes "(conn_step c)\<^sup>*\<^sup>* conn_init s" "cc_onConnect c = Some frames" "outboxCap < length frames"
  shows "resync_inv frames s"
  using assms(1)
proof (induction rule: rtranclp_induct)
  case base
  then show ?case by (simp add: resync_inv_def conn_init_def)
next
  case (step s s')
  then show ?case using resync_inv_step assms(2,3) by blast
qed

end
