(* ===== verification/Agentops.thy ===== *)
theory Agentops
  imports Kube "HOL-Library.Char_ord" "HOL-Library.List_Lexorder" "HOL-Library.Sublist"
begin

text \<open>
  \<open>src/internal/agentops/handler.go\<close>: the agent operations of the hub, run as Jobs. The typed client of
  this package is a parameter of its own, a record of the calls it makes, and every call and every frame for the
  hub is an event of the transcript. A failed \<open>Send\<close> is only logged, so a frame is an event without an answer.
  Formatted error texts are left out of the messages.
\<close>

section \<open>Constants and configuration\<close>

definition AgentOpStatusRunning :: string where "AgentOpStatusRunning = ''running''"
definition AgentOpStatusSucceeded :: string where "AgentOpStatusSucceeded = ''succeeded''"
definition AgentOpStatusFailed :: string where "AgentOpStatusFailed = ''failed''"
definition AgentOpStreamStdout :: string where "AgentOpStreamStdout = ''stdout''"
definition AgentOpTypeExec :: string where "AgentOpTypeExec = ''exec''"
definition AgentOpTypeUpgrade :: string where "AgentOpTypeUpgrade = ''upgrade''"

lemmas agent_constants = AgentOpStatusRunning_def AgentOpStatusSucceeded_def AgentOpStatusFailed_def
  AgentOpStreamStdout_def AgentOpTypeExec_def AgentOpTypeUpgrade_def

definition DefaultImage :: string where "DefaultImage = ''harbor.sdpworkflow.com/sdp/busybox:1.36''"
definition DefaultTimeout :: duration where "DefaultTimeout = 10 * 60 * second"
definition agent_DefaultKubectlImage :: string where
  "agent_DefaultKubectlImage = ''harbor.sdpworkflow.com/sdp/kubectl:1.30''"
definition DefaultRunnerImageName :: string where
  "DefaultRunnerImageName = ''harbor.sdpworkflow.com/sdp/software-distribution-platform-runner''"
definition DefaultSelfDeployment :: string where "DefaultSelfDeployment = ''runner''"
definition DefaultSelfContainer :: string where "DefaultSelfContainer = ''container-1''"
definition DefaultSelfSA :: string where "DefaultSelfSA = ''sdp-runner''"
definition jobTTLSeconds :: int where "jobTTLSeconds = 3600"
definition fallbackNamespace :: string where "fallbackNamespace = ''default''"

text \<open>The typed client: the pods are those of the Job's label; a log that cannot be opened is an error.\<close>

record 'c AgentClient =
  opc_CreateJob :: "string \<Rightarrow> Job \<Rightarrow> ('c, Job result) state"
  opc_GetJob :: "string \<Rightarrow> string \<Rightarrow> ('c, Job result) state"
  opc_ListJobs :: "string \<Rightarrow> string \<Rightarrow> ('c, Job list result) state"
  opc_CreateNs :: "string \<Rightarrow> ('c, unit result) state"
  opc_ListPods :: "string \<Rightarrow> string \<Rightarrow> ('c, string list result) state"
  opc_ReadLog :: "string \<Rightarrow> string \<Rightarrow> ('c, string result) state"

datatype op_event =
    OpStatus string string string
  | OpLog string string string
  | OpCreateJob string Job "Job result"
  | OpGetJob string string "Job result"
  | OpListJobs string string "Job list result"
  | OpCreateNs string "unit result"
  | OpListPods string string "string list result"
  | OpReadLog string string "string result"

type_synonym ('c, 'a) oio = "('c, op_event, 'a) io"

record 'c AgentHandler =
  oh_Clientset :: "'c AgentClient option"
  oh_Image :: string
  oh_Timeout :: duration
  oh_SelfNamespace :: string
  oh_SelfDeployment :: string
  oh_SelfContainer :: string
  oh_SelfSA :: string
  oh_SelfRunnerImage :: string
  oh_SelfKubectlImage :: string
  oh_SelfUpgradeDisabled :: bool

section \<open>The Jobs\<close>

definition opJob :: "ObjectMeta \<Rightarrow> string \<Rightarrow> Container \<Rightarrow> Job" where
  "opJob meta sa c = \<lparr>job_Meta = meta, job_BackoffLimit = Some 0, job_TTLSecondsAfterFinished = Some jobTTLSeconds,
     job_ActiveDeadlineSeconds = None,
     job_Pod = \<lparr>ps_RestartPolicy = ''Never'', ps_ServiceAccountName = sa, ps_InitContainers = [], ps_Containers = [c], ps_Volumes = []\<rparr>,
     job_Succeeded = 0, job_Failed = 0, job_Conditions = []\<rparr>"

definition opLabels :: "AgentOpDispatchPayload \<Rightarrow> string \<rightharpoonup> string" where
  "opLabels p = [''sdp.io/agent-op'' \<mapsto> ao_OpID p, ''sdp.io/target'' \<mapsto> ao_TargetID p]"

definition BuildJobSpec :: "AgentOpDispatchPayload \<Rightarrow> string \<Rightarrow> string \<times> Job" where
  "BuildJobSpec p img =
     (let ns = (if ao_Namespace p = '''' then fallbackNamespace else ao_Namespace p) in
      (ns, opJob (meta0\<lparr>om_GenerateName := ''sdp-agentop-'', om_Namespace := ns, om_Labels := opLabels p\<rparr>) ''''
        (container0\<lparr>con_Name := ''exec'', con_Image := img, con_Command := [''sh'', ''-c'', ao_Detail p]\<rparr>)))"

definition orDefault :: "string \<Rightarrow> string \<Rightarrow> string" where
  "orDefault v def = (if v \<noteq> '''' then v else def)"

record upgradeOpts =
  uo_Namespace :: string
  uo_Deployment :: string
  uo_Container :: string
  uo_ServiceAcct :: string
  uo_NewImage :: string
  uo_KubectlImg :: string
  uo_Timeout :: string

definition handler_upgradeOpts :: "'c AgentHandler \<Rightarrow> string \<Rightarrow> upgradeOpts" where
  "handler_upgradeOpts h ns = \<lparr>uo_Namespace = ns,
     uo_Deployment = orDefault (oh_SelfDeployment h) DefaultSelfDeployment,
     uo_Container = orDefault (oh_SelfContainer h) DefaultSelfContainer,
     uo_ServiceAcct = orDefault (oh_SelfSA h) DefaultSelfSA,
     uo_NewImage = orDefault (oh_SelfRunnerImage h) DefaultRunnerImageName,
     uo_KubectlImg = orDefault (oh_SelfKubectlImage h) agent_DefaultKubectlImage,
     uo_Timeout = ''8m''\<rparr>"

definition upgradeScript :: "AgentOpDispatchPayload \<Rightarrow> upgradeOpts \<Rightarrow> string" where
  "upgradeScript p u =
     (let img = uo_NewImage u @ '':'' @ ao_Detail p in
      ''kubectl -n '' @ uo_Namespace u @ '' set image deployment/'' @ uo_Deployment u @ '' '' @ uo_Container u @ ''='' @ img @
      '' && kubectl -n '' @ uo_Namespace u @ '' rollout status deployment/'' @ uo_Deployment u @ '' --timeout='' @ uo_Timeout u)"

text \<open>The slice \<open>p.OpID[:8]\<close> panics on a shorter id: \<open>None\<close>.\<close>

definition BuildUpgradeJobSpec :: "AgentOpDispatchPayload \<Rightarrow> upgradeOpts \<Rightarrow> (string \<times> Job) option" where
  "BuildUpgradeJobSpec p u =
     (if length (ao_OpID p) < 8 then None
      else Some (uo_Namespace u,
        opJob (meta0\<lparr>om_Name := ''sdp-upgrade-'' @ take 8 (ao_OpID p), om_Namespace := uo_Namespace u, om_Labels := opLabels p\<rparr>)
          (uo_ServiceAcct u)
          (container0\<lparr>con_Name := ''upgrade'', con_Image := uo_KubectlImg u, con_Command := [''sh'', ''-c'', upgradeScript p u]\<rparr>)))"

section \<open>Handler\<close>

definition handler_image :: "'c AgentHandler \<Rightarrow> string" where
  "handler_image h = (if oh_Image h \<noteq> '''' then oh_Image h else DefaultImage)"

definition handler_timeout :: "'c AgentHandler \<Rightarrow> duration" where
  "handler_timeout h = (if oh_Timeout h > 0 then oh_Timeout h else DefaultTimeout)"

text \<open>The trimmed content of the service account's namespace file, if it can be read, is a parameter.\<close>

definition selfNamespace :: "'c AgentHandler \<Rightarrow> string option \<Rightarrow> string" where
  "selfNamespace h file =
     (if oh_SelfNamespace h \<noteq> '''' then oh_SelfNamespace h
      else case file of Some ns \<Rightarrow> ns | None \<Rightarrow> fallbackNamespace)"

definition report :: "AgentOpDispatchPayload \<Rightarrow> string \<Rightarrow> string \<Rightarrow> ('c, unit) oio" where
  "report p status message = emit (OpStatus (ao_OpID p) status message)"

definition sendChunk :: "AgentOpDispatchPayload \<Rightarrow> string \<Rightarrow> string \<Rightarrow> ('c, unit) oio" where
  "sendChunk p stream chunk = (if chunk = '''' then ret () else emit (OpLog (ao_OpID p) stream chunk))"

text \<open>The logs of the pods past the offsets; a pod whose log does not open is skipped.\<close>

fun drainPods :: "'c AgentClient \<Rightarrow> AgentOpDispatchPayload \<Rightarrow> string \<Rightarrow> string list \<Rightarrow> (string \<Rightarrow> nat) \<Rightarrow> ('c, string \<Rightarrow> nat) oio" where
  "drainPods cs p ns [] offsets = ret offsets"
| "drainPods cs p ns (name # names) offsets = do {
     got \<leftarrow> call (OpReadLog ns name) (opc_ReadLog cs ns name);
     case got of
       Inl err \<Rightarrow> drainPods cs p ns names offsets
     | Inr buf \<Rightarrow>
         if length buf > offsets name then do {
           sendChunk p AgentOpStreamStdout (drop (offsets name) buf);
           drainPods cs p ns names (offsets(name := length buf))
         }
         else drainPods cs p ns names offsets
   }"

definition drainLogs :: "'c AgentClient \<Rightarrow> AgentOpDispatchPayload \<Rightarrow> string \<Rightarrow> string \<Rightarrow> (string \<Rightarrow> nat) \<Rightarrow> ('c, string \<Rightarrow> nat) oio" where
  "drainLogs cs p ns jobName offsets = do {
     pods \<leftarrow> call (OpListPods ns jobName) (opc_ListPods cs ns jobName);
     case pods of
       Inl err \<Rightarrow> ret offsets
     | Inr names \<Rightarrow> drainPods cs p ns (sort names) offsets
   }"

text \<open>The loop runs once per tick; \<open>ticks\<close> is how often the ticker fires before the deadline of the context is taken.\<close>

fun agent_watchJob :: "'c AgentClient \<Rightarrow> AgentOpDispatchPayload \<Rightarrow> string \<Rightarrow> string \<Rightarrow> nat \<Rightarrow> (string \<Rightarrow> nat) \<Rightarrow> ('c, string \<times> string) oio" where
  "agent_watchJob cs p ns jobName 0 offsets = ret (AgentOpStatusFailed, ''execution timed out'')"
| "agent_watchJob cs p ns jobName (Suc ticks) offsets = do {
     got \<leftarrow> call (OpGetJob ns jobName) (opc_GetJob cs ns jobName);
     case got of
       Inl err \<Rightarrow> ret (AgentOpStatusFailed, ''get job'')
     | Inr job \<Rightarrow> do {
         offsets \<leftarrow> drainLogs cs p ns jobName offsets;
         if job_Succeeded job > 0 then ret (AgentOpStatusSucceeded, '''')
         else case filter (\<lambda>c. cond_Type c = ''Failed'') (job_Conditions job) of
                c # _ \<Rightarrow> ret (AgentOpStatusFailed, cond_Message c)
              | [] \<Rightarrow> agent_watchJob cs p ns jobName ticks offsets
       }
   }"

definition executeUpgrade :: "'c AgentHandler \<Rightarrow> string option \<Rightarrow> AgentOpDispatchPayload \<Rightarrow> ('c, bool) oio" where
  "executeUpgrade h nsFile p =
     (if oh_SelfUpgradeDisabled h then do {
        report p AgentOpStatusFailed ''self-upgrade disabled on this runner (chart runner.selfUpgrade.enabled=false)''; ret True }
      else if ao_Detail p = '''' then do { report p AgentOpStatusFailed ''upgrade op carries no target version''; ret True }
      else case oh_Clientset h of
             None \<Rightarrow> do { report p AgentOpStatusFailed ''no in-cluster credentials for self-upgrade''; ret True }
           | Some cs \<Rightarrow> do {
               let ns = selfNamespace h nsFile;
               existing \<leftarrow> call (OpListJobs ns (ao_OpID p)) (opc_ListJobs cs ns (ao_OpID p));
               case existing of
                 Inr (j # _) \<Rightarrow> do {
                   sendChunk p AgentOpStreamStdout (''upgrade job already in flight: '' @ om_Name (job_Meta j) @ [CHR 0x0A]); ret True }
               | _ \<Rightarrow>
                   (case BuildUpgradeJobSpec p (handler_upgradeOpts h ns) of
                      None \<Rightarrow> ret False
                    | Some (_, job) \<Rightarrow> do {
                        created \<leftarrow> call (OpCreateJob ns job) (opc_CreateJob cs ns job);
                        case created of
                          Inl err \<Rightarrow> do { report p AgentOpStatusFailed ''create upgrade job''; ret True }
                        | Inr _ \<Rightarrow> ret True
                      })
             })"

text \<open>\<open>clientFor\<close> is the client a kubeconfig describes, or nothing when it is invalid. The answer is \<open>False\<close> for a panic.\<close>

definition createOpJob :: "'c AgentClient \<Rightarrow> string \<Rightarrow> Job \<Rightarrow> ('c, Job result) oio" where
  "createOpJob cs ns job = do {
     created \<leftarrow> call (OpCreateJob ns job) (opc_CreateJob cs ns job);
     case created of
       Inr j \<Rightarrow> ret created
     | Inl err \<Rightarrow>
         if err = NotFound then do {
           _ \<leftarrow> call (OpCreateNs ns) (opc_CreateNs cs ns);
           call (OpCreateJob ns job) (opc_CreateJob cs ns job)
         }
         else ret created
   }"

definition executeExec :: "'c AgentHandler \<Rightarrow> (string \<Rightarrow> 'c AgentClient option) \<Rightarrow> nat \<Rightarrow> AgentOpDispatchPayload \<Rightarrow> ('c, unit) oio" where
  "executeExec h clientFor ticks p =
     (if ao_Kubeconfig p \<noteq> '''' \<and> clientFor (ao_Kubeconfig p) = None
      then report p AgentOpStatusFailed ''invalid kubeconfig''
      else case (if ao_Kubeconfig p \<noteq> '''' then clientFor (ao_Kubeconfig p) else oh_Clientset h) of
             None \<Rightarrow> report p AgentOpStatusFailed ''no cluster credentials available (no in-cluster config, no kubeconfig)''
           | Some cs \<Rightarrow> do {
               let (ns, job) = BuildJobSpec p (handler_image h);
               created \<leftarrow> createOpJob cs ns job;
               case created of
                 Inl err \<Rightarrow> report p AgentOpStatusFailed ''create job''
               | Inr j \<Rightarrow> do {
                   (status, message) \<leftarrow> agent_watchJob cs p ns (om_Name (job_Meta j)) ticks (\<lambda>_. 0);
                   report p status message
                 }
             })"

definition execute :: "'c AgentHandler \<Rightarrow> string option \<Rightarrow> (string \<Rightarrow> 'c AgentClient option) \<Rightarrow> nat \<Rightarrow> AgentOpDispatchPayload \<Rightarrow> ('c, bool) oio" where
  "execute h nsFile clientFor ticks p = do {
     report p AgentOpStatusRunning '''';
     if ao_OpType p = AgentOpTypeUpgrade then executeUpgrade h nsFile p
     else if ao_OpType p \<noteq> AgentOpTypeExec then do { report p AgentOpStatusFailed ''runner cannot execute op type''; ret True }
     else do { executeExec h clientFor ticks p; ret True }
   }"

text \<open>\<open>Handle\<close> answers the decoding error and otherwise starts the execution on a goroutine of its own.\<close>

definition Agent_Handle :: "AgentOpDispatchPayload result \<Rightarrow> go_error option \<times> AgentOpDispatchPayload option" where
  "Agent_Handle payload =
     (case payload of
        Inl err \<Rightarrow> (Some (Err ''agentops: decode dispatch payload''), None)
      | Inr p \<Rightarrow> (None, Some p))"

section \<open>What is shipped of a pod's log\<close>

text \<open>The bytes shipped for a pod: the chunks that follow the reads of its log; \<open>cur\<close> is whether the last event is one.\<close>

fun shippedFrom :: "string \<Rightarrow> bool \<Rightarrow> op_event list \<Rightarrow> string" where
  "shippedFrom pod cur [] = ''''"
| "shippedFrom pod cur (e # es) =
     (case e of
        OpReadLog ns q a \<Rightarrow> shippedFrom pod (q = pod) es
      | OpLog i st c \<Rightarrow> (if cur then c else '''') @ shippedFrom pod False es
      | _ \<Rightarrow> shippedFrom pod False es)"

definition shipped :: "string \<Rightarrow> op_event list \<Rightarrow> string" where
  "shipped pod es = shippedFrom pod False es"

text \<open>A transcript that starts with something other than a chunk can be read on its own.\<close>

definition closed :: "op_event list \<Rightarrow> bool" where
  "closed es \<longleftrightarrow> (\<forall>i st c rest. es \<noteq> OpLog i st c # rest)"

lemma closed_simps [simp]: "closed []" "closed (e # es) \<longleftrightarrow> (\<forall>i st c. e \<noteq> OpLog i st c)"
  by (auto simp: closed_def)

lemma closed_append [simp]: "closed es \<Longrightarrow> closed es' \<Longrightarrow> closed (es @ es')"
  by (cases es) auto

lemma shippedFrom_closed: "closed es \<Longrightarrow> shippedFrom pod cur es = shipped pod es"
  by (cases es; cases "hd es") (auto simp: shipped_def)

lemma shippedFrom_append: "closed es' \<Longrightarrow> shippedFrom pod cur (es @ es') = shippedFrom pod cur es @ shipped pod es'"
proof (induction es arbitrary: cur)
  case Nil
  then show ?case by (simp add: shippedFrom_closed)
next
  case (Cons e es)
  then show ?case by (cases e) simp_all
qed

lemma shipped_append: "closed es' \<Longrightarrow> shipped pod (es @ es') = shipped pod es @ shipped pod es'"
  unfolding shipped_def [of _ "es @ es'"] shipped_def [of _ es] by (rule shippedFrom_append)

lemma shipped_Nil [simp]: "shipped pod [] = ''''"
  by (simp add: shipped_def)

lemma shipped_Cons: "closed es \<Longrightarrow> \<forall>ns q a. e \<noteq> OpReadLog ns q a \<Longrightarrow> shipped pod (e # es) = shipped pod es"
  by (cases e) (simp_all add: shipped_def)

lemma shipped_read:
  "closed es \<Longrightarrow> shipped pod (OpReadLog ns q a # es) = shipped pod es"
  "closed es \<Longrightarrow> shipped pod (OpReadLog ns q a # OpLog i st c # es) = (if q = pod then c else '''') @ shipped pod es"
  by (simp_all add: shipped_def [of _ "_ # _"] shippedFrom_closed)

text \<open>A log grows: every read of the pod answers a prefix of \<open>full\<close>.\<close>

definition grows :: "string \<Rightarrow> string \<Rightarrow> op_event list \<Rightarrow> bool" where
  "grows pod full es \<longleftrightarrow> (\<forall>ns b. OpReadLog ns pod (Inr b) \<in> set es \<longrightarrow> prefix b full)"

lemma grows_simps [simp]:
  "grows pod full []"
  "grows pod full (es @ es') \<longleftrightarrow> grows pod full es \<and> grows pod full es'"
  "grows pod full (e # es) \<longleftrightarrow> (\<forall>ns b. e = OpReadLog ns pod (Inr b) \<longrightarrow> prefix b full) \<and> grows pod full es"
  by (auto simp: grows_def)

text \<open>From the offset \<open>a\<close> to the offset \<open>b\<close>, the bytes between them are shipped, and no read went further.\<close>

definition ships :: "string \<Rightarrow> nat \<Rightarrow> nat \<Rightarrow> op_event list \<Rightarrow> bool" where
  "ships pod a b es \<longleftrightarrow> (\<forall>full. grows pod full es \<longrightarrow> a \<le> length full \<longrightarrow>
     a \<le> b \<and> b \<le> length full \<and> shipped pod es = drop a (take b full) \<and>
     (\<forall>ns buf. OpReadLog ns pod (Inr buf) \<in> set es \<longrightarrow> length buf \<le> b))"

lemma drop_take_append: "a \<le> b \<Longrightarrow> b \<le> c \<Longrightarrow> c \<le> length xs \<Longrightarrow> drop a (take b xs) @ drop b (take c xs) = drop a (take c xs)"
  by (rule nth_equalityI) (auto simp: nth_append add.commute)

lemma ships_Nil [simp]: "ships pod a a []"
  by (simp add: ships_def)

lemma ships_append: "ships pod a b es \<Longrightarrow> ships pod b c es' \<Longrightarrow> closed es' \<Longrightarrow> ships pod a c (es @ es')"
  unfolding ships_def by (auto simp: shipped_append drop_take_append) (meson le_trans)+

lemma ships_Cons: "closed es \<Longrightarrow> \<forall>ns q a. e \<noteq> OpReadLog ns q a \<Longrightarrow> ships pod a b (e # es) \<longleftrightarrow> ships pod a b es"
  by (auto simp: ships_def shipped_Cons)

lemma ships_read:
  "ships pod a a [OpReadLog ns q (Inl err)]"
  "\<not> length buf > a \<or> q \<noteq> pod \<Longrightarrow> ships pod a a [OpReadLog ns q (Inr buf)]"
  "length buf > a \<Longrightarrow> ships pod a (length buf) [OpReadLog ns pod (Inr buf), OpLog i st (drop a buf)]"
  "q \<noteq> pod \<Longrightarrow> ships pod a a [OpReadLog ns q (Inr buf), OpLog i st c]"
  by (auto simp: ships_def shipped_def dest: prefix_length_le) (auto simp: prefix_def)

lemma drainPods_emits:
  "emits (drainPods cs p ns names offsets) (\<lambda>off es. closed es \<and> (\<forall>pod. ships pod (offsets pod) (off pod) es) \<and>
     (\<forall>i st m. OpStatus i st m \<notin> set es) \<and> (\<forall>ns n j. OpGetJob ns n j \<notin> set es))"
proof (induction names arbitrary: offsets)
  case Nil
  show ?case by (simp only: drainPods.simps, intro emitsI wp_intro) simp
next
  case (Cons n names)
  note IH = wp_emits [OF Cons.IH]
  show ?case
    apply (simp only: drainPods.simps sendChunk_def)
    apply (intro emitsI wp_intro IH)
    subgoal for es x err off new using ships_append [OF ships_read(1), of _ _ _ new ns n err] by auto
    subgoal by simp
    subgoal for es x buf off new
      apply (intro exI [of _ "[OpReadLog ns n (Inr buf), OpLog (ao_OpID p) AgentOpStreamStdout (drop (offsets n) buf)] @ new"] conjI allI)
           apply (simp_all)
      subgoal for pod
        using ships_append [OF ships_read(3) [of "offsets n" buf n ns "ao_OpID p" AgentOpStreamStdout], of "off n" new]
          ships_append [OF ships_read(4) [of n pod "offsets pod" ns buf "ao_OpID p" AgentOpStreamStdout "drop (offsets n) buf"], of "off pod" new]
        apply (elim conjE)
        apply (drule spec [of _ pod])
        by (cases "pod = n") auto
      done
    subgoal for es x buf off new
      apply (intro exI [of _ "[OpReadLog ns n (Inr buf)] @ new"] conjI allI)
           apply simp_all
      subgoal for pod using ships_append [OF ships_read(2) [of "offsets pod" buf n pod ns], of "off pod" new] by auto
      done
    done
qed

lemma drainLogs_emits:
  "emits (drainLogs cs p ns name offsets) (\<lambda>off es. closed es \<and> (\<forall>pod. ships pod (offsets pod) (off pod) es) \<and>
     (\<forall>i st m. OpStatus i st m \<notin> set es) \<and> (\<forall>ns n j. OpGetJob ns n j \<notin> set es))"
  unfolding drainLogs_def
  by (intro emitsI wp_intro wp_emits [OF drainPods_emits]) (auto simp: ships_Cons)

text \<open>An event that is neither a read nor a chunk ships nothing.\<close>

definition quiet :: "op_event \<Rightarrow> bool" where
  "quiet e \<longleftrightarrow> (\<forall>i st c. e \<noteq> OpLog i st c) \<and> (\<forall>ns q a. e \<noteq> OpReadLog ns q a)"

lemma quiet_simps [simp]:
  "quiet (OpStatus i st m)" "quiet (OpCreateJob ns j a1)" "quiet (OpGetJob ns n a2)" "quiet (OpListJobs ns l a3)"
  "quiet (OpCreateNs ns a4)" "quiet (OpListPods ns n a5)"
  by (simp_all add: quiet_def)

lemma ships_quiet: "list_all quiet es \<Longrightarrow> ships pod a a es"
proof (induction es)
  case (Cons e es)
  have "closed es" using Cons.prems by (cases es) (auto simp: quiet_def)
  with Cons show ?case by (auto simp: ships_Cons quiet_def)
qed simp

text \<open>The watch of a Job: its verdict and what it shipped.\<close>

definition job_seen_succeeded :: "op_event list \<Rightarrow> bool" where
  "job_seen_succeeded es \<longleftrightarrow> (\<exists>ns n j. OpGetJob ns n (Inr j) \<in> set es \<and> job_Succeeded j > 0)"

lemma job_seen_simps [simp]:
  "\<not> job_seen_succeeded []"
  "job_seen_succeeded (es @ es') \<longleftrightarrow> job_seen_succeeded es \<or> job_seen_succeeded es'"
  "job_seen_succeeded (OpGetJob ns n a # es) \<longleftrightarrow> (\<exists>j. a = Inr j \<and> job_Succeeded j > 0) \<or> job_seen_succeeded es"
  "job_seen_succeeded (OpStatus i st m # es) \<longleftrightarrow> job_seen_succeeded es"
  "job_seen_succeeded (OpCreateJob ns jb a2 # es) \<longleftrightarrow> job_seen_succeeded es"
  "job_seen_succeeded (OpCreateNs ns a3 # es) \<longleftrightarrow> job_seen_succeeded es"
  by (auto simp: job_seen_succeeded_def)

definition watched :: "(string \<Rightarrow> nat) \<Rightarrow> string \<Rightarrow> op_event list \<Rightarrow> bool" where
  "watched offsets status es \<longleftrightarrow> closed es \<and> (\<forall>pod. \<exists>b. ships pod (offsets pod) b es) \<and> (\<forall>i st m. OpStatus i st m \<notin> set es) \<and>
     (status = AgentOpStatusSucceeded \<and> job_seen_succeeded es \<or> status = AgentOpStatusFailed \<and> \<not> job_seen_succeeded es)"

lemma watched_step:
  assumes "closed es" "\<forall>pod. ships pod (offsets pod) (off pod) es" "\<forall>i st m. OpStatus i st m \<notin> set es" "\<forall>ns n j. OpGetJob ns n j \<notin> set es"
  shows "job_Succeeded job > 0 \<Longrightarrow> watched offsets AgentOpStatusSucceeded (OpGetJob ns name (Inr job) # es)"
    and "\<not> job_Succeeded job > 0 \<Longrightarrow> watched offsets AgentOpStatusFailed (OpGetJob ns name (Inr job) # es)"
    and "\<not> job_Succeeded job > 0 \<Longrightarrow> watched off status es' \<Longrightarrow> watched offsets status (OpGetJob ns name (Inr job) # es @ es')"
proof -
  have j: "\<not> job_seen_succeeded es" using assms(4) by (auto simp: job_seen_succeeded_def)
  show "watched offsets AgentOpStatusSucceeded (OpGetJob ns name (Inr job) # es)" if "job_Succeeded job > 0"
    using assms j that by (auto simp: watched_def ships_Cons)
  show "watched offsets AgentOpStatusFailed (OpGetJob ns name (Inr job) # es)" if "\<not> job_Succeeded job > 0"
    using assms j that by (auto simp: watched_def ships_Cons)
  assume n: "\<not> job_Succeeded job > 0" and w: "watched off status es'"
  have "\<exists>b. ships pod (offsets pod) b (es @ es')" for pod
    using assms(2) w ships_append unfolding watched_def by metis
  then show "watched offsets status (OpGetJob ns name (Inr job) # es @ es')"
    using assms j n w by (auto simp: watched_def ships_Cons)
qed

lemma agent_watchJob_emits:
  "emits (agent_watchJob cs p ns name ticks offsets) (\<lambda>res es. watched offsets (fst res) es)"
proof (induction ticks arbitrary: offsets)
  case 0
  show ?case by (simp only: agent_watchJob.simps, intro emitsI wp_intro) (auto simp: watched_def intro: ships_Nil)
next
  case (Suc ticks)
  have lost: "watched offsets AgentOpStatusFailed [OpGetJob ns name (Inl err)]" for err
    using ships_quiet [of "[OpGetJob ns name (Inl err)]"] by (auto simp: watched_def)
  show ?case
    apply (simp only: agent_watchJob.simps)
    apply (intro emitsI wp_intro wp_emits [OF drainLogs_emits] wp_emits [OF Suc.IH])
    subgoal using lost by simp
    subgoal using watched_step(1) by auto
    subgoal for es x job off new res new2 using watched_step(3) [of new offsets off job "fst res" new2] by auto
    subgoal using watched_step(2) by auto
    done
qed

lemma createOpJob_emits:
  "emits (createOpJob cs ns job) (\<lambda>res es. es = [OpCreateJob ns job res] \<or>
     (\<exists>a. es = [OpCreateJob ns job (Inl NotFound), OpCreateNs ns a, OpCreateJob ns job res]))"
  unfolding createOpJob_def by (intro emitsI wp_intro) auto

text \<open>An exec op: the requests, then the one verdict.\<close>

definition settled :: "AgentOpDispatchPayload \<Rightarrow> op_event list \<Rightarrow> bool" where
  "settled p es \<longleftrightarrow> (\<exists>mid status msg. es = mid @ [OpStatus (ao_OpID p) status msg] \<and> closed mid \<and>
     (\<forall>pod. \<exists>b. ships pod 0 b mid) \<and> (\<forall>i st m. OpStatus i st m \<notin> set mid) \<and>
     (status = AgentOpStatusSucceeded \<and> job_seen_succeeded mid \<or> status = AgentOpStatusFailed \<and> \<not> job_seen_succeeded mid))"

lemma settledI:
  assumes "watched (\<lambda>_. 0) status w" "es = [OpCreateJob ns job a] \<or> es = [OpCreateJob ns job (Inl NotFound), OpCreateNs ns x, OpCreateJob ns job a]"
  shows "settled p (es @ w @ [OpStatus (ao_OpID p) status msg])"
proof -
  have q: "list_all quiet es" using assms(2) by auto
  have "\<exists>b. ships pod 0 b (es @ w)" for pod
    using assms(1) ships_append [OF ships_quiet [OF q], of pod 0 _ w] unfolding watched_def by metis
  moreover have "closed (es @ w)" using assms by (auto simp: watched_def)
  ultimately show ?thesis
    unfolding settled_def using assms by (intro exI [of _ "es @ w"] exI [of _ status] exI [of _ msg]) (auto simp: watched_def)
qed

lemma settled_failed:
  assumes "list_all quiet es" "\<forall>i st m. OpStatus i st m \<notin> set es" "\<not> job_seen_succeeded es"
  shows "settled p (es @ [OpStatus (ao_OpID p) AgentOpStatusFailed msg])"
proof -
  have "closed es" using assms(1) by (cases es) (auto simp: quiet_def)
  moreover have "\<exists>b. ships pod 0 b es" for pod using ships_quiet [OF assms(1)] by blast
  ultimately show ?thesis using assms(2,3) unfolding settled_def by blast
qed

lemma executeExec_emits: "emits (executeExec h clientFor ticks p) (\<lambda>res es. settled p es)"
proof -
  have fail: "settled p [OpStatus (ao_OpID p) AgentOpStatusFailed msg]" for msg
    using settled_failed [of "[]" p msg] by simp
  show ?thesis
    unfolding executeExec_def report_def Let_def
    apply (intro emitsI wp_intro wp_emits [OF createOpJob_emits] wp_emits [OF agent_watchJob_emits])
    subgoal using fail by simp
    subgoal using fail by simp
    subgoal for es cs ns job res new err using settled_failed [of new p] by auto
    subgoal for es cs ns job res new j w new2 st msg
      using settledI [of st new2 new ns job res _ p msg] by auto
    done
qed

section \<open>Upgrades\<close>

inductive upgrade_path :: "'c AgentHandler \<Rightarrow> string option \<Rightarrow> AgentOpDispatchPayload \<Rightarrow> bool \<Rightarrow> op_event list \<Rightarrow> bool" for h nsFile p where
  up_refused: "upgrade_path h nsFile p True [OpStatus (ao_OpID p) AgentOpStatusFailed msg]"
| up_running: "upgrade_path h nsFile p True [OpListJobs ns l (Inr (j # js)), OpLog (ao_OpID p) AgentOpStreamStdout chunk]"
| up_panic: "length (ao_OpID p) < 8 \<Longrightarrow> probe = Inr [] \<or> probe = Inl err \<Longrightarrow> upgrade_path h nsFile p False [OpListJobs ns l probe]"
| up_failed: "\<not> oh_SelfUpgradeDisabled h \<Longrightarrow> ao_Detail p \<noteq> '''' \<Longrightarrow> probe = Inr [] \<or> probe = Inl err \<Longrightarrow> ns = selfNamespace h nsFile \<Longrightarrow>
     BuildUpgradeJobSpec p (handler_upgradeOpts h ns) = Some (ns', job) \<Longrightarrow>
     upgrade_path h nsFile p True [OpListJobs ns (ao_OpID p) probe, OpCreateJob ns job (Inl err'), OpStatus (ao_OpID p) AgentOpStatusFailed msg]"
| up_started: "\<not> oh_SelfUpgradeDisabled h \<Longrightarrow> ao_Detail p \<noteq> '''' \<Longrightarrow> probe = Inr [] \<or> probe = Inl err \<Longrightarrow> ns = selfNamespace h nsFile \<Longrightarrow>
     BuildUpgradeJobSpec p (handler_upgradeOpts h ns) = Some (ns', job) \<Longrightarrow>
     upgrade_path h nsFile p True [OpListJobs ns (ao_OpID p) probe, OpCreateJob ns job (Inr j)]"

lemma executeUpgrade_emits: "emits (executeUpgrade h nsFile p) (upgrade_path h nsFile p)"
proof -
  have panic: "BuildUpgradeJobSpec p u = None \<Longrightarrow> length (ao_OpID p) < 8" for u
    by (simp add: BuildUpgradeJobSpec_def split: if_splits)
  show ?thesis
    unfolding executeUpgrade_def report_def sendChunk_def Let_def
    apply (intro emitsI wp_intro)
    apply (simp_all add: up_refused up_running)
    using panic by (auto intro: up_panic up_failed up_started)
qed

lemma execute_emits:
  "emits (execute h nsFile clientFor ticks p) (\<lambda>res es. \<exists>es'. es = OpStatus (ao_OpID p) AgentOpStatusRunning '''' # es' \<and>
     (if ao_OpType p = AgentOpTypeUpgrade then upgrade_path h nsFile p res es'
      else if ao_OpType p \<noteq> AgentOpTypeExec then res \<and> (\<exists>msg. es' = [OpStatus (ao_OpID p) AgentOpStatusFailed msg])
      else res \<and> settled p es'))"
  unfolding execute_def report_def
  by (intro emitsI wp_intro wp_emits [OF executeUpgrade_emits] wp_emits [OF executeExec_emits]) auto

end
