(* ===== verification/Runner_Main.thy ===== *)
theory Runner_Main
  imports Connector Agentops Manager_Setup
begin

text \<open>
  \<open>src/cmd/runner/main.go\<close> and \<open>src/pkg/metrics/metrics.go\<close>: the configuration of the process from its
  environment, its feature flags, the manager it starts with the handlers and reconcilers, and the loop around it. The environment is a function (an unset
  variable reads as the empty string), files are the answers of reading them, and a fatal exit is \<open>None\<close>.
\<close>

section \<open>The environment\<close>

type_synonym env = "string \<Rightarrow> string"

definition mustEnv :: "env \<Rightarrow> string \<Rightarrow> string option" where
  "mustEnv env key = (if env key = '''' then None else Some (env key))"

definition envOr :: "env \<Rightarrow> string \<Rightarrow> string \<Rightarrow> string" where
  "envOr env key fallback = (if env key \<noteq> '''' then env key else fallback)"

text \<open>\<open>readFile\<close> is \<open>os.ReadFile\<close>, \<open>parseDuration\<close> is \<open>time.ParseDuration\<close>.\<close>

definition readHubCABundle :: "(string \<Rightarrow> string result) \<Rightarrow> string \<Rightarrow> string" where
  "readHubCABundle readFile caPath =
     (if caPath = '''' then '''' else case readFile caPath of Inl err \<Rightarrow> '''' | Inr b \<Rightarrow> b)"

definition envDurationOr :: "(string \<Rightarrow> duration result) \<Rightarrow> env \<Rightarrow> string \<Rightarrow> duration \<Rightarrow> duration" where
  "envDurationOr parseDuration env key fallback =
     (if env key \<noteq> '''' then (case parseDuration (env key) of Inr d \<Rightarrow> d | Inl err \<Rightarrow> fallback) else fallback)"

text \<open>The flags of \<open>metrics.go\<close>: on unless they are switched off.\<close>

definition envOn :: "env \<Rightarrow> string \<Rightarrow> bool" where
  "envOn env key = (let v = env key in if v = '''' then True else v \<noteq> ''false'' \<and> v \<noteq> ''0'' \<and> v \<noteq> ''off'')"

definition LogStreamingEnabled :: "env \<Rightarrow> bool" where "LogStreamingEnabled env = envOn env ''SDP_LOG_STREAMING''"
definition CanaryIngressEnabled :: "env \<Rightarrow> bool" where "CanaryIngressEnabled env = envOn env ''SDP_CANARY_INGRESS''"
definition AlertingEnabled :: "env \<Rightarrow> bool" where "AlertingEnabled env = envOn env ''SDP_ALERTING''"

text \<open>The collectors: counters by label, the gauge, and whether they are registered; recording is a no-op before.\<close>

record Metrics =
  mt_registered :: bool
  mt_taskRunPhase :: "string \<times> string \<Rightarrow> nat"
  mt_rolloutWeight :: int
  mt_reconnects :: nat
  mt_failures :: "string \<Rightarrow> nat"
  mt_logged :: "(string \<times> string \<times> string) list"

definition Register :: "Metrics \<Rightarrow> Metrics" where
  "Register m = m\<lparr>mt_registered := True\<rparr>"

definition RecordTaskRunPhase :: "string \<Rightarrow> string \<Rightarrow> Metrics \<Rightarrow> Metrics" where
  "RecordTaskRunPhase taskType phase m =
     (if mt_registered m
      then m\<lparr>mt_taskRunPhase := (mt_taskRunPhase m)((taskType, phase) := mt_taskRunPhase m (taskType, phase) + 1)\<rparr> else m)"

definition SetRolloutWeight :: "int \<Rightarrow> Metrics \<Rightarrow> Metrics" where
  "SetRolloutWeight weight m = (if mt_registered m then m\<lparr>mt_rolloutWeight := weight\<rparr> else m)"

definition IncReconnect :: "Metrics \<Rightarrow> Metrics" where
  "IncReconnect m = (if mt_registered m then m\<lparr>mt_reconnects := mt_reconnects m + 1\<rparr> else m)"

definition Alert :: "env \<Rightarrow> string \<Rightarrow> string \<Rightarrow> string \<Rightarrow> Metrics \<Rightarrow> Metrics" where
  "Alert env kind name detail m =
     (let m = (if mt_registered m then m\<lparr>mt_failures := (mt_failures m)(kind := mt_failures m kind + 1)\<rparr> else m) in
      if AlertingEnabled env then m\<lparr>mt_logged := mt_logged m @ [(kind, name, detail)]\<rparr> else m)"

section \<open>The wiring\<close>

definition credentialFileOf :: "env \<Rightarrow> string" where
  "credentialFileOf env = envOr env ''SDP_RUNNER_CREDENTIAL_FILE'' ''/etc/sdp-runner/credential''"

text \<open>\<open>exists\<close> is the success of \<open>os.Stat\<close>. The process goes on only with some credential.\<close>

definition credentialGate :: "env \<Rightarrow> (string \<Rightarrow> bool) \<Rightarrow> bool" where
  "credentialGate env exists \<longleftrightarrow>
     \<not> (env ''TARGET_AUTH_TOKEN'' = '''' \<and> env ''SDP_ENROLL_TOKEN'' = '''' \<and> \<not> exists (credentialFileOf env))"

definition newConnector :: "env \<Rightarrow> (string \<Rightarrow> bool) \<Rightarrow> string \<Rightarrow> string \<Rightarrow> string \<Rightarrow> string \<Rightarrow> ('p, 'h) Client option" where
  "newConnector env exists version goos goarch goversion = do {
     targetName \<leftarrow> mustEnv env ''TARGET_NAME'';
     _ \<leftarrow> (if credentialGate env exists then Some () else None);
     hubURL \<leftarrow> mustEnv env ''HUB_GATEWAY_URL'';
     let c = New hubURL targetName (env ''TARGET_AUTH_TOKEN'');
     let c = WithEnrollBootstrap (env ''SDP_ENROLL_TOKEN'') (credentialFileOf env) c;
     let c = (if env ''TARGET_VENDOR'' \<noteq> '''' \<and> env ''TARGET_REGION'' \<noteq> ''''
              then WithEnrollInfo (env ''TARGET_VENDOR'') (env ''TARGET_REGION'') c else c);
     Some (WithAgentInfo goos goarch goversion
       \<lparr>ai_AgentVersion = version, ai_OS = '''', ai_Arch = '''', ai_Capabilities = [''exec'', ''rollout'', ''logstream''],
        ai_TargetName = targetName, ai_GoVersion = ''''\<rparr> c)
   }"

definition agentOpHandler :: "env \<Rightarrow> (string \<Rightarrow> duration result) \<Rightarrow> 'c AgentClient \<Rightarrow> 'c AgentHandler" where
  "agentOpHandler env parseDuration clientset = \<lparr>
     oh_Clientset = Some clientset,
     oh_Image = envOr env ''SDP_AGENT_EXEC_IMAGE'' DefaultImage,
     oh_Timeout = envDurationOr parseDuration env ''SDP_AGENT_EXEC_TIMEOUT'' DefaultTimeout,
     oh_SelfNamespace = env ''SDP_RUNNER_NAMESPACE'',
     oh_SelfDeployment = envOr env ''SDP_RUNNER_DEPLOYMENT'' DefaultSelfDeployment,
     oh_SelfContainer = envOr env ''SDP_RUNNER_CONTAINER'' DefaultSelfContainer,
     oh_SelfSA = envOr env ''SDP_UPGRADE_SA'' DefaultSelfSA,
     oh_SelfRunnerImage = envOr env ''SDP_RUNNER_IMAGE'' DefaultRunnerImageName,
     oh_SelfKubectlImage = envOr env ''SDP_UPGRADE_KUBECTL_IMAGE'' agent_DefaultKubectlImage,
     oh_SelfUpgradeDisabled = (env ''SDP_UPGRADE_DISABLED'' = ''true'')\<rparr>"

definition mainJobBuilder :: "env \<Rightarrow> (string \<Rightarrow> string result) \<Rightarrow> JobBuilder" where
  "mainJobBuilder env readFile = \<lparr>
     jb_GitImage = envOr env ''SDP_JOB_IMAGE_GIT'' DefaultGitImage,
     jb_ArtifactImage = envOr env ''SDP_JOB_IMAGE_ARTIFACT'' DefaultArtifactImage,
     jb_HelmImage = envOr env ''SDP_JOB_IMAGE_HELM'' DefaultHelmImage,
     jb_KubectlImage = envOr env ''SDP_JOB_IMAGE_KUBECTL'' DefaultKubectlImage,
     jb_HubBaseURL = envOr env ''SDP_HUB_BASE_URL'' ''https://hub.sdp-workflow.svc:8080'',
     jb_HubAPIToken = env ''SDP_HUB_API_TOKEN'',
     jb_HubCABundle = readHubCABundle readFile (env ''SDP_HUB_CA_FILE'')\<rparr>"

text \<open>The handlers the process registers. Those of \<open>startManager\<close> are bound to the client of the manager of one attempt,
  its number; the registration of an attempt comes before its manager starts, and the connection is dialled meanwhile.\<close>

datatype HubHandler =
    AgentOps | ApplyRun nat | ApproveTask nat | ControlRollout nat | RerunTask nat | CancelRun nat

definition wireAgentOps :: "('p, HubHandler) Client \<Rightarrow> ('p, HubHandler) Client" where
  "wireAgentOps c = OnMessage MessageAgentOp AgentOps c"

definition wireManager :: "nat \<Rightarrow> 'p Message list \<Rightarrow> ('p, HubHandler) Client \<Rightarrow> ('p, HubHandler) Client" where
  "wireManager attempt resync c =
     (let c = OnMessage MessageApplyPipelineRun (ApplyRun attempt) c;
          c = OnMessage MessageApproveTask (ApproveTask attempt) c;
          c = OnMessage MessageRolloutControl (ControlRollout attempt) c;
          c = OnMessage MessageRerunTask (RerunTask attempt) c;
          c = OnMessage MessageCancelPipelineRun (CancelRun attempt) c in
      OnConnect resync c)"

text \<open>The reconcilers. \<open>PrometheusEndpoint\<close> is a variable of the package, empty from the start; nothing in \<open>main\<close> sets it.\<close>

definition mainPipelineRunReconciler :: "string \<Rightarrow> PipelineRunReconciler" where
  "mainPipelineRunReconciler targetName = \<lparr>prr_Conn = True, prr_TargetName = targetName\<rparr>"

definition mainTaskRunReconciler :: "env \<Rightarrow> JobBuilder \<Rightarrow> string \<Rightarrow> TaskRunReconciler" where
  "mainTaskRunReconciler env jobBuilder targetName =
     \<lparr>trr_JobBuilder = jobBuilder, trr_Conn = True, trr_Clientset = True, trr_LogStreamingEnabled = LogStreamingEnabled env,
      trr_TargetName = targetName, trr_streaming = []\<rparr>"

definition mainRolloutEnv :: "env \<Rightarrow> http_get \<Rightarrow> 'f parse_float \<Rightarrow> 'f float_le \<Rightarrow> 'f RolloutEnv" where
  "mainRolloutEnv env httpGet parseFloat floatLe =
     \<lparr>re_HttpGet = httpGet, re_ParseFloat = parseFloat, re_FloatLe = floatLe, re_PrometheusEndpoint = '''',
      re_SvcTargetPort = env ''SDP_ROLLOUT_SVC_TARGET_PORT'', re_CanaryIngressEnabled = CanaryIngressEnabled env\<rparr>"

text \<open>The options of the manager, and the calls of one attempt to start it, each with its error if it has one. \<open>mc_Start\<close>
  returns when the manager has stopped, without an error only when the context was cancelled.\<close>

record ManagerOptions =
  mo_LeaderElection :: bool
  mo_LeaderElectionID :: string

record ManagerCalls =
  mc_NewManager :: "ManagerOptions \<Rightarrow> go_error option"
  mc_Complete :: "Setup \<Rightarrow> go_error option"
  mc_Start :: "go_error option"

definition managerOptions :: "env \<Rightarrow> ManagerOptions" where
  "managerOptions env = \<lparr>mo_LeaderElection = (env ''LEADER_ELECTION'' = ''true''), mo_LeaderElectionID = ''sdp-runner-leader''\<rparr>"

text \<open>One attempt: its error, and the connector after it.\<close>

definition startManager ::
  "env \<Rightarrow> ManagerCalls \<Rightarrow> nat \<Rightarrow> 'p Message list \<Rightarrow> ('p, HubHandler) Client \<Rightarrow> go_error option \<times> ('p, HubHandler) Client" where
  "startManager env mc attempt resync conn =
     (case mc_NewManager mc (managerOptions env) of
        Some err \<Rightarrow> (Some err, conn)
      | None \<Rightarrow>
          (let conn = wireManager attempt resync conn in
           case mc_Complete mc PipelineRun_SetupWithManager of
             Some err \<Rightarrow> (Some err, conn)
           | None \<Rightarrow>
               (case mc_Complete mc TaskRun_SetupWithManager of
                  Some err \<Rightarrow> (Some err, conn)
                | None \<Rightarrow>
                    (case mc_Complete mc Rollout_SetupWithManager of
                       Some err \<Rightarrow> (Some err, conn)
                     | None \<Rightarrow> (mc_Start mc, conn)))))"

text \<open>The connector after the attempts \<open>1, \<dots>, n\<close>: \<open>mc i\<close> are the calls of the \<open>i\<close>-th, \<open>resync i\<close> the frames of its callback.\<close>

fun wiredUpTo ::
  "env \<Rightarrow> (nat \<Rightarrow> ManagerCalls) \<Rightarrow> nat \<Rightarrow> (nat \<Rightarrow> 'p Message list) \<Rightarrow> ('p, HubHandler) Client \<Rightarrow> ('p, HubHandler) Client" where
  "wiredUpTo env mc 0 resync c = wireAgentOps c"
| "wiredUpTo env mc (Suc n) resync c = snd (startManager env (mc (Suc n)) (Suc n) (resync (Suc n)) (wiredUpTo env mc n resync c))"

section \<open>The start loop\<close>

definition maxManagerStartAttempts :: nat where "maxManagerStartAttempts = 10"

text \<open>How the process ends: a clean return, or a fatal exit after the given attempt.\<close>

datatype exit = CleanExit | FatalExit nat

text \<open>\<open>start n\<close> is the outcome of the \<open>n\<close>-th \<open>startManager\<close>: \<open>None\<close> for no error, else whether the
  context is done when it fails; \<open>interrupted n\<close> is whether the wait after it is cut short by the context. The
  result is the exit and the waits.\<close>

function startLoop :: "(nat \<Rightarrow> bool option) \<Rightarrow> (nat \<Rightarrow> bool) \<Rightarrow> nat \<Rightarrow> duration \<Rightarrow> exit \<times> duration list" where
  "startLoop start interrupted attempt backoff =
     (case start attempt of
        None \<Rightarrow> (CleanExit, [])
      | Some ctxDone \<Rightarrow>
          if ctxDone then (CleanExit, [])
          else if attempt \<ge> maxManagerStartAttempts then (FatalExit attempt, [])
          else if interrupted attempt then (CleanExit, [backoff])
          else (case startLoop start interrupted (attempt + 1) (if backoff < 30 * second then i64 (backoff * 2) else backoff) of
                  (x, waits) \<Rightarrow> (x, backoff # waits)))"
  by pat_completeness auto

termination
  by (relation "measure (\<lambda>(start, interrupted, attempt, backoff). maxManagerStartAttempts - attempt)") auto

declare startLoop.simps [simp del]

definition runManager :: "(nat \<Rightarrow> bool option) \<Rightarrow> (nat \<Rightarrow> bool) \<Rightarrow> exit \<times> duration list" where
  "runManager start interrupted = startLoop start interrupted 1 second"

section \<open>The process\<close>

text \<open>What the process asks of the libraries: whether the scheme, the cluster configuration and the clientset are there, whether a
  file exists, the calls of every attempt, whether the context is done when an attempt has failed, and whether the wait
  after it is cut short.\<close>

record ProcessCalls =
  pc_Scheme :: bool
  pc_Config :: bool
  pc_Stat :: "string \<Rightarrow> bool"
  pc_Clientset :: bool
  pc_Attempt :: "nat \<Rightarrow> ManagerCalls"
  pc_CtxDone :: "nat \<Rightarrow> bool"
  pc_Interrupted :: "nat \<Rightarrow> bool"

definition attemptOutcome ::
  "env \<Rightarrow> ProcessCalls \<Rightarrow> (nat \<Rightarrow> 'p Message list) \<Rightarrow> ('p, HubHandler) Client \<Rightarrow> nat \<Rightarrow> bool option" where
  "attemptOutcome env pc resync conn n =
     (case fst (startManager env (pc_Attempt pc n) n (resync n) (wiredUpTo env (pc_Attempt pc) (n - 1) resync conn)) of
        None \<Rightarrow> None
      | Some err \<Rightarrow> Some (pc_CtxDone pc n))"

text \<open>\<open>None\<close> is a fatal exit before the first attempt.\<close>

definition runner_main ::
  "env \<Rightarrow> ProcessCalls \<Rightarrow> (nat \<Rightarrow> 'p Message list) \<Rightarrow> string \<Rightarrow> string \<Rightarrow> string \<Rightarrow> string \<Rightarrow> (exit \<times> duration list) option" where
  "runner_main env pc resync version goos goarch goversion =
     (if \<not> pc_Scheme pc then None
      else if \<not> pc_Config pc then None
      else do {
        conn \<leftarrow> newConnector env (pc_Stat pc) version goos goarch goversion;
        if \<not> pc_Clientset pc then None
        else Some (runManager (attemptOutcome env pc resync conn) (pc_Interrupted pc))
      })"

text \<open>The program of \<open>cmd/constcheck_main.go\<close>: the line it prints.\<close>

definition constcheck_main :: string where
  "constcheck_main = ''EXEC: '' @ AgentOpTypeExec @ '' UPG: '' @ AgentOpTypeUpgrade @ [CHR 0x0A]"

section \<open>Lemmas\<close>

lemma startLoop_shape:
  "startLoop start interrupted attempt backoff = (x, waits) \<Longrightarrow> attempt \<le> maxManagerStartAttempts \<Longrightarrow>
   length waits \<le> maxManagerStartAttempts - attempt \<and>
   (\<forall>i<length waits. waits ! i = (nextBackoff ^^ i) backoff) \<and>
   (\<forall>n. x = FatalExit n \<longrightarrow> n = maxManagerStartAttempts \<and> (\<forall>i. attempt \<le> i \<and> i \<le> n \<longrightarrow> start i = Some False) \<and>
      length waits = maxManagerStartAttempts - attempt)"
proof (induction start interrupted attempt backoff arbitrary: x waits rule: startLoop.induct)
  case (1 start interrupted attempt backoff)
  show ?case
  proof (cases "start attempt = Some False \<and> attempt < maxManagerStartAttempts \<and> \<not> interrupted attempt")
    case True
    obtain x' waits' where rec: "startLoop start interrupted (attempt + 1) (nextBackoff backoff) = (x', waits')" by fastforce
    have w: "waits = backoff # waits'" "x = x'"
      using 1(2) rec True by (simp_all add: startLoop.simps [of start interrupted attempt] nextBackoff_def)
    have "length waits' \<le> maxManagerStartAttempts - (attempt + 1) \<and>
       (\<forall>i<length waits'. waits' ! i = (nextBackoff ^^ i) (nextBackoff backoff)) \<and>
       (\<forall>n. x' = FatalExit n \<longrightarrow> n = maxManagerStartAttempts \<and> (\<forall>i. attempt + 1 \<le> i \<and> i \<le> n \<longrightarrow> start i = Some False) \<and>
          length waits' = maxManagerStartAttempts - (attempt + 1))"
      using 1(1) [unfolded nextBackoff_def [symmetric], of False x' waits'] rec True by simp
    moreover have "start i = Some False" if "attempt \<le> i" "\<forall>j. attempt + 1 \<le> j \<and> j \<le> n \<longrightarrow> start j = Some False" "i \<le> n" for i n
      using that True by (cases "i = attempt") auto
    ultimately show ?thesis using True unfolding w
      by (auto simp: nth_Cons funpow_swap1 split: nat.splits)
  next
    case False
    then show ?thesis using 1(2,3)
      by (auto simp: startLoop.simps [of start interrupted attempt] le_antisym split: option.splits if_splits)
  qed
qed

lemma backoff_values:
  "(nextBackoff ^^ 1) second = 2 * second" "(nextBackoff ^^ 2) second = 4 * second" "(nextBackoff ^^ 3) second = 8 * second"
  "(nextBackoff ^^ 4) second = 16 * second" "(nextBackoff ^^ 5) second = 32 * second" "(nextBackoff ^^ 6) second = 32 * second"
  "(nextBackoff ^^ 7) second = 32 * second" "(nextBackoff ^^ 8) second = 32 * second"
  by (simp_all add: nextBackoff_def second_def i64_def eval_nat_numeral)

lemma sum_waits: "n \<le> 9 \<Longrightarrow> sum_list (map (\<lambda>i. (nextBackoff ^^ i) second) [0..<n]) \<le> 159 * second"
proof -
  assume n: "n \<le> 9"
  have pos: "0 \<le> (nextBackoff ^^ i) second" if "i \<le> 8" for i
  proof -
    have "i \<in> {0, 1, 2, 3, 4, 5, 6, 7, 8}" using that by auto
    then show ?thesis using backoff_values by (auto simp: second_def)
  qed
  have "sum_list (map (\<lambda>i. (nextBackoff ^^ i) second) [0..<n]) \<le> sum_list (map (\<lambda>i. (nextBackoff ^^ i) second) [0..<9])"
  proof -
    have "[0..<9] = [0..<n] @ [n..<9]" using n by (metis le0 upt_add_eq_append le_add_diff_inverse)
    moreover have "0 \<le> sum_list (map (\<lambda>i. (nextBackoff ^^ i) second) [n..<9])"
      using pos by (intro sum_list_nonneg) auto
    ultimately show ?thesis by simp
  qed
  also have "\<dots> = 159 * second"
    using backoff_values by (simp add: upt_rec eval_nat_numeral)
  finally show ?thesis .
qed

lemma startLoop_exit:
  "attempt \<le> maxManagerStartAttempts \<Longrightarrow>
   fst (startLoop start interrupted attempt backoff) =
     (if \<forall>i\<in>{attempt..maxManagerStartAttempts}. start i = Some False \<and> (i = maxManagerStartAttempts \<or> \<not> interrupted i)
      then FatalExit maxManagerStartAttempts else CleanExit)"
proof (induction start interrupted attempt backoff rule: startLoop.induct)
  case (1 start interrupted attempt backoff)
  have split: "(\<forall>i\<in>{attempt..maxManagerStartAttempts}. P i) \<longleftrightarrow> P attempt \<and> (\<forall>i\<in>{attempt + 1..maxManagerStartAttempts}. P i)" for P
    using 1(2) by (auto simp: le_eq_less_or_eq Suc_le_eq)
  show ?case
  proof (cases "start attempt = Some False \<and> attempt < maxManagerStartAttempts \<and> \<not> interrupted attempt")
    case True
    have step: "fst (startLoop start interrupted attempt backoff) = fst (startLoop start interrupted (attempt + 1) (nextBackoff backoff))"
      using True by (simp add: startLoop.simps [of start interrupted attempt] nextBackoff_def case_prod_beta)
    have here: "start attempt = Some False \<and> (attempt = maxManagerStartAttempts \<or> \<not> interrupted attempt)" using True by simp
    have le: "attempt + 1 \<le> maxManagerStartAttempts" using True by simp
    have IH: "fst (startLoop start interrupted (attempt + 1) (nextBackoff backoff)) =
       (if \<forall>i\<in>{attempt + 1..maxManagerStartAttempts}. start i = Some False \<and> (i = maxManagerStartAttempts \<or> \<not> interrupted i)
        then FatalExit maxManagerStartAttempts else CleanExit)"
      unfolding nextBackoff_def by (rule 1(1) [of False]) (use True le in simp_all)
    show ?thesis unfolding step IH split [of "\<lambda>i. start i = Some False \<and> (i = maxManagerStartAttempts \<or> \<not> interrupted i)"]
      using here by simp
  next
    case False
    consider "start attempt = None \<or> start attempt = Some True" | "start attempt = Some False" "attempt = maxManagerStartAttempts"
      | "start attempt = Some False" "attempt < maxManagerStartAttempts" "interrupted attempt"
      using False 1(2) by (metis (full_types) not_None_eq le_neq_implies_less)
    then show ?thesis unfolding split [of "\<lambda>i. start i = Some False \<and> (i = maxManagerStartAttempts \<or> \<not> interrupted i)"]
      by cases (auto simp: startLoop.simps [of start interrupted attempt] startLoop.simps [of start interrupted maxManagerStartAttempts])
  qed
qed

text \<open>The handler of a frame when the manager of attempt \<open>n\<close> was the last that was made; 0 for none.\<close>

fun routed :: "nat \<Rightarrow> MessageType \<Rightarrow> HubHandler option" where
  "routed n MessageAgentOp = Some AgentOps"
| "routed n MessageApplyPipelineRun = (if n = 0 then None else Some (ApplyRun n))"
| "routed n MessageApproveTask = (if n = 0 then None else Some (ApproveTask n))"
| "routed n MessageRolloutControl = (if n = 0 then None else Some (ControlRollout n))"
| "routed n MessageRerunTask = (if n = 0 then None else Some (RerunTask n))"
| "routed n MessageCancelPipelineRun = (if n = 0 then None else Some (CancelRun n))"
| "routed n _ = None"

fun lastManager :: "env \<Rightarrow> (nat \<Rightarrow> ManagerCalls) \<Rightarrow> nat \<Rightarrow> nat" where
  "lastManager env mc 0 = 0"
| "lastManager env mc (Suc n) = (if mc_NewManager (mc (Suc n)) (managerOptions env) = None then Suc n else lastManager env mc n)"

lemma startManager_conn:
  "snd (startManager env mc n resync c) = (if mc_NewManager mc (managerOptions env) = None then wireManager n resync c else c)"
  by (simp add: startManager_def Let_def split: option.split)

lemma wireManager_handlers:
  assumes "cc_handlers c = routed m"
  shows "cc_handlers (wireManager (Suc n) resync c) = routed (Suc n)"
proof
  fix t
  show "cc_handlers (wireManager (Suc n) resync c) t = routed (Suc n) t"
    using assms by (cases t) (simp_all add: wireManager_def OnMessage_def OnConnect_def Let_def)
qed

lemma wiredUpTo_handlers:
  assumes "cc_handlers c = Map.empty"
  shows "cc_handlers (wiredUpTo env mc n resync c) = routed (lastManager env mc n) \<and>
     cc_onConnect (wiredUpTo env mc n resync c) =
       (if lastManager env mc n = 0 then cc_onConnect c else Some (resync (lastManager env mc n)))"
proof (induction n)
  case 0
  have "[MessageAgentOp \<mapsto> AgentOps] t = routed 0 t" for t by (cases t) simp_all
  with assms show ?case by (auto simp: wireAgentOps_def OnMessage_def)
next
  case (Suc n)
  show ?case
  proof (cases "mc_NewManager (mc (Suc n)) (managerOptions env) = None")
    case True
    have "cc_onConnect (wireManager (Suc n) (resync (Suc n)) (wiredUpTo env mc n resync c)) = Some (resync (Suc n))"
      by (simp add: wireManager_def OnConnect_def OnMessage_def Let_def)
    with True Suc show ?thesis by (simp add: startManager_conn wireManager_handlers)
  next
    case False
    then obtain err where "mc_NewManager (mc (Suc n)) (managerOptions env) = Some err" by blast
    with Suc show ?thesis by (simp add: startManager_conn)
  qed
qed

text \<open>An attempt fails when one of its calls does.\<close>

definition attempt_fails :: "env \<Rightarrow> ManagerCalls \<Rightarrow> bool" where
  "attempt_fails env mc \<longleftrightarrow> mc_NewManager mc (managerOptions env) \<noteq> None \<or>
     (\<exists>su\<in>{PipelineRun_SetupWithManager, TaskRun_SetupWithManager, Rollout_SetupWithManager}. mc_Complete mc su \<noteq> None) \<or>
     mc_Start mc \<noteq> None"

lemma startManager_error: "fst (startManager env mc n resync c) = None \<longleftrightarrow> \<not> attempt_fails env mc"
  by (auto simp: startManager_def attempt_fails_def Let_def split: option.split)

lemma attemptOutcome_fails: "attemptOutcome env pc resync c n = Some False \<longleftrightarrow> attempt_fails env (pc_Attempt pc n) \<and> \<not> pc_CtxDone pc n"
  using startManager_error [of env "pc_Attempt pc n" n "resync n" "wiredUpTo env (pc_Attempt pc) (n - 1) resync c"]
  by (auto simp: attemptOutcome_def split: option.split)

end
