(* ===== verification/Hub_Props.thy ===== *)
theory Hub_Props
  imports Logstream Runner_Main
begin

text \<open>
  The properties of what runs between the process and the hub: log chunks, agent operations and the long connection,
  and their witnesses.
\<close>

section \<open>Log chunks\<close>

text \<open>C18: Chunking loses nothing and splits no line: the chunks of a stream are, one after the other, its scanned lines
  with their newline, whatever the size asked for; every chunk is not empty, ends with a newline and is at most the
  size (8 KiB by default) unless it is a single longer line. The error is that of the stream, or
  that of a line over the 16 MiB of the scanner.\<close>

theorem chunks_lossless:
  "let (chunks, err) = SplitChunks r maxSize; (lines, tooLong) = scanLines maxTokenSize (fst r);
       cap = (if maxSize \<le> 0 then 8192 else maxSize)
   in concat chunks = concat (map (\<lambda>l. l @ [CHR 0x0A]) lines) \<and>
      list_all (\<lambda>c. c \<noteq> [] \<and> last c = CHR 0x0A \<and> (cap < int (length c) \<longrightarrow> c \<in> (\<lambda>l. l @ [CHR 0x0A]) ` set lines)) chunks \<and>
      err = (if tooLong then Some ErrTooLong else snd r)"
proof -
  obtain chunks err where c: "SplitChunks r maxSize = (chunks, err)" by fastforce
  obtain lines tooLong where l: "scanLines maxTokenSize (fst r) = (lines, tooLong)" by fastforce
  note spec = SplitChunks_spec [OF c refl l]
  have cap: "(if maxSize \<le> 0 then chunkSize else maxSize) = (if maxSize \<le> 0 then 8192 else maxSize)"
    by (simp add: chunkSize_def)
  have ok: "chunk_ok cap lines ch \<Longrightarrow> ch \<noteq> [] \<and> last ch = CHR 0x0A \<and> (cap < int (length ch) \<longrightarrow> ch \<in> (\<lambda>l. l @ [CHR 0x0A]) ` set lines)" for ch cap
    by (auto simp: chunk_ok_def newline_def)
  have "\<forall>ch\<in>set chunks. ch \<noteq> [] \<and> last ch = CHR 0x0A \<and>
      ((if maxSize \<le> 0 then 8192 else maxSize) < int (length ch) \<longrightarrow> ch \<in> (\<lambda>l. l @ [CHR 0x0A]) ` set lines)"
    using spec ok unfolding cap by blast
  then show ?thesis
    unfolding c l Let_def prod.case list_all_iff using spec unfolding unlines_def newline_def by blast
qed

lemma chunks_lossless_witness:
  "concat (fst (SplitChunks (''go'' @ [CHR 0x0D, CHR 0x0A] @ ''ok'', None) 0)) = ''go'' @ [CHR 0x0A] @ ''ok'' @ [CHR 0x0A]"
proof -
  have "scanLines maxTokenSize (''go'' @ [CHR 0x0D, CHR 0x0A] @ ''ok'') = ([''go'', ''ok''], False)"
    by (simp add: scanLines.simps newline_def carriageReturn_def dropCR_def maxTokenSize_def)
  then show ?thesis using chunks_lossless [of "(''go'' @ [CHR 0x0D, CHR 0x0A] @ ''ok'', None)" 0]
    by (simp add: Let_def split: prod.splits)
qed

text \<open>A streamed log is the log, when nothing goes wrong: for a stream of lines without carriage returns, each under the
  limit and each terminated, ended by end of file, with a sender that accepts every chunk, the chunks of the payloads
  concatenate to exactly the bytes of the stream, under the identity of the task, and no error is returned.\<close>

theorem stream_logs_roundtrip:
  assumes "\<forall>l\<in>set ls. newline \<notin> set l \<and> carriageReturn \<notin> set l \<and> length l < maxTokenSize"
    and "\<And>q. send q = None"
  shows "\<exists>ps. StreamLogs (\<lambda>_. False) send (unlines ls, None) p = (ps, None) \<and> concat (map lc_Chunk ps) = unlines ls \<and>
     (\<forall>q\<in>set ps. q\<lparr>lc_Chunk := lc_Chunk p\<rparr> = p)"
proof -
  obtain chunks err where c: "SplitChunks (unlines ls, None) chunkSize = (chunks, err)" by fastforce
  have l: "scanLines maxTokenSize (fst (unlines ls, None :: go_error option)) = (ls, False)"
    using scanLines_unlines [OF assms(1)] by simp
  from SplitChunks_spec [OF c refl l] have s: "concat chunks = unlines ls" "err = None" by simp_all
  have "sendChunks (\<lambda>_. False) send p 0 chunks = (map (\<lambda>c. p\<lparr>lc_Chunk := c\<rparr>) chunks, None)"
    using assms(2) by (intro sendChunks_ok) simp
  then show ?thesis using s c by (auto simp: StreamLogs_def comp_def)
qed

lemma stream_logs_roundtrip_witness:
  "\<exists>ps. StreamLogs (\<lambda>_. False) (\<lambda>_. None) (''go'' @ newline # ''ok'' @ [newline], None)
      \<lparr>lc_TargetID = ''t1'', lc_PipelineRunName = ''r1'', lc_TaskName = ''build'', lc_Stream = '''', lc_Chunk = ''''\<rparr> = (ps, None) \<and>
     concat (map lc_Chunk ps) = ''go'' @ newline # ''ok'' @ [newline]"
proof -
  have "\<forall>l\<in>set [''go'', ''ok'']. newline \<notin> set l \<and> carriageReturn \<notin> set l \<and> length l < maxTokenSize"
    by (simp add: newline_def carriageReturn_def maxTokenSize_def)
  from stream_logs_roundtrip [OF this, of "\<lambda>_. None"] show ?thesis by (simp del: append.append_Cons) blast
qed

text \<open>The live log is one look at the log, and all or nothing. The streamer of a task run sends at most the chunks of the log as
  it was at the first attempt that could open it, however the log grows later; and if that read
  ends with an error, or holds one line over the limit, it sends nothing at all.\<close>

theorem live_log_first_look:
  assumes "\<forall>t<n. jobPodLog (pods t) (logs t) = None" "jobPodLog (pods n) (logs n) = Some (pod, rc)" "n < 10"
  shows "\<exists>k. map lc_Chunk (streamJobLogs pods logs send target run task) = take k (fst (SplitChunks rc chunkSize)) \<and>
     (snd rc \<noteq> None \<or> snd (scanLines maxTokenSize (fst rc)) \<longrightarrow> streamJobLogs pods logs send target run task = [])"
proof -
  let ?p = "\<lparr>lc_TargetID = target, lc_PipelineRunName = run, lc_TaskName = task, lc_Stream = '''', lc_Chunk = ''''\<rparr>"
  have attempts: "streamAttempts m t pods logs send ?p = fst (StreamLogs (\<lambda>_. False) send rc ?p)" if "t \<le> n" "n < t + m" for m t
    using that
  proof (induction m arbitrary: t)
    case (Suc m)
    show ?case
    proof (cases "t = n")
      case True
      then show ?thesis using assms(2) by simp
    next
      case False
      then show ?thesis using Suc assms(1) by simp
    qed
  qed simp
  have s: "streamJobLogs pods logs send target run task = fst (StreamLogs (\<lambda>_. False) send rc ?p)"
    using attempts [of 0 10] assms(3) by (simp add: streamJobLogs_def)
  obtain chunks err where c: "SplitChunks rc chunkSize = (chunks, err)" by fastforce
  obtain lines tooLong where l: "scanLines maxTokenSize (fst rc) = (lines, tooLong)" by fastforce
  have err: "err = (if tooLong then Some ErrTooLong else snd rc)" using SplitChunks_spec [OF c refl l] by simp
  obtain k where k: "fst (sendChunks (\<lambda>_. False) send ?p 0 chunks) = map (\<lambda>c. ?p\<lparr>lc_Chunk := c\<rparr>) (take k chunks)"
    using sendChunks_prefix by blast
  show ?thesis
  proof (cases err)
    case None
    then show ?thesis using s c l k err
      by (intro exI [of _ k]) (auto simp: StreamLogs_def comp_def split: if_splits)
  next
    case (Some e)
    then show ?thesis using s c l err by (intro exI [of _ 0]) (auto simp: StreamLogs_def)
  qed
qed

lemma live_log_first_look_witness:
  "\<exists>k. map lc_Chunk (streamJobLogs (\<lambda>t. Inr [''pod'']) (\<lambda>t pod. if t = 0 then Inl NotFound else Inr (''start'', None)) (\<lambda>_. None) ''t1'' ''r1'' ''build'') =
     take k (fst (SplitChunks (''start'', None) chunkSize))"
  using live_log_first_look [of 1 "\<lambda>t. Inr [''pod'']" "\<lambda>t pod. if t = 0 then Inl NotFound else Inr (''start'', None)" "''pod''" "(''start'', None)"
      "\<lambda>_. None" "''t1''" "''r1''" "''build''"]
  by (auto simp: jobPodLog_def)

section \<open>Agent operations\<close>

text \<open>C38: An exec operation is reported once: running first, then one verdict and nothing after it. The verdict is
  succeeded exactly when the runner saw the Job succeed before its deadline, and failed otherwise (credentials, creation,
  a lost Job, a failed Job, the deadline).\<close>

theorem exec_reported_once:
  assumes "exec (execute h nsFile clientFor ticks p) c = (res, c', es)" "ao_OpType p = AgentOpTypeExec"
  shows "\<exists>mid status msg. es = OpStatus (ao_OpID p) AgentOpStatusRunning '''' # mid @ [OpStatus (ao_OpID p) status msg] \<and>
     (\<forall>i st m. OpStatus i st m \<notin> set mid) \<and>
     status = (if \<exists>ns n j. OpGetJob ns n (Inr j) \<in> set mid \<and> job_Succeeded j > 0 then AgentOpStatusSucceeded else AgentOpStatusFailed)"
proof -
  have "\<exists>es'. es = OpStatus (ao_OpID p) AgentOpStatusRunning '''' # es' \<and> settled p es'"
    using emits_exec [OF execute_emits assms(1)] assms(2) by (auto simp: AgentOpTypeExec_def AgentOpTypeUpgrade_def)
  then show ?thesis unfolding settled_def job_seen_succeeded_def by fastforce
qed

text \<open>A client whose Job succeeds at the second look, with a log that grows in between.\<close>

definition hx_job :: "int \<Rightarrow> Job" where
  "hx_job n = (opJob (meta0\<lparr>om_Name := ''j1''\<rparr>) '''' container0)\<lparr>job_Succeeded := n\<rparr>"

definition hx_agent :: "nat AgentClient" where
  "hx_agent = \<lparr>opc_CreateJob = \<lambda>ns j. ret (Inr (hx_job 0)),
     opc_GetJob = \<lambda>ns n. State (\<lambda>t. (Inr (hx_job (if t = 0 then 0 else 1)), t + 1)),
     opc_ListJobs = \<lambda>ns l. ret (Inl (Err ''down'')), opc_CreateNs = \<lambda>ns. ret (Inr ()),
     opc_ListPods = \<lambda>ns n. ret (Inr [''p1'']),
     opc_ReadLog = \<lambda>ns n. State (\<lambda>t. (Inr (if t \<le> 1 then ''go'' else ''go ok''), t))\<rparr>"

definition hx_env :: env where
  "hx_env = (\<lambda>_. '''')(''TARGET_NAME'' := ''t1'', ''HUB_GATEWAY_URL'' := ''wss://hub'', ''SDP_ENROLL_TOKEN'' := ''once'')"

definition hx_handler :: "nat AgentHandler" where
  "hx_handler = agentOpHandler hx_env (\<lambda>_. Inl (Err ''bad duration'')) hx_agent"

definition hx_op :: "string \<Rightarrow> AgentOpDispatchPayload" where
  "hx_op ty = \<lparr>ao_OpID = ''op-12345678'', ao_TargetID = ''t1'', ao_EnvID = '''', ao_OpType = ty, ao_Detail = ''v2'',
     ao_Namespace = ''ci'', ao_Kubeconfig = ''''\<rparr>"

definition hx_exec_events :: "op_event list" where
  "hx_exec_events = snd (snd (exec (execute hx_handler None (\<lambda>_. None) 5 (hx_op AgentOpTypeExec)) 0))"

lemma hx_exec_run:
  "\<exists>res c'. exec (execute hx_handler None (\<lambda>_. None) 5 (hx_op AgentOpTypeExec)) 0 = (res, c', hx_exec_events)"
  unfolding hx_exec_events_def by (metis prod.collapse)

lemma hx_exec_events_eq:
  "hx_exec_events = [OpStatus ''op-12345678'' AgentOpStatusRunning '''', OpCreateJob ''ci'' (snd (BuildJobSpec (hx_op AgentOpTypeExec) DefaultImage)) (Inr (hx_job 0)),
     OpGetJob ''ci'' ''j1'' (Inr (hx_job 0)), OpListPods ''ci'' ''j1'' (Inr [''p1'']), OpReadLog ''ci'' ''p1'' (Inr ''go''),
     OpLog ''op-12345678'' AgentOpStreamStdout ''go'',
     OpGetJob ''ci'' ''j1'' (Inr (hx_job 1)), OpListPods ''ci'' ''j1'' (Inr [''p1'']), OpReadLog ''ci'' ''p1'' (Inr ''go ok''),
     OpLog ''op-12345678'' AgentOpStreamStdout '' ok'', OpStatus ''op-12345678'' AgentOpStatusSucceeded '''']"
proof -
  have j: "job_Succeeded (hx_job n) = n" "job_Conditions (hx_job n) = []" "om_Name (job_Meta (hx_job n)) = ''j1''" for n
    by (simp_all add: hx_job_def opJob_def)
  have h: "oh_Clientset hx_handler = Some hx_agent" "handler_image hx_handler = DefaultImage"
    by (simp_all add: hx_handler_def agentOpHandler_def handler_image_def envOr_def hx_env_def DefaultImage_def)
  have p: "ao_OpID (hx_op ty) = ''op-12345678''" "ao_OpType (hx_op ty) = ty" "ao_Kubeconfig (hx_op ty) = ''''"
    "fst (BuildJobSpec (hx_op ty) img) = ''ci''" for ty img
    by (simp_all add: hx_op_def BuildJobSpec_def Let_def)
  obtain job where b: "BuildJobSpec (hx_op AgentOpTypeExec) DefaultImage = (''ci'', job)"
    using p(4) [of AgentOpTypeExec DefaultImage] by (metis prod.collapse)
  have a: "opc_CreateJob hx_agent ns j = ret (Inr (hx_job 0))" "opc_ListPods hx_agent ns n = ret (Inr [''p1''])"
    "opc_GetJob hx_agent ns n = State (\<lambda>t. (Inr (hx_job (if t = 0 then 0 else 1)), t + 1))"
    "opc_ReadLog hx_agent ns n = State (\<lambda>t. (Inr (if t \<le> 1 then ''go'' else ''go ok''), t))" for ns n j
    by (simp_all add: hx_agent_def)
  have t: "AgentOpTypeExec \<noteq> AgentOpTypeUpgrade" by (simp add: AgentOpTypeExec_def AgentOpTypeUpgrade_def)
  show ?thesis
    unfolding hx_exec_events_def
    by (simp add: a b exec_def run_call execute_def report_def executeExec_def createOpJob_def drainLogs_def sendChunk_def
        j h p t eval_nat_numeral Let_def)
qed

lemma exec_reported_once_witness:
  "\<exists>mid msg. hx_exec_events = OpStatus ''op-12345678'' AgentOpStatusRunning '''' # mid @ [OpStatus ''op-12345678'' AgentOpStatusSucceeded msg]"
proof -
  obtain res c' where run: "exec (execute hx_handler None (\<lambda>_. None) 5 (hx_op AgentOpTypeExec)) 0 = (res, c', hx_exec_events)"
    using hx_exec_run by blast
  have p: "ao_OpType (hx_op AgentOpTypeExec) = AgentOpTypeExec" "ao_OpID (hx_op AgentOpTypeExec) = ''op-12345678''" by (simp_all add: hx_op_def)
  obtain mid status msg where es: "hx_exec_events = OpStatus ''op-12345678'' AgentOpStatusRunning '''' # mid @ [OpStatus ''op-12345678'' status msg]"
    using exec_reported_once [OF run p(1)] p(2) by auto
  have "last hx_exec_events = OpStatus ''op-12345678'' status msg" unfolding es by simp
  then have "status = AgentOpStatusSucceeded" by (simp add: hx_exec_events_eq)
  with es show ?thesis by blast
qed

text \<open>C17: The output of an exec operation arrives in order and once. If every read of a pod's log answers a prefix of the
  log the pod ends up with, the chunks sent after its reads are a prefix of that log, at least as long as every read:
  nothing is sent twice or skipped, and if one read saw the whole log, all of it was sent.\<close>

theorem exec_output_once:
  assumes "exec (execute h nsFile clientFor ticks p) c = (res, c', es)" "ao_OpType p = AgentOpTypeExec"
    and "\<forall>ns b. OpReadLog ns pod (Inr b) \<in> set es \<longrightarrow> prefix b full"
  shows "prefix (shipped pod es) full \<and> (\<forall>ns b. OpReadLog ns pod (Inr b) \<in> set es \<longrightarrow> prefix b (shipped pod es))"
proof -
  from emits_exec [OF execute_emits assms(1)] assms(2) obtain es' where
    es': "es = OpStatus (ao_OpID p) AgentOpStatusRunning '''' # es'" "settled p es'"
    by (auto simp: AgentOpTypeExec_def AgentOpTypeUpgrade_def)
  from es'(2) obtain mid status msg where
    shape: "es' = mid @ [OpStatus (ao_OpID p) status msg]" and mid: "closed mid" and ships: "\<forall>pod. \<exists>b. ships pod 0 b mid"
    unfolding settled_def by (elim exE conjE) (rule that)
  from ships obtain b where mid2: "ships pod 0 b mid" by blast
  have es: "es = OpStatus (ao_OpID p) AgentOpStatusRunning '''' # mid @ [OpStatus (ao_OpID p) status msg]"
    using es'(1) shape by simp
  have sh: "shipped pod es = shipped pod mid"
    using mid shipped_append [of "[OpStatus (ao_OpID p) status msg]" pod mid]
      shipped_Cons [of "mid @ [OpStatus (ao_OpID p) status msg]" "OpStatus (ao_OpID p) AgentOpStatusRunning ''''" pod]
      shipped_Cons [of "[]" "OpStatus (ao_OpID p) status msg" pod]
    by (simp add: es)
  have g: "grows pod full mid" using assms(3) by (simp add: es grows_def)
  then have m: "b \<le> length full" "shipped pod mid = take b full" "\<And>ns buf. OpReadLog ns pod (Inr buf) \<in> set mid \<Longrightarrow> length buf \<le> b"
    using mid2 by (auto simp: ships_def)
  have "prefix buf (take b full)" if "OpReadLog ns pod (Inr buf) \<in> set es" for ns buf
  proof -
    have r: "OpReadLog ns pod (Inr buf) \<in> set mid" using that by (auto simp: es)
    then have "prefix buf full" using g by (auto simp: grows_def)
    with m(3) [OF r] show ?thesis by (auto simp: prefix_def)
  qed
  then show ?thesis unfolding sh m(2) by (simp add: take_is_prefix)
qed

lemma exec_output_once_witness: "prefix ''go ok'' (shipped ''p1'' hx_exec_events)"
proof -
  obtain res c' where run: "exec (execute hx_handler None (\<lambda>_. None) 5 (hx_op AgentOpTypeExec)) 0 = (res, c', hx_exec_events)"
    using hx_exec_run by blast
  have "\<forall>ns b. OpReadLog ns ''p1'' (Inr b) \<in> set hx_exec_events \<longrightarrow> prefix b ''go ok''"
    by (auto simp: hx_exec_events_eq)
  moreover have "OpReadLog ''ci'' ''p1'' (Inr ''go ok'') \<in> set hx_exec_events" by (simp add: hx_exec_events_eq)
  ultimately show ?thesis using exec_output_once [OF run] by (simp add: hx_op_def)
qed

text \<open>A self-upgrade is never reported as done by the runner that starts it, and it starts one Job at most: only when upgrades are
  enabled, the operation names a version and the probe found no Job of the operation. But the probe fails open
  and the creation is not idempotent: when the Job is already there (the probe failed, or missed it), the operation
  under way is reported failed.\<close>

theorem upgrade_once_not_idempotent:
  assumes "exec (execute h nsFile clientFor ticks p) c = (res, c', es)" "ao_OpType p = AgentOpTypeUpgrade"
  shows "(\<forall>i st m. OpStatus i st m \<in> set es \<longrightarrow> i = ao_OpID p \<and> st \<in> {AgentOpStatusRunning, AgentOpStatusFailed}) \<and>
     length (filter (\<lambda>e. case e of OpCreateJob _ _ _ \<Rightarrow> True | _ \<Rightarrow> False) es) \<le> 1 \<and>
     (\<forall>ns job a. OpCreateJob ns job a \<in> set es \<longrightarrow>
        \<not> oh_SelfUpgradeDisabled h \<and> ao_Detail p \<noteq> '''' \<and> om_Name (job_Meta job) = ''sdp-upgrade-'' @ take 8 (ao_OpID p) \<and>
        (\<forall>l js. OpListJobs ns l (Inr js) \<in> set es \<longrightarrow> js = []) \<and>
        (a = Inl AlreadyExists \<longrightarrow> (\<exists>m. OpStatus (ao_OpID p) AgentOpStatusFailed m \<in> set es)))"
proof -
  from emits_exec [OF execute_emits assms(1)] assms(2) obtain es' where
    es: "es = OpStatus (ao_OpID p) AgentOpStatusRunning '''' # es'" "upgrade_path h nsFile p res es'"
    by (auto simp: AgentOpTypeExec_def AgentOpTypeUpgrade_def)
  from es(2) show ?thesis
    by (cases rule: upgrade_path.cases)
      (auto simp: es(1) BuildUpgradeJobSpec_def opJob_def meta0_def agent_constants split: if_splits)
qed

definition hx_taken :: "nat AgentClient" where
  "hx_taken = hx_agent\<lparr>opc_CreateJob := \<lambda>ns j. ret (Inl AlreadyExists)\<rparr>"

lemma upgrade_once_not_idempotent_witness:
  "\<exists>res c' es m. exec (execute (hx_handler\<lparr>oh_Clientset := Some hx_taken\<rparr>) None (\<lambda>_. None) 5 (hx_op AgentOpTypeUpgrade)) 0 = (res, c', es) \<and>
     OpStatus ''op-12345678'' AgentOpStatusFailed m \<in> set es"
proof -
  have h: "\<not> oh_SelfUpgradeDisabled hx_handler" by (simp add: hx_handler_def agentOpHandler_def hx_env_def)
  have t: "opc_ListJobs hx_taken ns l = ret (Inl (Err ''down''))" "opc_CreateJob hx_taken ns j = ret (Inl AlreadyExists)" for ns l j
    by (simp_all add: hx_taken_def hx_agent_def)
  have p: "ao_OpID (hx_op ty) = ''op-12345678''" "ao_OpType (hx_op ty) = ty" "ao_Detail (hx_op ty) = ''v2''" for ty
    by (simp_all add: hx_op_def)
  obtain ns job where b: "BuildUpgradeJobSpec (hx_op AgentOpTypeUpgrade) (handler_upgradeOpts (hx_handler\<lparr>oh_Clientset := Some hx_taken\<rparr>)
      (selfNamespace (hx_handler\<lparr>oh_Clientset := Some hx_taken\<rparr>) None)) = Some (ns, job)"
    by (simp add: BuildUpgradeJobSpec_def p)
  obtain res c' es where run: "exec (execute (hx_handler\<lparr>oh_Clientset := Some hx_taken\<rparr>) None (\<lambda>_. None) 5 (hx_op AgentOpTypeUpgrade)) 0 = (res, c', es)"
    and c: "OpCreateJob (selfNamespace (hx_handler\<lparr>oh_Clientset := Some hx_taken\<rparr>) None) job (Inl AlreadyExists) \<in> set es"
    by (simp add: exec_def run_call execute_def report_def executeUpgrade_def t h p b Let_def)
  from upgrade_once_not_idempotent [OF run p(2)] c run show ?thesis unfolding p(1) by blast
qed

section \<open>The long connection\<close>

text \<open>C39: The outbox is bounded and first in, first out: in every reachable state it holds at most 256 frames, and the frames that
  \<open>Send\<close> accepted are, in order, those taken off it (written, or lost with the write that failed) followed by those still in it.\<close>

theorem outbox_fifo:
  assumes "(conn_step c)\<^sup>*\<^sup>* conn_init s"
  shows "length (cs_outbox s) \<le> 256 \<and> cs_sent s = map fst (cs_taken s) @ cs_outbox s"
  using conn_inv_reach [OF assms] by (simp add: conn_inv_def outboxCap_def)

definition hx_beat :: "unit Message" where
  "hx_beat = \<lparr>msg_Type = MessageHeartbeat, msg_Payload = ()\<rparr>"

text \<open>A connection that sends one heartbeat and loses the next on a failed write.\<close>

lemma outbox_fifo_witness:
  "\<exists>s. (conn_step (New ''wss://hub'' ''t1'' '''' :: (unit, unit) Client))\<^sup>*\<^sup>* conn_init s \<and>
     cs_taken s = [(hx_beat, True), (hx_beat, False)] \<and> cs_sent s = [hx_beat, hx_beat] @ cs_outbox s"
proof -
  let ?c = "New ''wss://hub'' ''t1'' '''' :: (unit, unit) Client"
  let ?s1 = "enqueue hx_beat Dialing (enqueue hx_beat Dialing conn_init)"
  let ?s2 = "?s1\<lparr>cs_pc := Serving\<rparr>"
  let ?s3 = "?s2\<lparr>cs_outbox := [hx_beat], cs_taken := cs_taken ?s2 @ [(hx_beat, True)]\<rparr>"
  let ?s4 = "?s3\<lparr>cs_pc := Dialing, cs_outbox := [], cs_taken := cs_taken ?s3 @ [(hx_beat, False)]\<rparr>"
  have i: "cs_pc conn_init = Dialing" "cs_outbox conn_init = []" by (simp_all add: conn_init_def)
  have 1: "conn_step ?c conn_init (enqueue hx_beat Dialing conn_init)"
    using st_other [of "conn_init" ?c hx_beat] by (simp add: i hasRoom_def outboxCap_def)
  have 2: "conn_step ?c (enqueue hx_beat Dialing conn_init) ?s1"
    using st_other [of "enqueue hx_beat Dialing conn_init" ?c hx_beat] by (simp add: i hasRoom_def outboxCap_def)
  have 3: "conn_step ?c ?s1 ?s2" using st_dial [of ?s1 ?c] by (simp add: connected_def New_def)
  have 4: "conn_step ?c ?s2 ?s3" by (rule st_write) (simp_all add: i)
  have 5: "conn_step ?c ?s3 ?s4" by (rule st_write_fails) simp_all
  have run: "(conn_step ?c)\<^sup>*\<^sup>* conn_init ?s4"
    using 1 2 3 4 5 by (meson converse_rtranclp_into_rtranclp rtranclp.rtrancl_refl)
  have t: "cs_taken ?s4 = [(hx_beat, True), (hx_beat, False)]" by (simp add: conn_init_def)
  with outbox_fifo [OF run] run show ?thesis by (intro exI [of _ ?s4]) simp
qed

text \<open>C40: The connector can lock itself out. The outbox is filled while the connection is down (every status update sends), and
  only the connection takes frames off it; with 256 frames waiting, a reconnected runner waits for ever to queue its own
  identity frame: a reachable state that no step leaves. And a target with more live runs than the outbox has room for
  never serves: if the callback after a reconnect sends more than 256 frames, no reachable state is in the select loop.\<close>

theorem full_outbox_deadlocks:
  fixes c :: "('p, 'h) Client"
  assumes "cc_agentInfo c \<noteq> None"
  shows "(\<exists>s :: 'p ConnState. (conn_step c)\<^sup>*\<^sup>* conn_init s \<and> cs_pc s = Announce \<and> (\<forall>s'. \<not> conn_step c s s')) \<and>
     (\<forall>frames s. cc_onConnect c = Some frames \<longrightarrow> 256 < length frames \<longrightarrow> (conn_step c)\<^sup>*\<^sup>* conn_init s \<longrightarrow>
        cs_pc s \<noteq> Serving \<and> cs_pc s \<noteq> Beat \<and> cs_taken s = [])"
proof (intro conjI allI impI)
  have i: "cs_pc conn_init = (Dialing :: 'p pc)" "length (cs_outbox (conn_init :: 'p ConnState)) = 0" by (simp_all add: conn_init_def)
  obtain s :: "'p ConnState" where s: "(conn_step c)\<^sup>*\<^sup>* conn_init s" "cs_pc s = Dialing" "length (cs_outbox s) = outboxCap"
    using fill_outbox [of "conn_init :: 'p ConnState" outboxCap c] i by auto
  have "conn_step c s (s\<lparr>cs_pc := Announce\<rparr>)" using st_dial [OF s(2), of c] assms by (simp add: connected_def)
  with s(1) have "(conn_step c)\<^sup>*\<^sup>* conn_init (s\<lparr>cs_pc := Announce\<rparr>)" by (rule rtranclp.rtrancl_into_rtrancl)
  moreover have "\<not> conn_step c (s\<lparr>cs_pc := Announce\<rparr>) s'" for s'
    by (rule full_stuck) (use s(3) in \<open>simp_all add: hasRoom_def\<close>)
  ultimately show "\<exists>s :: 'p ConnState. (conn_step c)\<^sup>*\<^sup>* conn_init s \<and> cs_pc s = Announce \<and> (\<forall>s'. \<not> conn_step c s s')"
    by (intro exI [of _ "s\<lparr>cs_pc := Announce\<rparr>"]) simp
next
  fix frames :: "'p Message list" and s :: "'p ConnState"
  assume f: "cc_onConnect c = Some frames" "256 < length frames" and r: "(conn_step c)\<^sup>*\<^sup>* conn_init s"
  from resync_inv_reach [OF r f(1)] f(2) show "cs_pc s \<noteq> Serving" "cs_pc s \<noteq> Beat" "cs_taken s = []"
    by (simp_all add: resync_inv_def outboxCap_def)
qed

definition hx_client :: "(unit, 'h) Client" where
  "hx_client = the (newConnector hx_env (\<lambda>_. False) ''v1'' ''linux'' ''amd64'' ''go1.22'')"

lemma full_outbox_deadlocks_witness:
  "\<exists>s. (conn_step (hx_client :: (unit, unit) Client))\<^sup>*\<^sup>* conn_init s \<and> (\<forall>s'. \<not> conn_step (hx_client :: (unit, unit) Client) s s')"
proof -
  have "cc_agentInfo hx_client \<noteq> None"
    by (simp add: hx_client_def newConnector_def hx_env_def mustEnv_def credentialGate_def WithAgentInfo_def Let_def)
  from full_outbox_deadlocks [OF this] show ?thesis by blast
qed

text \<open>The reconnect backoff: after consecutive failures the sleeps are 1, 2, 4, 8, 16 and then 32 seconds each (the doubling test is
  made before the cap of 30 seconds), and a connection that ended without error starts it over.\<close>

theorem reconnect_backoff:
  "Run second (replicate n False @ True # rest) = map (\<lambda>i. 2 ^ min i 5 * second) [0..<n] @ Run second rest"
proof -
  have step: "nextBackoff (2 ^ min i 5 * second) = 2 ^ min (Suc i) 5 * second" for i
  proof (cases "i < 5")
    case True
    then have "(2 :: int) ^ i \<le> 2 ^ 4" by (intro power_increasing) simp_all
    with True show ?thesis using i64_double [of "2 ^ i"] by (simp add: nextBackoff_def second_def min_def)
  next
    case False
    then show ?thesis by (simp add: nextBackoff_def second_def)
  qed
  have "Run (2 ^ min k 5 * second) (replicate n False @ True # rest) = map (\<lambda>i. 2 ^ min i 5 * second) [k..<k + n] @ Run second rest" for k
  proof (induction n arbitrary: k)
    case (Suc n)
    have "[k..<k + Suc n] = k # [Suc k..<Suc k + n]" by (simp add: upt_conv_Cons del: upt_Suc)
    then show ?case using Suc.IH [of "Suc k"] by (simp add: step del: upt_Suc)
  qed simp
  from this [of 0] show ?thesis by simp
qed

text \<open>The handshake settles the bearer. Before it the runner dials with the enroll token if it has one and else with the shared token;
  once the hub's credential (a token without blanks at its ends) is stored, every later dial carries that credential,
  whatever the other tokens are.\<close>

theorem handshake_token:
  assumes "cc_credentialFile c \<noteq> ''''" "cred \<noteq> ''''" "\<not> is_space (hd cred)" "\<not> is_space (last cred)"
    and "mkdirErr = None" "\<And>b. written b = Inr b"
  shows "currentToken c (Inl err) = (if cc_enrollToken c \<noteq> '''' then cc_enrollToken c else cc_authToken c) \<and>
     hd (dialHeader c (persistCredential c cred mkdirErr written (Inl err))) = (''Authorization'', ''Bearer '' @ cred)"
  using assms TrimSpace_id [OF assms(2-4)]
  by (simp add: currentToken_def persistCredential_def dialHeader_def)

lemma handshake_token_witness:
  "dialHeader (WithEnrollBootstrap ''once'' ''/cred'' (New ''wss://hub'' ''t1'' '''' :: (unit, unit) Client)) (Inl NotFound) =
     [(''Authorization'', ''Bearer once''), (''X-Target-Name'', ''t1'')] \<and>
   hd (dialHeader (WithEnrollBootstrap ''once'' ''/cred'' (New ''wss://hub'' ''t1'' '''' :: (unit, unit) Client))
     (persistCredential (WithEnrollBootstrap ''once'' ''/cred'' (New ''wss://hub'' ''t1'' '''' :: (unit, unit) Client)) ''mine'' None Inr (Inl NotFound))) =
     (''Authorization'', ''Bearer mine'')"
proof -
  let ?c = "WithEnrollBootstrap ''once'' ''/cred'' (New ''wss://hub'' ''t1'' '''' :: (unit, unit) Client)"
  have c: "cc_credentialFile ?c = ''/cred''" "cc_enrollToken ?c = ''once''" "cc_targetName ?c = ''t1''" "cc_vendor ?c = ''''"
    by (simp_all add: WithEnrollBootstrap_def New_def)
  from handshake_token [of ?c "''mine''" None Inr NotFound] c show ?thesis
    by (simp add: is_space_def dialHeader_def)
qed

end
