(* ===== verification/Process_Props.thy ===== *)
theory Process_Props
  imports Hub_Props Rollout_Props
begin

text \<open>The properties of the process: the start of the manager, the routes of the hub's commands, the credential, and what
  the rollout controller is configured with.\<close>

section \<open>The process\<close>

text \<open>The start of the manager is tried at most ten times. The waits double from one second up to 32, so the loop waits
  159 seconds at most; it gives up exactly when all ten attempts failed with the context alive and no wait was interrupted.\<close>

theorem manager_start_bounded:
  "let (x, waits) = runManager start interrupted
   in length waits \<le> 9 \<and> sum_list waits \<le> 159 * second \<and>
      x = (if \<forall>i\<in>{1..10}. start i = Some False \<and> (i = 10 \<or> \<not> interrupted i) then FatalExit 10 else CleanExit)"
proof -
  obtain x waits where run: "startLoop start interrupted 1 second = (x, waits)" by fastforce
  from startLoop_shape [OF run] have shape: "length waits \<le> 9" "\<forall>i<length waits. waits ! i = (nextBackoff ^^ i) second"
    by (simp_all add: maxManagerStartAttempts_def)
  have "waits = map (\<lambda>i. (nextBackoff ^^ i) second) [0..<length waits]"
    using shape(2) by (intro nth_equalityI) simp_all
  moreover have "sum_list (map (\<lambda>i. (nextBackoff ^^ i) second) [0..<n]) \<le> 159 * second" if "n \<le> 9" for n
    using that sum_waits [of n] by simp
  ultimately have s: "sum_list waits \<le> 159 * second" using shape(1) by metis
  show ?thesis
    using run shape(1) s startLoop_exit [of 1 start interrupted second] by (simp add: runManager_def maxManagerStartAttempts_def)
qed

lemma manager_start_bounded_witness:
  "fst (runManager (\<lambda>_. Some False) (\<lambda>_. False)) = FatalExit 10"
  using manager_start_bounded [of "\<lambda>_. Some False" "\<lambda>_. False"] by (auto simp: Let_def split: prod.splits)

text \<open>The check of the credentials at the start does not keep its promise of no empty bearer: it asks whether the credential file exists, not
  whether it holds anything. A process that passed it dials with an empty token exactly when it has neither the
  enroll token nor the shared token and the file, which is there, is unreadable or blank.\<close>

theorem credential_gate_admits_blank:
  assumes "newConnector env exists version goos goarch goversion = Some c"
  shows "currentToken c file = '''' \<longleftrightarrow> env ''SDP_ENROLL_TOKEN'' = '''' \<and> env ''TARGET_AUTH_TOKEN'' = '''' \<and>
     exists (credentialFileOf env) \<and> (case file of Inl err \<Rightarrow> True | Inr b \<Rightarrow> TrimSpace b = '''')"
proof -
  have f: "credentialFileOf env \<noteq> ''''" by (simp add: credentialFileOf_def envOr_def)
  have c: "cc_enrollToken c = env ''SDP_ENROLL_TOKEN''" "cc_authToken c = env ''TARGET_AUTH_TOKEN''"
    "cc_credentialFile c = credentialFileOf env" and gate: "credentialGate env exists"
    using assms by (auto simp: newConnector_def mustEnv_def WithAgentInfo_def WithEnrollBootstrap_def WithEnrollInfo_def New_def Let_def
        split: if_splits)
  from gate f show ?thesis
    by (auto simp: currentToken_def c credentialGate_def Let_def split: sum.splits)
qed

lemma credential_gate_admits_blank_witness:
  "\<exists>c :: (unit, unit) Client. newConnector (hx_env(''SDP_ENROLL_TOKEN'' := '''')) (\<lambda>_. True) ''v1'' ''linux'' ''amd64'' ''go1.22'' = Some c \<and>
     currentToken c (Inr [CHR 0x0A]) = ''''"
proof -
  obtain c :: "(unit, unit) Client" where c: "newConnector (hx_env(''SDP_ENROLL_TOKEN'' := '''')) (\<lambda>_. True) ''v1'' ''linux'' ''amd64'' ''go1.22'' = Some c"
    by (simp add: newConnector_def hx_env_def mustEnv_def credentialGate_def Let_def)
  show ?thesis
    using credential_gate_admits_blank [OF c, of "Inr [CHR 0x0A]"] c by (auto simp: hx_env_def TrimSpace_def is_space_def)
qed

text \<open>C36: The hub's commands reach the last manager that was made, and none before the first. After \<open>n\<close> attempts to start the manager, \<open>i\<close>
  being the last in which one was made, a frame of a command is handled by the handler of attempt \<open>i\<close> and by no other, an agent operation by its handler
  at any time, and every other frame by none; the callback after a reconnect is that of attempt \<open>i\<close>. As the
  connection is dialled before the first attempt, the commands that arrive until then are dropped, and there is no resync.\<close>

theorem hub_commands_routed:
  assumes "newConnector env exists version goos goarch goversion = Some c"
  shows "readMessage (wiredUpTo env mc n resync c) m = map_option (\<lambda>h. (h, msg_Payload m)) (routed (lastManager env mc n) (msg_Type m)) \<and>
     cc_onConnect (wiredUpTo env mc n resync c) = (if lastManager env mc n = 0 then None else Some (resync (lastManager env mc n))) \<and>
     (n = 0 \<longrightarrow> msg_Type m \<noteq> MessageAgentOp \<longrightarrow> readMessage (wiredUpTo env mc n resync c) m = None)"
proof -
  have c: "cc_handlers c = Map.empty" "cc_onConnect c = None"
    using assms by (auto simp: newConnector_def mustEnv_def WithAgentInfo_def WithEnrollBootstrap_def WithEnrollInfo_def New_def Let_def
        split: if_splits)
  have none: "routed 0 t = None" if "t \<noteq> MessageAgentOp" for t using that by (cases t) simp_all
  have h: "cc_handlers (wiredUpTo env mc n resync c) = routed (lastManager env mc n)" "cc_onConnect (wiredUpTo env mc n resync c) = (if lastManager env mc n = 0 then None else Some (resync (lastManager env mc n)))"
    using wiredUpTo_handlers [OF c(1), of env mc n resync] c(2) by simp_all
  have read: "readMessage (wiredUpTo env mc n resync c) m = map_option (\<lambda>h. (h, msg_Payload m)) (routed (lastManager env mc n) (msg_Type m))"
    unfolding readMessage_def h(1) by (cases "routed (lastManager env mc n) (msg_Type m)") simp_all
  show ?thesis unfolding read using h(2) none by (intro conjI impI) simp_all
qed

text \<open>The second manager cannot be made: the first one's handlers stay.\<close>

definition hx_calls :: "nat \<Rightarrow> ManagerCalls" where
  "hx_calls n = \<lparr>mc_NewManager = (\<lambda>_. if n = 2 then Some (Err ''no leader election'') else None), mc_Complete = (\<lambda>_. None),
     mc_Start = Some (Err ''cache sync'')\<rparr>"

lemma hub_commands_routed_witness:
  "readMessage (wiredUpTo hx_env hx_calls 2 (\<lambda>_. []) hx_client) \<lparr>msg_Type = MessageRerunTask, msg_Payload = ()\<rparr> = Some (RerunTask 1, ()) \<and>
   readMessage (wiredUpTo hx_env hx_calls 0 (\<lambda>_. []) hx_client) \<lparr>msg_Type = MessageRerunTask, msg_Payload = ()\<rparr> = None"
proof -
  have c: "newConnector hx_env (\<lambda>_. False) ''v1'' ''linux'' ''amd64'' ''go1.22'' = Some (hx_client :: (unit, HubHandler) Client)"
    by (simp add: hx_client_def newConnector_def hx_env_def mustEnv_def credentialGate_def Let_def)
  have l: "lastManager hx_env hx_calls 2 = 1" by (simp add: numeral_2_eq_2 hx_calls_def)
  show ?thesis
    using hub_commands_routed [OF c, where mc = hx_calls and n = 2 and resync = "\<lambda>_. []" and m = "\<lparr>msg_Type = MessageRerunTask, msg_Payload = ()\<rparr>"]
      hub_commands_routed [OF c, where mc = hx_calls and n = 0 and resync = "\<lambda>_. []" and m = "\<lparr>msg_Type = MessageRerunTask, msg_Payload = ()\<rparr>"]
    by (simp add: l)
qed




section \<open>The endpoint of the probes\<close>

lemma unobserved_index:
  assumes "valid_steps (ro_Spec ro)" "index_ok ro"
    and "rst_CurrentStepIndex (ro_Status ro) < int (length (ros_Steps (ro_Spec ro)))"
    and "step_Pause (cur_step ro) \<noteq> None \<or> step_SetWeight (cur_step ro) \<noteq> None"
    and "Evaluate now ro r n t False = Some d"
  shows "d_CurrentStepIndex d = rst_CurrentStepIndex (ro_Status ro)"
  using assms(4,5) Evaluate_step [OF assms(1-3), of now r n t False]
  by (auto simp: pauseDecision_def healthDecision_def Let_def split: option.splits if_splits)

text \<open>C29: A Prometheus check never passes. The rollout controller of the process has no Prometheus endpoint, so a reconcile in which the probe of
  such a check is due never leaves the step the Rollout is at, whatever Prometheus would answer: the status it writes
  is still at that step. (Between two probes the pods alone decide.)\<close>

theorem prometheus_check_never_passes:
  assumes "exec (Rollout_Reconcile k (mainRolloutEnv env httpGet parseFloat floatLe) now req) c = (res, c', GetRO req (Inr ro) # es)"
    and "\<not> commanded ro" "\<not> held ro" "rst_Phase (ro_Status ro) \<noteq> RolloutUnset"
    and "valid_steps (ro_Spec ro)" "index_ok ro"
    and "rst_CurrentStepIndex (ro_Status ro) < int (length (ros_Steps (ro_Spec ro)))"
    and "step_Pause (cur_step ro) \<noteq> None \<or> step_SetWeight (cur_step ro) \<noteq> None"
    and "hc_Type (ros_HealthCheck (ro_Spec ro)) = HealthCheckPrometheusQuery" "probeDue now ro"
  shows "\<forall>p x. StatusRO p x \<in> set es \<longrightarrow> rst_CurrentStepIndex (ro_Status p) = rst_CurrentStepIndex (ro_Status ro)"
proof -
  let ?env = "mainRolloutEnv env httpGet parseFloat floatLe"
  have init: "initRollout now ro = ro" using assms(4) by simp
  have unhealthy: "\<not> observeHealth ?env now ro r t" for r t
    using assms(9,10) by (simp add: observeHealth_def canaryHealthy_def mainRolloutEnv_def Let_def)
  from assms(2,3) show ?thesis
  proof (cases rule: Rollout_cases [OF assms(1)])
    case (5 es1 es2)
    have "rst_CurrentStepIndex (ro_Status p) = rst_CurrentStepIndex (ro_Status ro)" if p: "StatusRO p x \<in> set es" for p x
    proof -
      have "StatusRO p x \<in> set es2" using p 5(4,5) by auto
      moreover from this have "evaluate_path ?env now ro res es2" using 5(6) init by auto
      ultimately consider r t n d where "Evaluate now ro r t n (observeHealth ?env now ro r t) = Some d"
          "p = ro\<lparr>ro_Status := recordDecision now (probeDue now ro) d (ro_Status ro)\<rparr>"
        | "p = ro\<lparr>ro_Status := (ro_Status ro)\<lparr>rst_Phase := RolloutRolledBack, rst_CompletionTime := Some now\<rparr>\<rparr>"
        using evaluate_path_status by metis
      then show ?thesis
        by cases (simp_all add: unhealthy recordDecision_sel unobserved_index [OF assms(5-8)])
    qed
    then show ?thesis by blast
  qed (auto simp: held_def)
qed

text \<open>A canary whose pods are all up at 20 percent, checked by a query.\<close>

definition px_ro :: Rollout where
  "px_ro = ex_ro\<lparr>ro_Spec := (ro_Spec ex_ro)\<lparr>ros_HealthCheck := (ros_HealthCheck (ro_Spec ex_ro))\<lparr>hc_Type := HealthCheckPrometheusQuery\<rparr>\<rparr>\<rparr>"

definition px_env :: "int RolloutEnv" where
  "px_env = mainRolloutEnv hx_env (\<lambda>url timeout. Some (200, ''1'')) atoi (\<le>)"

lemma px_views:
  "om_Name (ro_Meta px_ro) = ''shop''" "om_Namespace (ro_Meta px_ro) = ''ns''" "om_Annotations (ro_Meta px_ro) = Map.empty"
  "ros_WorkloadRef (ro_Spec px_ro) = ''shop''" "ros_Replicas (ro_Spec px_ro) = Some 10" "ros_CanaryImage (ro_Spec px_ro) = ''shop:2''"
  "ros_StableImage (ro_Spec px_ro) = ''shop:1''" "ros_Steps (ro_Spec px_ro) = [ex_w 20, ex_w 100]" "ros_AutoRollback (ro_Spec px_ro)"
  "hc_Type (ros_HealthCheck (ro_Spec px_ro)) = HealthCheckPrometheusQuery" "hc_IntervalSeconds (ros_HealthCheck (ro_Spec px_ro)) = 30"
  "hc_FailureThreshold (ros_HealthCheck (ro_Spec px_ro)) = 3"
  "tf_Type (ros_TrafficRouting (ro_Spec px_ro)) = TrafficRoutingDeploymentWeight" "ro_Status px_ro = ex_status RolloutProgressing 0 20"
  by (simp_all add: px_ro_def ex_ro_def ex_rollout_def)

definition px_wait :: Decision where
  "px_wait = (atWeight RolloutProgressing 0 20 10 ''waiting for canary health'')\<lparr>d_ConsecutiveFailures := 1, d_RequeueAfter := 30 * second\<rparr>"

lemma px_evaluate: "Evaluate 5 px_ro 2 2 10 False = Some px_wait"
  by (simp add: px_views Evaluate_def healthDecision_def px_wait_def healthInterval_def seconds_def second_def i64_def i32_def Let_def)

lemma px_wait_views: "d_CanaryReplicas px_wait = 2" "d_StableReplicas px_wait = 8" "d_Phase px_wait = RolloutProgressing"
  by (simp_all add: px_wait_def weightReplicas_def i32_def i64_def signed_divide_int_def)

lemma px_run:
  "\<exists>res c' es p a. exec (Rollout_Reconcile mem_client px_env 5 Rollout_Props.ex_key) (ex_cluster px_ro 8 2) =
     (res, c', GetRO Rollout_Props.ex_key (Inr px_ro) # es) \<and> StatusRO p a \<in> set es"
  by (simp add: ex_rollout_simps px_env_def mainRolloutEnv_def px_views px_evaluate px_wait_views cong: bind_weak_cong)

lemma prometheus_check_never_passes_witness:
  "\<exists>res c' es p a. exec (Rollout_Reconcile mem_client px_env 5 Rollout_Props.ex_key) (ex_cluster px_ro 8 2) = (res, c', es) \<and>
     StatusRO p a \<in> set es \<and> rst_CurrentStepIndex (ro_Status p) = 0"
proof -
  obtain res c' es p a where run: "exec (Rollout_Reconcile mem_client px_env 5 Rollout_Props.ex_key) (ex_cluster px_ro 8 2) =
     (res, c', GetRO Rollout_Props.ex_key (Inr px_ro) # es)" and st: "StatusRO p a \<in> set es"
    using px_run by blast
  have v: "\<not> commanded px_ro" "\<not> held px_ro" "rst_Phase (ro_Status px_ro) \<noteq> RolloutUnset" "valid_steps (ro_Spec px_ro)" "index_ok px_ro"
    "rst_CurrentStepIndex (ro_Status px_ro) < int (length (ros_Steps (ro_Spec px_ro)))"
    "step_Pause (cur_step px_ro) \<noteq> None \<or> step_SetWeight (cur_step px_ro) \<noteq> None" "probeDue 5 px_ro"
    by (simp_all add: commanded_def held_def px_views map_get_def valid_steps_def weights_of_def index_ok_def cur_step_def probeDue_def)
  have "rst_CurrentStepIndex (ro_Status p) = 0"
    using prometheus_check_never_passes [OF run [unfolded px_env_def] v(1-7) px_views(10) v(8)] st by (auto simp: px_views)
  with run st show ?thesis by (metis list.set_intros(2))
qed

end
