(* ===== verification/Go_Heap.thy ===== *)
theory Go_Heap
  imports "HOL-Library.State_Monad" "HOL-Library.AList"
begin

text \<open>
  Go values with the references inside them, and what it means to copy one. Structs are values, pointers, slices and maps
  are references to a cell of the heap, strings are values as they cannot be changed. A heap is the list of its
  cells, an address the index of one; a program allocates at the end. The reference model of the generated deep
  copies (theory \<open>Deep_Copy\<close>); the other theories have values only, and copying one is the identity there.
\<close>

section \<open>Values, types and heaps\<close>

type_synonym addr = nat

datatype scalar = Str string | Num int | Truth bool

datatype gval = Sc scalar | Ref "addr option" | Fields "string \<Rightarrow> gval"

datatype cell = Pointee gval | Elems "gval list" | Entries "(string \<times> gval) list"

type_synonym heap = "cell list"

datatype gtype = TScalar | TPtr gtype | TSlice gtype | TMap gtype | TStruct "(string \<times> gtype) list"

text \<open>What a value stands for once its references are followed.\<close>

datatype deep = DScalar scalar | DNil | DPointee deep | DElems "deep list" | DEntries "(string \<times> deep) list" |
  DFields "string \<Rightarrow> deep"

text \<open>
  \<open>den h ty v t A\<close>: in the heap \<open>h\<close> the value \<open>v\<close> is of type \<open>ty\<close> and stands for \<open>t\<close>, and \<open>A\<close> are the
  addresses that are followed.
\<close>

inductive den :: "heap \<Rightarrow> gtype \<Rightarrow> gval \<Rightarrow> deep \<Rightarrow> addr set \<Rightarrow> bool" for h where
  den_scalar: "den h TScalar (Sc s) (DScalar s) {}"
| den_nil_ptr: "den h (TPtr ty) (Ref None) DNil {}"
| den_nil_slice: "den h (TSlice ty) (Ref None) DNil {}"
| den_nil_map: "den h (TMap ty) (Ref None) DNil {}"
| den_ptr: "a < length h \<Longrightarrow> h ! a = Pointee v \<Longrightarrow> den h ty v t A \<Longrightarrow> den h (TPtr ty) (Ref (Some a)) (DPointee t) (insert a A)"
| den_slice: "a < length h \<Longrightarrow> h ! a = Elems vs \<Longrightarrow> length ts = length vs \<Longrightarrow> \<forall>i<length vs. den h ty (vs ! i) (ts ! i) (F i) \<Longrightarrow>
     A = insert a (\<Union>i<length vs. F i) \<Longrightarrow> den h (TSlice ty) (Ref (Some a)) (DElems ts) A"
| den_map: "a < length h \<Longrightarrow> h ! a = Entries kvs \<Longrightarrow> distinct (map fst kvs) \<Longrightarrow> length ts = length kvs \<Longrightarrow>
     \<forall>i<length kvs. den h ty (snd (kvs ! i)) (ts ! i) (F i) \<Longrightarrow> A = insert a (\<Union>i<length kvs. F i) \<Longrightarrow>
     den h (TMap ty) (Ref (Some a)) (DEntries (zip (map fst kvs) ts)) A"
| den_struct: "\<forall>(n, ty)\<in>set fs. den h ty (v n) (t n) (G n) \<Longrightarrow> A = (\<Union>n\<in>fst ` set fs. G n) \<Longrightarrow>
     den h (TStruct fs) (Fields v) (DFields t) A"

inductive_cases den_ptr_cases [consumes 1, case_names nil ptr]: "den h (TPtr ty) v t A"
inductive_cases den_slice_cases [consumes 1, case_names nil slice]: "den h (TSlice ty) v t A"
inductive_cases den_map_cases [consumes 1, case_names nil entries]: "den h (TMap ty) v t A"
inductive_cases den_struct_cases [consumes 1, case_names struct]: "den h (TStruct fs) v t A"

text \<open>Only the cells at the addresses followed matter.\<close>

lemma den_frame: "den h ty v t A \<Longrightarrow> \<forall>a\<in>A. a < length h2 \<and> h2 ! a = h ! a \<Longrightarrow> den h2 ty v t A"
proof (induction rule: den.induct)
  case (den_slice a vs ts ty F A)
  then show ?case by (intro den.den_slice [where F = F]) auto
next
  case (den_map a kvs ts ty F A)
  then show ?case by (intro den.den_map [where F = F]) auto
next
  case (den_struct fs v t G A)
  then show ?case by (intro den.den_struct [where G = G]) fastforce+
qed (auto intro: den.intros)

lemma den_bound: "den h ty v t A \<Longrightarrow> A \<subseteq> {..<length h}"
proof (induction rule: den.induct)
  case (den_struct fs v t G A)
  then have "G n \<subseteq> {..<length h}" if "(n, ty) \<in> set fs" for n ty using that by fast
  with den_struct.hyps show ?case by fastforce
qed auto

lemma den_grows: "den h ty v t A \<Longrightarrow> den (h @ ext) ty v t A"
  by (rule den_frame, assumption) (use den_bound [of h ty v t A] in \<open>auto simp: nth_append\<close>)

section \<open>The heap operations\<close>

type_synonym copier = "gval \<Rightarrow> (heap, gval) state"

definition alloc :: "cell \<Rightarrow> (heap, addr) state" where
  "alloc c = State (\<lambda>h. (length h, h @ [c]))"

definition load :: "addr \<Rightarrow> (heap, cell) state" where
  "load a = State (\<lambda>h. (h ! a, h))"

definition store :: "addr \<Rightarrow> cell \<Rightarrow> (heap, unit) state" where
  "store a c = State (\<lambda>h. ((), h[a := c]))"

lemma run_heap [simp]:
  "run_state (alloc c) h = (length h, h @ [c])" "run_state (load a) h = (h ! a, h)" "run_state (store a c) h = ((), h[a := c])"
  "run_state (State_Monad.return x) h = (x, h)"
  "run_state (State_Monad.bind m f) h = (case run_state m h of (y, h') \<Rightarrow> run_state (f y) h')"
  by (simp_all add: alloc_def load_def store_def)

text \<open>The statements of a deep copy. An assignment copies the value, not what it refers to.\<close>

definition assign :: copier where
  "assign v = State_Monad.return v"

text \<open>\<open>*out = new(T)\<close>, then the pointee is copied.\<close>

definition copy_ptr :: "copier \<Rightarrow> copier" where
  "copy_ptr c v = (case v of
     Ref (Some a) \<Rightarrow> do {
       b \<leftarrow> alloc (Pointee (Ref None));
       p \<leftarrow> load a;
       case p of
         Pointee x \<Rightarrow> do {
           y \<leftarrow> c x;
           store b (Pointee y);
           State_Monad.return (Ref (Some b))
         }
       | _ \<Rightarrow> State_Monad.return v
     }
   | _ \<Rightarrow> State_Monad.return v)"

text \<open>\<open>*out = make([]T, len( *in))\<close>, then the elements are copied one by one.\<close>

fun fill :: "copier \<Rightarrow> addr \<Rightarrow> nat \<Rightarrow> gval list \<Rightarrow> (heap, unit) state" where
  "fill c b i [] = State_Monad.return ()"
| "fill c b i (x # xs) = do {
     y \<leftarrow> c x;
     o1 \<leftarrow> load b;
     (case o1 of Elems ys \<Rightarrow> store b (Elems (ys[i := y])) | _ \<Rightarrow> State_Monad.return ());
     fill c b (Suc i) xs
   }"

definition copy_slice :: "copier \<Rightarrow> copier" where
  "copy_slice c v = (case v of
     Ref (Some a) \<Rightarrow> do {
       p \<leftarrow> load a;
       case p of
         Elems xs \<Rightarrow> do {
           b \<leftarrow> alloc (Elems (replicate (length xs) (Ref None)));
           fill c b 0 xs;
           State_Monad.return (Ref (Some b))
         }
       | _ \<Rightarrow> State_Monad.return v
     }
   | _ \<Rightarrow> State_Monad.return v)"

text \<open>\<open>*out = make(map[string]T, len( *in))\<close>, then \<open>( *out)[key] = val\<close> for every entry.\<close>

fun fill_map :: "addr \<Rightarrow> (string \<times> gval) list \<Rightarrow> (heap, unit) state" where
  "fill_map b [] = State_Monad.return ()"
| "fill_map b ((k, v) # kvs) = do {
     o1 \<leftarrow> load b;
     (case o1 of Entries es \<Rightarrow> store b (Entries (AList.update k v es)) | _ \<Rightarrow> State_Monad.return ());
     fill_map b kvs
   }"

definition copy_map :: copier where
  "copy_map v = (case v of
     Ref (Some a) \<Rightarrow> do {
       p \<leftarrow> load a;
       case p of
         Entries kvs \<Rightarrow> do {
           b \<leftarrow> alloc (Entries []);
           fill_map b kvs;
           State_Monad.return (Ref (Some b))
         }
       | _ \<Rightarrow> State_Monad.return v
     }
   | _ \<Rightarrow> State_Monad.return v)"

text \<open>A guard \<open>in.F != nil\<close>.\<close>

definition if_set :: "copier \<Rightarrow> copier" where
  "if_set c v = (if v = Ref None then State_Monad.return v else c v)"

text \<open>\<open>*out = *in\<close>, then the listed fields are copied on their own.\<close>

definition field :: "string \<Rightarrow> gval \<Rightarrow> gval" where
  "field f v = (case v of Fields fs \<Rightarrow> fs f | _ \<Rightarrow> v)"

definition set_field :: "string \<Rightarrow> gval \<Rightarrow> gval \<Rightarrow> gval" where
  "set_field f x v = (case v of Fields fs \<Rightarrow> Fields (fs(f := x)) | _ \<Rightarrow> v)"

fun copy_fields :: "(string \<times> copier) list \<Rightarrow> gval \<Rightarrow> gval \<Rightarrow> (heap, gval) state" where
  "copy_fields [] inp out = State_Monad.return out"
| "copy_fields ((f, c) # cs) inp out = do {
     x \<leftarrow> c (field f inp);
     copy_fields cs inp (set_field f x out)
   }"

definition copy_struct :: "(string \<times> copier) list \<Rightarrow> copier" where
  "copy_struct cs inp = copy_fields cs inp inp"

section \<open>Deep copiers\<close>

text \<open>
  A copier of a type only allocates, and answers a value that stands for the same with fresh addresses only.
\<close>

definition copier_of :: "gtype \<Rightarrow> copier \<Rightarrow> bool" where
  "copier_of ty c \<longleftrightarrow> (\<forall>h v t A v' h'. den h ty v t A \<longrightarrow> run_state (c v) h = (v', h') \<longrightarrow>
     (\<exists>ext A'. h' = h @ ext \<and> den h' ty v' t A' \<and> A' \<subseteq> {length h..<length h'}))"

named_theorems copiers \<open>deep copiers of the types\<close>

lemma copier_ofD:
  assumes "copier_of ty c" "den h ty v t A"
  obtains v' ext A' where "run_state (c v) h = (v', h @ ext)" "den (h @ ext) ty v' t A'" "A' \<subseteq> {length h..<length (h @ ext)}"
  using assms unfolding copier_of_def by (metis surj_pair)

text \<open>Types without references.\<close>

fun flat :: "gtype \<Rightarrow> bool" where
  "flat TScalar = True"
| "flat (TStruct fs) = (\<forall>(n, ty)\<in>set fs. flat ty)"
| "flat _ = False"

lemma flat_den: "den h ty v t A \<Longrightarrow> flat ty \<Longrightarrow> A = {}"
proof (induction rule: den.induct)
  case (den_struct fs v t G A)
  then show ?case by auto
qed auto

lemma flat_anywhere: "den h ty v t A \<Longrightarrow> flat ty \<Longrightarrow> den h2 ty v t {}"
  using flat_den den_frame by fastforce

lemma copier_assign [copiers]: "flat ty \<Longrightarrow> copier_of ty assign"
  unfolding copier_of_def assign_def using flat_anywhere by fastforce

lemma copier_if_set [copiers]: "copier_of ty c \<Longrightarrow> copier_of ty (if_set c)"
  unfolding copier_of_def if_set_def by (auto elim: den.cases intro: den_nil_ptr den_nil_slice den_nil_map)

text \<open>The cell a copy is built in can be filled afterwards: what was copied does not look at it.\<close>

lemma den_refill:
  assumes "den (h @ c # ext) ty v t A" "A \<subseteq> {Suc (length h)..<length (h @ c # ext)}"
  shows "den (h @ c' # ext @ ext') ty v t A"
  using assms by (intro den_frame [OF assms(1)]) (auto simp: nth_append nth_Cons')

lemma copier_ptr [copiers]:
  assumes "copier_of ty c"
  shows "copier_of (TPtr ty) (copy_ptr c)"
  unfolding copier_of_def
proof (intro allI impI)
  fix h v t A v' h'
  assume v: "den h (TPtr ty) v t A" and run: "run_state (copy_ptr c v) h = (v', h')"
  from v show "\<exists>ext A'. h' = h @ ext \<and> den h' (TPtr ty) v' t A' \<and> A' \<subseteq> {length h..<length h'}"
  proof (cases rule: den_ptr_cases)
    case (ptr a x u A0)
    have "den (h @ [Pointee (Ref None)]) ty x u A0" by (rule den_grows [OF ptr(6)])
    from copier_ofD [OF assms this] obtain y ext B where y: "run_state (c x) (h @ [Pointee (Ref None)]) = (y, h @ Pointee (Ref None) # ext)"
      "den (h @ Pointee (Ref None) # ext) ty y u B" "B \<subseteq> {Suc (length h)..<length (h @ Pointee (Ref None) # ext)}"
      by auto
    have r: "v' = Ref (Some (length h))" "h' = h @ Pointee y # ext"
      using run ptr y(1) by (simp_all add: copy_ptr_def nth_append)
    have "den h' ty y u B" using den_refill [OF y(2,3), of "Pointee y" "[]"] r by simp
    then have "den h' (TPtr ty) v' t (insert (length h) B)" unfolding r(1) ptr(2) by (intro den_ptr) (simp_all add: r)
    with y(3) r show ?thesis by (intro exI [of _ "Pointee y # ext"] exI [of _ "insert (length h) B"]) auto
  qed (use run in \<open>auto simp: copy_ptr_def intro: den_nil_ptr den_nil_slice den_nil_map\<close>)
qed

lemma fill_copies:
  assumes "copier_of ty c" "length ys = k + length xs" "\<forall>i<length xs. den h ty (xs ! i) (ds ! (k + i)) (F i)"
    and "\<forall>i<k. den (h @ Elems ys # ext) ty (ys ! i) (ds ! i) (B i) \<and> B i \<subseteq> {Suc (length h)..<length (h @ Elems ys # ext)}"
  shows "\<exists>ys' ext' B'. run_state (fill c (length h) k xs) (h @ Elems ys # ext) = ((), h @ Elems ys' # ext') \<and> length ys' = length ys \<and>
     (\<forall>i<length ys. den (h @ Elems ys' # ext') ty (ys' ! i) (ds ! i) (B' i) \<and>
        B' i \<subseteq> {Suc (length h)..<length (h @ Elems ys' # ext')})"
  using assms(2-)
proof (induction xs arbitrary: k ys ext F B)
  case Nil
  then show ?case by auto
next
  case (Cons x xs)
  have "den (h @ Elems ys # ext) ty x (ds ! k) (F 0)"
    using Cons.prems(2) [rule_format, of 0] by (intro den_grows) simp
  from copier_ofD [OF assms(1) this] obtain y e A where y: "run_state (c x) (h @ Elems ys # ext) = (y, h @ Elems ys # ext @ e)"
    "den (h @ Elems ys # ext @ e) ty y (ds ! k) A" "A \<subseteq> {length (h @ Elems ys # ext)..<length (h @ Elems ys # ext @ e)}"
    by (simp only: append_assoc append_Cons) blast
  have A: "A \<subseteq> {Suc (length h)..<length (h @ Elems ys # ext @ e)}" using y(3) by auto
  let ?h = "h @ Elems (ys[k := y]) # ext @ e"
  have "den ?h ty (ys[k := y] ! i) (ds ! i) ((B(k := A)) i) \<and> (B(k := A)) i \<subseteq> {Suc (length h)..<length ?h}" if "i < Suc k" for i
  proof (cases "i = k")
    case True
    then show ?thesis using den_refill [OF y(2) A, of _ "[]"] A Cons.prems(1) by simp
  next
    case False
    then have "i < k" using that by simp
    with Cons.prems(3) have i: "den (h @ Elems ys # ext) ty (ys ! i) (ds ! i) (B i)" "B i \<subseteq> {Suc (length h)..<length (h @ Elems ys # ext)}"
      by auto
    from den_refill [OF this, of "Elems (ys[k := y])" e] i(2) False show ?thesis by auto
  qed
  moreover have "\<forall>i<length xs. den h ty (xs ! i) (ds ! (Suc k + i)) (F (Suc i))" using Cons.prems(2) by auto
  ultimately obtain ys' ext' B' where "run_state (fill c (length h) (Suc k) xs) ?h = ((), h @ Elems ys' # ext')" "length ys' = length (ys[k := y])"
    "\<forall>i<length (ys[k := y]). den (h @ Elems ys' # ext') ty (ys' ! i) (ds ! i) (B' i) \<and>
        B' i \<subseteq> {Suc (length h)..<length (h @ Elems ys' # ext')}"
    using Cons.IH [of "ys[k := y]" "Suc k" "\<lambda>i. F (Suc i)" "ext @ e" "B(k := A)"] Cons.prems(1) by auto
  with y(1) show ?case by (intro exI [of _ ys'] exI [of _ ext'] exI [of _ B']) (simp add: list_update_append)
qed

lemma copier_slice [copiers]:
  assumes "copier_of ty c"
  shows "copier_of (TSlice ty) (copy_slice c)"
  unfolding copier_of_def
proof (intro allI impI)
  fix h v t A v' h'
  assume v: "den h (TSlice ty) v t A" and run: "run_state (copy_slice c v) h = (v', h')"
  from v show "\<exists>ext A'. h' = h @ ext \<and> den h' (TSlice ty) v' t A' \<and> A' \<subseteq> {length h..<length h'}"
  proof (cases rule: den_slice_cases)
    case (slice a xs ts F)
    obtain ys ext B where y: "run_state (fill c (length h) 0 xs) (h @ [Elems (replicate (length xs) (Ref None))]) = ((), h @ Elems ys # ext)"
      "length ys = length xs" "\<forall>i<length xs. den (h @ Elems ys # ext) ty (ys ! i) (ts ! i) (B i) \<and>
        B i \<subseteq> {Suc (length h)..<length (h @ Elems ys # ext)}"
      using fill_copies [OF assms, of "replicate (length xs) (Ref None)" 0 xs h ts F "[]"] slice by auto
    have r: "v' = Ref (Some (length h))" "h' = h @ Elems ys # ext"
      using run slice y(1) by (simp_all add: copy_slice_def)
    have "den h' (TSlice ty) v' t (insert (length h) (\<Union>i<length ys. B i))"
      unfolding r(1) slice(2) by (rule den_slice [where F = B and vs = ys]) (use y slice in \<open>simp_all add: r\<close>)
    with y(2,3) r show ?thesis
      by (intro exI [of _ "Elems ys # ext"] exI [of _ "insert (length h) (\<Union>i<length ys. B i)"]) fastforce
  qed (use run in \<open>auto simp: copy_slice_def intro: den_nil_ptr den_nil_slice den_nil_map\<close>)
qed

lemma fill_map_appends:
  "distinct (map fst (es @ kvs)) \<Longrightarrow> run_state (fill_map (length h) kvs) (h @ [Entries es]) = ((), h @ [Entries (es @ kvs)])"
proof (induction kvs arbitrary: es)
  case (Cons kv kvs)
  obtain k v where kv: "kv = (k, v)" by (cases kv)
  have "AList.update k v es = es @ [(k, v)]" if "k \<notin> fst ` set es" for es :: "(string \<times> gval) list"
    using that by (induction es) auto
  with Cons kv show ?case by simp
qed simp

lemma copier_map [copiers]:
  assumes "flat ty"
  shows "copier_of (TMap ty) copy_map"
  unfolding copier_of_def
proof (intro allI impI)
  fix h v t A v' h'
  assume v: "den h (TMap ty) v t A" and run: "run_state (copy_map v) h = (v', h')"
  from v show "\<exists>ext A'. h' = h @ ext \<and> den h' (TMap ty) v' t A' \<and> A' \<subseteq> {length h..<length h'}"
  proof (cases rule: den_map_cases)
    case (entries a kvs ts F)
    have r: "v' = Ref (Some (length h))" "h' = h @ [Entries kvs]"
      using run entries fill_map_appends [of "[]" kvs h] by (simp_all add: copy_map_def)
    have "den h' (TMap ty) v' t {length h}"
      unfolding r(1) entries(2)
      by (rule den_map [where F = "\<lambda>_. {}"]) (use entries flat_anywhere [OF _ assms] in \<open>auto simp: r\<close>)
    with r show ?thesis by (intro exI [of _ "[Entries kvs]"] exI [of _ "{length h}"]) simp
  qed (use run in \<open>auto simp: copy_map_def intro: den_nil_map\<close>)
qed

text \<open>Copying fields: those in \<open>D\<close> have been copied, the others are still those of the input.\<close>

definition partly_copied ::
  "heap \<Rightarrow> heap \<Rightarrow> (string \<times> gtype) list \<Rightarrow> (string \<Rightarrow> gval) \<Rightarrow> (string \<Rightarrow> deep) \<Rightarrow> string set \<Rightarrow> (string \<Rightarrow> gval) \<Rightarrow>
   (string \<Rightarrow> addr set) \<Rightarrow> bool" where
  "partly_copied h ext fs v t D w B \<longleftrightarrow> (\<forall>(n, ty)\<in>set fs.
     if n \<in> D then den (h @ ext) ty (w n) (t n) (B n) \<and> B n \<subseteq> {length h..<length (h @ ext)} else w n = v n)"

lemma partly_copiedD:
  assumes "partly_copied h ext fs v t D w B" "(n, ty) \<in> set fs"
  shows "n \<in> D \<Longrightarrow> den (h @ ext) ty (w n) (t n) (B n) \<and> B n \<subseteq> {length h..<length (h @ ext)}" "n \<notin> D \<Longrightarrow> w n = v n"
  using assms unfolding partly_copied_def by fastforce+

lemma copy_fields_copies:
  assumes "\<forall>(n, ty)\<in>set fs. den h ty (v n) (t n) (G n)" "distinct (map fst fs)"
    and "list_all (\<lambda>(n, c). \<exists>ty. map_of fs n = Some ty \<and> copier_of ty c) cs" "partly_copied h ext fs v t D w B"
  shows "\<exists>w' ext' B'. run_state (copy_fields cs (Fields v) (Fields w)) (h @ ext) = (Fields w', h @ ext') \<and>
     partly_copied h ext' fs v t (D \<union> fst ` set cs) w' B'"
  using assms(3,4)
proof (induction cs arbitrary: ext D w B)
  case Nil
  then show ?case by auto
next
  case (Cons nc cs)
  obtain n c where nc: "nc = (n, c)" by (cases nc)
  with Cons.prems(1) obtain ty where ty: "map_of fs n = Some ty" "copier_of ty c" by auto
  then have "den (h @ ext) ty (v n) (t n) (G n)" using assms(1) by (auto dest!: map_of_SomeD intro: den_grows)
  from copier_ofD [OF ty(2) this] obtain x e A where x: "run_state (c (v n)) (h @ ext) = (x, h @ ext @ e)"
    "den (h @ ext @ e) ty x (t n) A" "A \<subseteq> {length (h @ ext)..<length (h @ ext @ e)}"
    by (simp only: append_assoc) blast
  have "partly_copied h (ext @ e) fs v t (insert n D) (w(n := x)) (B(n := A))"
    unfolding partly_copied_def
  proof (intro ballI, clarify)
    fix m ty' assume m: "(m, ty') \<in> set fs"
    show "if m \<in> insert n D then den (h @ ext @ e) ty' ((w(n := x)) m) (t m) ((B(n := A)) m) \<and>
        (B(n := A)) m \<subseteq> {length h..<length (h @ ext @ e)} else (w(n := x)) m = v m"
    proof (cases "m = n")
      case True
      then have "ty' = ty" using m ty(1) assms(2) by simp
      with True x(2,3) show ?thesis by auto
    next
      case False
      with Cons.prems(2) m show ?thesis
        using den_grows [of "h @ ext" ty' "w m" "t m" "B m" e] partly_copiedD [OF Cons.prems(2) m] by (fastforce simp: subset_iff)
    qed
  qed
  have "list_all (\<lambda>(n, c). \<exists>ty. map_of fs n = Some ty \<and> copier_of ty c) cs" using Cons.prems(1) nc by simp
  from Cons.IH [OF this \<open>partly_copied h (ext @ e) fs v t (insert n D) (w(n := x)) (B(n := A))\<close>] obtain w' ext' B' where
    "run_state (copy_fields cs (Fields v) (Fields (w(n := x)))) (h @ ext @ e) = (Fields w', h @ ext')"
    "partly_copied h ext' fs v t (insert n D \<union> fst ` set cs) w' B'"
    by blast
  moreover have "insert n D \<union> fst ` set cs = D \<union> fst ` set (nc # cs)" using nc by auto
  ultimately show ?case using nc x(1) by (intro exI [of _ w'] exI [of _ ext'] exI [of _ B']) (simp add: field_def set_field_def)
qed

lemma copier_struct:
  assumes "distinct (map fst fs)" "list_all (\<lambda>(n, c). \<exists>ty. map_of fs n = Some ty \<and> copier_of ty c) cs"
    and "list_all (\<lambda>(n, ty). n \<in> fst ` set cs \<or> flat ty) fs"
  shows "copier_of (TStruct fs) (copy_struct cs)"
  unfolding copier_of_def
proof (intro allI impI)
  fix h v t A v' h'
  assume v: "den h (TStruct fs) v t A" and run: "run_state (copy_struct cs v) h = (v', h')"
  from v show "\<exists>ext A'. h' = h @ ext \<and> den h' (TStruct fs) v' t A' \<and> A' \<subseteq> {length h..<length h'}"
  proof (cases rule: den_struct_cases)
    case (struct u tr G)
    have "partly_copied h [] fs u tr {} u G" by (simp add: partly_copied_def)
    from copy_fields_copies [OF struct(4) assms(1,2) this] obtain w ext B where
      w: "run_state (copy_fields cs (Fields u) (Fields u)) h = (Fields w, h @ ext)" "partly_copied h ext fs u tr (fst ` set cs) w B"
      by auto
    have r: "v' = Fields w" "h' = h @ ext" using run w(1) struct(1) by (simp_all add: copy_struct_def)
    define B' where "B' = (\<lambda>n. if n \<in> fst ` set cs then B n else {})"
    have d: "den h' ty (w n) (tr n) (B' n) \<and> B' n \<subseteq> {length h..<length h'}" if "(n, ty) \<in> set fs" for n ty
    proof (cases "n \<in> fst ` set cs")
      case True
      with partly_copiedD(1) [OF w(2) that True] show ?thesis by (simp add: r B'_def)
    next
      case False
      with assms(3) that have "flat ty" by (auto simp: list_all_iff)
      moreover have "w n = u n" by (rule partly_copiedD(2) [OF w(2) that False])
      ultimately show ?thesis using struct(4) that False flat_anywhere by (fastforce simp: B'_def)
    qed
    have "den h' (TStruct fs) v' t (\<Union>n\<in>fst ` set fs. B' n)"
      unfolding r(1) struct(2) by (rule den_struct) (use d in auto)
    moreover have "(\<Union>n\<in>fst ` set fs. B' n) \<subseteq> {length h..<length h'}" using d by fastforce
    ultimately show ?thesis using r(2) by blast
  qed
qed

text \<open>
  A copy is isolated from what it was made of: writes at the addresses of the one leave the other as it is.
\<close>

lemma copy_isolated:
  assumes "copier_of ty c" "den h ty v t A" "run_state (c v) h = (v', h')"
  shows "\<exists>A'. den h' ty v t A \<and> den h' ty v' t A' \<and> A \<inter> A' = {} \<and>
     (\<forall>h2. length h' \<le> length h2 \<and> (\<forall>a\<in>{..<length h'} - A'. h2 ! a = h' ! a) \<longrightarrow> den h2 ty v t A) \<and>
     (\<forall>h2. length h' \<le> length h2 \<and> (\<forall>a\<in>{..<length h'} - A. h2 ! a = h' ! a) \<longrightarrow> den h2 ty v' t A')"
proof -
  obtain ext A' where e: "h' = h @ ext" "den h' ty v' t A'" "A' \<subseteq> {length h..<length h'}"
    using assms unfolding copier_of_def by metis
  have b: "A \<subseteq> {..<length h}" by (rule den_bound [OF assms(2)])
  have disjoint: "A \<inter> A' = {}" using b e(3) by fastforce
  have v: "den h' ty v t A" unfolding e(1) by (rule den_grows [OF assms(2)])
  have "den h2 ty v t A" if "length h' \<le> length h2" "\<forall>a\<in>{..<length h'} - A'. h2 ! a = h' ! a" for h2
    by (rule den_frame [OF v]) (use b e(1) that disjoint in \<open>auto simp: disjoint_iff\<close>)
  moreover have "den h2 ty v' t A'" if "length h' \<le> length h2" "\<forall>a\<in>{..<length h'} - A. h2 ! a = h' ! a" for h2
    by (rule den_frame [OF e(2)]) (use e(3) that disjoint in \<open>auto simp: disjoint_iff subset_iff\<close>)
  ultimately show ?thesis using v e(2) disjoint by blast
qed

end
