(* ===== verification/Deep_Copy.thy ===== *)
theory Deep_Copy
  imports Go_Heap
begin

text \<open>
  The generated deep copies of \<open>src/api/v1alpha1/zz_generated.deepcopy.go\<close> over the heap of \<open>Go_Heap\<close>. A type is the
  declaration of its struct, a copy lists the fields it copies on their own after \<open>*out = *in\<close>; the receiver of \<open>DeepCopy\<close> and
  what it returns are pointers. The reconcilers copy every object before they change it, to have the base of a patch, and
  the objects they are given belong to a shared cache. That copying is the identity in the other theories rests on
  the isolation shown here.
\<close>

section \<open>The types\<close>

text \<open>
  Types of the Kubernetes libraries and their copies are parameters. What is used of them, as documented: their deep
  copies are deep copies. \<open>TypeMeta\<close> and \<open>Duration\<close> are plain structs.
\<close>

record lib =
  lt_ObjectMeta :: gtype
  lc_ObjectMeta :: copier
  lt_ListMeta :: gtype
  lc_ListMeta :: copier
  lt_Time :: gtype
  lc_Time :: copier
  lc_Time_DeepCopy :: copier
  lt_Condition :: gtype
  lc_Condition :: copier
  lt_EnvVar :: gtype
  lc_EnvVar :: copier
  lt_Resources :: gtype
  lc_Resources :: copier

definition library :: "lib \<Rightarrow> bool" where
  "library L \<longleftrightarrow> copier_of (lt_ObjectMeta L) (lc_ObjectMeta L) \<and> copier_of (lt_ListMeta L) (lc_ListMeta L) \<and>
     copier_of (lt_Time L) (lc_Time L) \<and> copier_of (TPtr (lt_Time L)) (lc_Time_DeepCopy L) \<and>
     copier_of (lt_Condition L) (lc_Condition L) \<and> copier_of (lt_EnvVar L) (lc_EnvVar L) \<and>
     copier_of (lt_Resources L) (lc_Resources L)"

definition TypeMeta_type :: gtype where
  "TypeMeta_type = TStruct [(''Kind'', TScalar), (''APIVersion'', TScalar)]"

definition Duration_type :: gtype where
  "Duration_type = TStruct [(''Duration'', TScalar)]"

lemma plain_flat [copiers]: "flat TypeMeta_type" "flat Duration_type"
  by (simp_all add: TypeMeta_type_def Duration_type_def)

definition AgentOpDispatchPayload_type :: "gtype" where
  "AgentOpDispatchPayload_type = TStruct [(''OpID'', TScalar), (''TargetID'', TScalar), (''EnvID'', TScalar), (''OpType'', TScalar),
     (''Detail'', TScalar), (''Namespace'', TScalar), (''Kubeconfig'', TSlice TScalar)]"

definition AgentOpLogPayload_type :: "gtype" where
  "AgentOpLogPayload_type = TStruct [(''OpID'', TScalar), (''Stream'', TScalar), (''Chunk'', TScalar)]"

definition AgentOpStatusPayload_type :: "gtype" where
  "AgentOpStatusPayload_type = TStruct [(''OpID'', TScalar), (''Status'', TScalar), (''Message'', TScalar)]"

definition RepoSource_type :: "gtype" where
  "RepoSource_type = TStruct [(''URL'', TScalar), (''Ref'', TScalar), (''Path'', TScalar), (''SecretRef'', TScalar)]"

definition RetryPolicy_type :: "gtype" where
  "RetryPolicy_type = TStruct [(''MaxRetries'', TScalar), (''Backoff'', Duration_type)]"

definition ApprovalConfig_type :: "gtype" where
  "ApprovalConfig_type = TStruct [(''RequiredApprovals'', TScalar), (''AllowedApprovers'', TSlice TScalar), (''TimeoutSeconds'', TScalar)]"

definition PauseStep_type :: "gtype" where
  "PauseStep_type = TStruct [(''Duration'', TPtr Duration_type)]"

definition CanaryStep_type :: "gtype" where
  "CanaryStep_type = TStruct [(''SetWeight'', TPtr TScalar), (''Pause'', TPtr PauseStep_type)]"

definition HealthCheckSpec_type :: "gtype" where
  "HealthCheckSpec_type = TStruct [(''Type'', TScalar), (''IntervalSeconds'', TScalar), (''FailureThreshold'', TScalar),
     (''HTTPPath'', TScalar), (''PrometheusQueryExpr'', TScalar), (''PrometheusThreshold'', TScalar)]"

definition TrafficRoutingSpec_type :: "gtype" where
  "TrafficRoutingSpec_type = TStruct [(''Type'', TScalar), (''IngressRef'', TScalar)]"

definition RolloutSpec_type :: "gtype" where
  "RolloutSpec_type = TStruct [(''WorkloadRef'', TScalar), (''Replicas'', TPtr TScalar), (''StableImage'', TScalar),
     (''CanaryImage'', TScalar), (''Steps'', TSlice CanaryStep_type),
     (''HealthCheck'', HealthCheckSpec_type), (''TrafficRouting'', TrafficRoutingSpec_type),
     (''AutoRollback'', TScalar)]"

definition ChartSource_type :: "gtype" where
  "ChartSource_type = TStruct [(''RepoURL'', TScalar), (''Name'', TScalar), (''Version'', TScalar)]"

definition ManifestSource_type :: "gtype" where
  "ManifestSource_type = TStruct [(''Content'', TScalar)]"

definition ReleaseSpec_type :: "gtype" where
  "ReleaseSpec_type = TStruct [(''Source'', TScalar), (''Chart'', TPtr ChartSource_type), (''Manifest'', TPtr ManifestSource_type),
     (''Values'', TMap TScalar), (''TargetNamespace'', TScalar), (''Canary'', TPtr RolloutSpec_type)]"

definition PipelineTaskSpec_type :: "gtype" where
  "PipelineTaskSpec_type = TStruct [(''Name'', TScalar), (''Type'', TScalar), (''Stage'', TScalar), (''ExecutionMode'', TScalar),
     (''Image'', TScalar), (''ScriptPath'', TScalar), (''ScriptArgs'', TSlice TScalar),
     (''Command'', TSlice TScalar), (''Args'', TSlice TScalar), (''Repo'', TPtr RepoSource_type),
     (''Produces'', TSlice TScalar), (''Consumes'', TSlice TScalar), (''DependsOn'', TSlice TScalar),
     (''Privileged'', TScalar), (''RetryPolicy'', TPtr RetryPolicy_type), (''TimeoutSeconds'', TScalar),
     (''ApprovalConfig'', TPtr ApprovalConfig_type), (''RolloutSpec'', TPtr RolloutSpec_type),
     (''ReleaseSpec'', TPtr ReleaseSpec_type)]"

definition Param_type :: "gtype" where
  "Param_type = TStruct [(''Name'', TScalar), (''Value'', TScalar)]"

definition PipelineRunSpec_type :: "gtype" where
  "PipelineRunSpec_type = TStruct [(''PipelineRef'', TScalar), (''Tasks'', TSlice PipelineTaskSpec_type), (''Repo'', TPtr RepoSource_type),
     (''Params'', TSlice Param_type), (''TenantID'', TScalar), (''ProjectID'', TScalar),
     (''EnvironmentID'', TScalar), (''TargetNamespace'', TScalar), (''ServiceAccountName'', TScalar),
     (''TimeoutSeconds'', TScalar), (''TriggeredBy'', TScalar)]"

definition ApplyPipelineRunPayload_type :: "gtype" where
  "ApplyPipelineRunPayload_type = TStruct [(''Name'', TScalar), (''Namespace'', TScalar), (''Spec'', PipelineRunSpec_type),
     (''PublishVersion'', TScalar)]"

definition ApprovalStatus_type :: "lib \<Rightarrow> gtype" where
  "ApprovalStatus_type L = TStruct [(''TaskName'', TScalar), (''RequestedAt'', lt_Time L), (''RequiredCount'', TScalar),
     (''ApprovedBy'', TSlice TScalar), (''RejectedBy'', TScalar)]"

definition ApproveTaskPayload_type :: "gtype" where
  "ApproveTaskPayload_type = TStruct [(''PipelineRunName'', TScalar), (''TaskName'', TScalar), (''Approver'', TScalar), (''Rejected'', TScalar)]"

definition CancelPipelineRunPayload_type :: "gtype" where
  "CancelPipelineRunPayload_type = TStruct [(''PipelineRunName'', TScalar), (''Namespace'', TScalar), (''Operator'', TScalar)]"

definition LogChunkPayload_type :: "gtype" where
  "LogChunkPayload_type = TStruct [(''TargetID'', TScalar), (''PipelineRunName'', TScalar), (''TaskName'', TScalar), (''Stream'', TScalar),
     (''Chunk'', TScalar)]"

definition Message_type :: "gtype" where
  "Message_type = TStruct [(''Type'', TScalar), (''Payload'', TSlice TScalar)]"

definition RolloutStatusSummary_type :: "gtype" where
  "RolloutStatusSummary_type = TStruct [(''Phase'', TScalar), (''CurrentStepIndex'', TScalar), (''CurrentWeight'', TScalar),
     (''WorkloadRef'', TScalar), (''Message'', TScalar)]"

definition TaskRunStatusSummary_type :: "lib \<Rightarrow> gtype" where
  "TaskRunStatusSummary_type L = TStruct [(''Name'', TScalar), (''TaskRunRef'', TScalar), (''Phase'', TScalar), (''RetryCount'', TScalar),
     (''StartTime'', TPtr (lt_Time L)), (''CompletionTime'', TPtr (lt_Time L)), (''Message'', TScalar),
     (''Rollout'', TPtr RolloutStatusSummary_type)]"

definition PipelineRunStatus_type :: "lib \<Rightarrow> gtype" where
  "PipelineRunStatus_type L = TStruct [(''Phase'', TScalar), (''StartTime'', TPtr (lt_Time L)), (''CompletionTime'', TPtr (lt_Time L)),
     (''Tasks'', TSlice (TaskRunStatusSummary_type L)), (''CurrentApproval'', TPtr (ApprovalStatus_type L)),
     (''ObservedGeneration'', TScalar), (''Message'', TScalar), (''Conditions'', TSlice (lt_Condition L))]"

definition PipelineRun_type :: "lib \<Rightarrow> gtype" where
  "PipelineRun_type L = TStruct [(''TypeMeta'', TypeMeta_type), (''ObjectMeta'', lt_ObjectMeta L), (''Spec'', PipelineRunSpec_type),
     (''Status'', PipelineRunStatus_type L)]"

definition PipelineRunList_type :: "lib \<Rightarrow> gtype" where
  "PipelineRunList_type L = TStruct [(''TypeMeta'', TypeMeta_type), (''ListMeta'', lt_ListMeta L), (''Items'', TSlice (PipelineRun_type L))]"

definition RerunTaskPayload_type :: "gtype" where
  "RerunTaskPayload_type = TStruct [(''PipelineRunName'', TScalar), (''TaskName'', TScalar), (''Operator'', TScalar)]"

definition RolloutStatus_type :: "lib \<Rightarrow> gtype" where
  "RolloutStatus_type L = TStruct [(''Phase'', TScalar), (''CurrentStepIndex'', TScalar), (''CurrentWeight'', TScalar),
     (''StableReplicas'', TScalar), (''CanaryReplicas'', TScalar), (''ConsecutiveFailures'', TScalar),
     (''LastHealthCheckTime'', TPtr (lt_Time L)), (''StartTime'', TPtr (lt_Time L)),
     (''CompletionTime'', TPtr (lt_Time L)), (''Message'', TScalar), (''Conditions'', TSlice (lt_Condition L))]"

definition Rollout_type :: "lib \<Rightarrow> gtype" where
  "Rollout_type L = TStruct [(''TypeMeta'', TypeMeta_type), (''ObjectMeta'', lt_ObjectMeta L), (''Spec'', RolloutSpec_type),
     (''Status'', RolloutStatus_type L)]"

definition RolloutControlPayload_type :: "gtype" where
  "RolloutControlPayload_type = TStruct [(''PipelineRunName'', TScalar), (''TaskName'', TScalar), (''Action'', TScalar), (''Operator'', TScalar)]"

definition RolloutList_type :: "lib \<Rightarrow> gtype" where
  "RolloutList_type L = TStruct [(''TypeMeta'', TypeMeta_type), (''ListMeta'', lt_ListMeta L), (''Items'', TSlice (Rollout_type L))]"

definition StatusUpdatePayload_type :: "lib \<Rightarrow> gtype" where
  "StatusUpdatePayload_type L = TStruct [(''TargetID'', TScalar), (''PipelineRunName'', TScalar), (''PipelineRunNamespace'', TScalar),
     (''Phase'', TScalar), (''Message'', TScalar), (''StartTime'', TPtr (lt_Time L)),
     (''CompletionTime'', TPtr (lt_Time L)), (''Tasks'', TSlice (TaskRunStatusSummary_type L))]"

definition TaskRunSpec_type :: "lib \<Rightarrow> gtype" where
  "TaskRunSpec_type L = TStruct [(''PipelineRunRef'', TScalar), (''TaskName'', TScalar), (''Type'', TScalar), (''Image'', TScalar),
     (''ScriptPath'', TScalar), (''ScriptArgs'', TSlice TScalar), (''Command'', TSlice TScalar),
     (''Args'', TSlice TScalar), (''Repo'', TPtr RepoSource_type), (''Produces'', TSlice TScalar),
     (''Consumes'', TSlice TScalar), (''Env'', TSlice (lt_EnvVar L)), (''Resources'', lt_Resources L),
     (''Namespace'', TScalar), (''ServiceAccountName'', TScalar), (''RetryPolicy'', TPtr RetryPolicy_type),
     (''TimeoutSeconds'', TScalar), (''ApprovalConfig'', TPtr ApprovalConfig_type),
     (''RolloutSpec'', TPtr RolloutSpec_type), (''ReleaseSpec'', TPtr ReleaseSpec_type),
     (''Params'', TSlice Param_type), (''Privileged'', TScalar)]"

definition TaskRunStatus_type :: "lib \<Rightarrow> gtype" where
  "TaskRunStatus_type L = TStruct [(''Phase'', TScalar), (''JobRef'', TScalar), (''RolloutRef'', TScalar), (''PodName'', TScalar),
     (''StartTime'', TPtr (lt_Time L)), (''CompletionTime'', TPtr (lt_Time L)), (''RetryCount'', TScalar),
     (''ExitCode'', TPtr TScalar), (''Message'', TScalar), (''LogsRef'', TScalar),
     (''Approval'', TPtr (ApprovalStatus_type L)), (''Conditions'', TSlice (lt_Condition L))]"

definition TaskRun_type :: "lib \<Rightarrow> gtype" where
  "TaskRun_type L = TStruct [(''TypeMeta'', TypeMeta_type), (''ObjectMeta'', lt_ObjectMeta L), (''Spec'', TaskRunSpec_type L),
     (''Status'', TaskRunStatus_type L)]"

definition TaskRunList_type :: "lib \<Rightarrow> gtype" where
  "TaskRunList_type L = TStruct [(''TypeMeta'', TypeMeta_type), (''ListMeta'', lt_ListMeta L), (''Items'', TSlice (TaskRun_type L))]"

section \<open>The generated functions\<close>

definition AgentOpDispatchPayload_DeepCopyInto :: "copier" where
  "AgentOpDispatchPayload_DeepCopyInto = copy_struct [(''Kubeconfig'', copy_slice assign)]"

definition AgentOpDispatchPayload_DeepCopy :: "copier" where
  "AgentOpDispatchPayload_DeepCopy = copy_ptr AgentOpDispatchPayload_DeepCopyInto"

definition AgentOpLogPayload_DeepCopyInto :: "copier" where
  "AgentOpLogPayload_DeepCopyInto = copy_struct []"

definition AgentOpLogPayload_DeepCopy :: "copier" where
  "AgentOpLogPayload_DeepCopy = copy_ptr AgentOpLogPayload_DeepCopyInto"

definition AgentOpStatusPayload_DeepCopyInto :: "copier" where
  "AgentOpStatusPayload_DeepCopyInto = copy_struct []"

definition AgentOpStatusPayload_DeepCopy :: "copier" where
  "AgentOpStatusPayload_DeepCopy = copy_ptr AgentOpStatusPayload_DeepCopyInto"

definition RepoSource_DeepCopyInto :: "copier" where
  "RepoSource_DeepCopyInto = copy_struct []"

definition RepoSource_DeepCopy :: "copier" where
  "RepoSource_DeepCopy = copy_ptr RepoSource_DeepCopyInto"

definition RetryPolicy_DeepCopyInto :: "copier" where
  "RetryPolicy_DeepCopyInto = copy_struct [(''Backoff'', assign)]"

definition RetryPolicy_DeepCopy :: "copier" where
  "RetryPolicy_DeepCopy = copy_ptr RetryPolicy_DeepCopyInto"

definition ApprovalConfig_DeepCopyInto :: "copier" where
  "ApprovalConfig_DeepCopyInto = copy_struct [(''AllowedApprovers'', copy_slice assign)]"

definition ApprovalConfig_DeepCopy :: "copier" where
  "ApprovalConfig_DeepCopy = copy_ptr ApprovalConfig_DeepCopyInto"

definition PauseStep_DeepCopyInto :: "copier" where
  "PauseStep_DeepCopyInto = copy_struct [(''Duration'', copy_ptr assign)]"

definition PauseStep_DeepCopy :: "copier" where
  "PauseStep_DeepCopy = copy_ptr PauseStep_DeepCopyInto"

definition CanaryStep_DeepCopyInto :: "copier" where
  "CanaryStep_DeepCopyInto = copy_struct [(''SetWeight'', copy_ptr assign), (''Pause'', copy_ptr PauseStep_DeepCopyInto)]"

definition CanaryStep_DeepCopy :: "copier" where
  "CanaryStep_DeepCopy = copy_ptr CanaryStep_DeepCopyInto"

definition HealthCheckSpec_DeepCopyInto :: "copier" where
  "HealthCheckSpec_DeepCopyInto = copy_struct []"

definition HealthCheckSpec_DeepCopy :: "copier" where
  "HealthCheckSpec_DeepCopy = copy_ptr HealthCheckSpec_DeepCopyInto"

definition TrafficRoutingSpec_DeepCopyInto :: "copier" where
  "TrafficRoutingSpec_DeepCopyInto = copy_struct []"

definition TrafficRoutingSpec_DeepCopy :: "copier" where
  "TrafficRoutingSpec_DeepCopy = copy_ptr TrafficRoutingSpec_DeepCopyInto"

definition RolloutSpec_DeepCopyInto :: "copier" where
  "RolloutSpec_DeepCopyInto = copy_struct [(''Replicas'', copy_ptr assign), (''Steps'', copy_slice CanaryStep_DeepCopyInto),
     (''HealthCheck'', assign), (''TrafficRouting'', assign)]"

definition RolloutSpec_DeepCopy :: "copier" where
  "RolloutSpec_DeepCopy = copy_ptr RolloutSpec_DeepCopyInto"

definition ChartSource_DeepCopyInto :: "copier" where
  "ChartSource_DeepCopyInto = copy_struct []"

definition ChartSource_DeepCopy :: "copier" where
  "ChartSource_DeepCopy = copy_ptr ChartSource_DeepCopyInto"

definition ManifestSource_DeepCopyInto :: "copier" where
  "ManifestSource_DeepCopyInto = copy_struct []"

definition ManifestSource_DeepCopy :: "copier" where
  "ManifestSource_DeepCopy = copy_ptr ManifestSource_DeepCopyInto"

definition ReleaseSpec_DeepCopyInto :: "copier" where
  "ReleaseSpec_DeepCopyInto = copy_struct [(''Chart'', copy_ptr assign), (''Manifest'', copy_ptr assign), (''Values'', copy_map),
     (''Canary'', copy_ptr RolloutSpec_DeepCopyInto)]"

definition ReleaseSpec_DeepCopy :: "copier" where
  "ReleaseSpec_DeepCopy = copy_ptr ReleaseSpec_DeepCopyInto"

definition PipelineTaskSpec_DeepCopyInto :: "copier" where
  "PipelineTaskSpec_DeepCopyInto = copy_struct [(''ScriptArgs'', copy_slice assign), (''Command'', copy_slice assign), (''Args'', copy_slice assign),
     (''Repo'', copy_ptr assign), (''Produces'', copy_slice assign), (''Consumes'', copy_slice assign),
     (''DependsOn'', copy_slice assign), (''RetryPolicy'', copy_ptr assign),
     (''ApprovalConfig'', copy_ptr ApprovalConfig_DeepCopyInto),
     (''RolloutSpec'', copy_ptr RolloutSpec_DeepCopyInto),
     (''ReleaseSpec'', copy_ptr ReleaseSpec_DeepCopyInto)]"

definition PipelineTaskSpec_DeepCopy :: "copier" where
  "PipelineTaskSpec_DeepCopy = copy_ptr PipelineTaskSpec_DeepCopyInto"

definition Param_DeepCopyInto :: "copier" where
  "Param_DeepCopyInto = copy_struct []"

definition Param_DeepCopy :: "copier" where
  "Param_DeepCopy = copy_ptr Param_DeepCopyInto"

definition PipelineRunSpec_DeepCopyInto :: "copier" where
  "PipelineRunSpec_DeepCopyInto = copy_struct [(''Tasks'', copy_slice PipelineTaskSpec_DeepCopyInto), (''Repo'', copy_ptr assign),
     (''Params'', copy_slice assign)]"

definition PipelineRunSpec_DeepCopy :: "copier" where
  "PipelineRunSpec_DeepCopy = copy_ptr PipelineRunSpec_DeepCopyInto"

definition ApplyPipelineRunPayload_DeepCopyInto :: "copier" where
  "ApplyPipelineRunPayload_DeepCopyInto = copy_struct [(''Spec'', PipelineRunSpec_DeepCopyInto)]"

definition ApplyPipelineRunPayload_DeepCopy :: "copier" where
  "ApplyPipelineRunPayload_DeepCopy = copy_ptr ApplyPipelineRunPayload_DeepCopyInto"

definition ApprovalStatus_DeepCopyInto :: "lib \<Rightarrow> copier" where
  "ApprovalStatus_DeepCopyInto L = copy_struct [(''RequestedAt'', lc_Time L), (''ApprovedBy'', copy_slice assign)]"

definition ApprovalStatus_DeepCopy :: "lib \<Rightarrow> copier" where
  "ApprovalStatus_DeepCopy L = copy_ptr (ApprovalStatus_DeepCopyInto L)"

definition ApproveTaskPayload_DeepCopyInto :: "copier" where
  "ApproveTaskPayload_DeepCopyInto = copy_struct []"

definition ApproveTaskPayload_DeepCopy :: "copier" where
  "ApproveTaskPayload_DeepCopy = copy_ptr ApproveTaskPayload_DeepCopyInto"

definition CancelPipelineRunPayload_DeepCopyInto :: "copier" where
  "CancelPipelineRunPayload_DeepCopyInto = copy_struct []"

definition CancelPipelineRunPayload_DeepCopy :: "copier" where
  "CancelPipelineRunPayload_DeepCopy = copy_ptr CancelPipelineRunPayload_DeepCopyInto"

definition LogChunkPayload_DeepCopyInto :: "copier" where
  "LogChunkPayload_DeepCopyInto = copy_struct []"

definition LogChunkPayload_DeepCopy :: "copier" where
  "LogChunkPayload_DeepCopy = copy_ptr LogChunkPayload_DeepCopyInto"

definition Message_DeepCopyInto :: "copier" where
  "Message_DeepCopyInto = copy_struct [(''Payload'', copy_slice assign)]"

definition Message_DeepCopy :: "copier" where
  "Message_DeepCopy = copy_ptr Message_DeepCopyInto"

definition RolloutStatusSummary_DeepCopyInto :: "copier" where
  "RolloutStatusSummary_DeepCopyInto = copy_struct []"

definition RolloutStatusSummary_DeepCopy :: "copier" where
  "RolloutStatusSummary_DeepCopy = copy_ptr RolloutStatusSummary_DeepCopyInto"

definition TaskRunStatusSummary_DeepCopyInto :: "lib \<Rightarrow> copier" where
  "TaskRunStatusSummary_DeepCopyInto L = copy_struct [(''StartTime'', if_set (lc_Time_DeepCopy L)), (''CompletionTime'', if_set (lc_Time_DeepCopy L)),
     (''Rollout'', copy_ptr assign)]"

definition TaskRunStatusSummary_DeepCopy :: "lib \<Rightarrow> copier" where
  "TaskRunStatusSummary_DeepCopy L = copy_ptr (TaskRunStatusSummary_DeepCopyInto L)"

definition PipelineRunStatus_DeepCopyInto :: "lib \<Rightarrow> copier" where
  "PipelineRunStatus_DeepCopyInto L = copy_struct [(''StartTime'', if_set (lc_Time_DeepCopy L)), (''CompletionTime'', if_set (lc_Time_DeepCopy L)),
     (''Tasks'', copy_slice (TaskRunStatusSummary_DeepCopyInto L)),
     (''CurrentApproval'', copy_ptr (ApprovalStatus_DeepCopyInto L)),
     (''Conditions'', copy_slice (lc_Condition L))]"

definition PipelineRunStatus_DeepCopy :: "lib \<Rightarrow> copier" where
  "PipelineRunStatus_DeepCopy L = copy_ptr (PipelineRunStatus_DeepCopyInto L)"

definition PipelineRun_DeepCopyInto :: "lib \<Rightarrow> copier" where
  "PipelineRun_DeepCopyInto L = copy_struct [(''TypeMeta'', assign), (''ObjectMeta'', lc_ObjectMeta L), (''Spec'', PipelineRunSpec_DeepCopyInto),
     (''Status'', PipelineRunStatus_DeepCopyInto L)]"

definition PipelineRun_DeepCopy :: "lib \<Rightarrow> copier" where
  "PipelineRun_DeepCopy L = copy_ptr (PipelineRun_DeepCopyInto L)"

definition PipelineRun_DeepCopyObject :: "lib \<Rightarrow> gval \<Rightarrow> (heap, gval option) state" where
  "PipelineRun_DeepCopyObject L v = do {
     c \<leftarrow> PipelineRun_DeepCopy L v;
     State_Monad.return (if c \<noteq> Ref None then Some c else None)
   }"

definition PipelineRunList_DeepCopyInto :: "lib \<Rightarrow> copier" where
  "PipelineRunList_DeepCopyInto L = copy_struct [(''TypeMeta'', assign), (''ListMeta'', lc_ListMeta L),
     (''Items'', copy_slice (PipelineRun_DeepCopyInto L))]"

definition PipelineRunList_DeepCopy :: "lib \<Rightarrow> copier" where
  "PipelineRunList_DeepCopy L = copy_ptr (PipelineRunList_DeepCopyInto L)"

definition PipelineRunList_DeepCopyObject :: "lib \<Rightarrow> gval \<Rightarrow> (heap, gval option) state" where
  "PipelineRunList_DeepCopyObject L v = do {
     c \<leftarrow> PipelineRunList_DeepCopy L v;
     State_Monad.return (if c \<noteq> Ref None then Some c else None)
   }"

definition RerunTaskPayload_DeepCopyInto :: "copier" where
  "RerunTaskPayload_DeepCopyInto = copy_struct []"

definition RerunTaskPayload_DeepCopy :: "copier" where
  "RerunTaskPayload_DeepCopy = copy_ptr RerunTaskPayload_DeepCopyInto"

definition RolloutStatus_DeepCopyInto :: "lib \<Rightarrow> copier" where
  "RolloutStatus_DeepCopyInto L = copy_struct [(''LastHealthCheckTime'', if_set (lc_Time_DeepCopy L)), (''StartTime'', if_set (lc_Time_DeepCopy L)),
     (''CompletionTime'', if_set (lc_Time_DeepCopy L)), (''Conditions'', copy_slice (lc_Condition L))]"

definition RolloutStatus_DeepCopy :: "lib \<Rightarrow> copier" where
  "RolloutStatus_DeepCopy L = copy_ptr (RolloutStatus_DeepCopyInto L)"

definition Rollout_DeepCopyInto :: "lib \<Rightarrow> copier" where
  "Rollout_DeepCopyInto L = copy_struct [(''TypeMeta'', assign), (''ObjectMeta'', lc_ObjectMeta L), (''Spec'', RolloutSpec_DeepCopyInto),
     (''Status'', RolloutStatus_DeepCopyInto L)]"

definition Rollout_DeepCopy :: "lib \<Rightarrow> copier" where
  "Rollout_DeepCopy L = copy_ptr (Rollout_DeepCopyInto L)"

definition Rollout_DeepCopyObject :: "lib \<Rightarrow> gval \<Rightarrow> (heap, gval option) state" where
  "Rollout_DeepCopyObject L v = do {
     c \<leftarrow> Rollout_DeepCopy L v;
     State_Monad.return (if c \<noteq> Ref None then Some c else None)
   }"

definition RolloutControlPayload_DeepCopyInto :: "copier" where
  "RolloutControlPayload_DeepCopyInto = copy_struct []"

definition RolloutControlPayload_DeepCopy :: "copier" where
  "RolloutControlPayload_DeepCopy = copy_ptr RolloutControlPayload_DeepCopyInto"

definition RolloutList_DeepCopyInto :: "lib \<Rightarrow> copier" where
  "RolloutList_DeepCopyInto L = copy_struct [(''TypeMeta'', assign), (''ListMeta'', lc_ListMeta L), (''Items'', copy_slice (Rollout_DeepCopyInto L))]"

definition RolloutList_DeepCopy :: "lib \<Rightarrow> copier" where
  "RolloutList_DeepCopy L = copy_ptr (RolloutList_DeepCopyInto L)"

definition RolloutList_DeepCopyObject :: "lib \<Rightarrow> gval \<Rightarrow> (heap, gval option) state" where
  "RolloutList_DeepCopyObject L v = do {
     c \<leftarrow> RolloutList_DeepCopy L v;
     State_Monad.return (if c \<noteq> Ref None then Some c else None)
   }"

definition StatusUpdatePayload_DeepCopyInto :: "lib \<Rightarrow> copier" where
  "StatusUpdatePayload_DeepCopyInto L = copy_struct [(''StartTime'', if_set (lc_Time_DeepCopy L)), (''CompletionTime'', if_set (lc_Time_DeepCopy L)),
     (''Tasks'', copy_slice (TaskRunStatusSummary_DeepCopyInto L))]"

definition StatusUpdatePayload_DeepCopy :: "lib \<Rightarrow> copier" where
  "StatusUpdatePayload_DeepCopy L = copy_ptr (StatusUpdatePayload_DeepCopyInto L)"

definition TaskRunSpec_DeepCopyInto :: "lib \<Rightarrow> copier" where
  "TaskRunSpec_DeepCopyInto L = copy_struct [(''ScriptArgs'', copy_slice assign), (''Command'', copy_slice assign), (''Args'', copy_slice assign),
     (''Repo'', copy_ptr assign), (''Produces'', copy_slice assign), (''Consumes'', copy_slice assign),
     (''Env'', copy_slice (lc_EnvVar L)), (''Resources'', lc_Resources L),
     (''RetryPolicy'', copy_ptr assign), (''ApprovalConfig'', copy_ptr ApprovalConfig_DeepCopyInto),
     (''RolloutSpec'', copy_ptr RolloutSpec_DeepCopyInto),
     (''ReleaseSpec'', copy_ptr ReleaseSpec_DeepCopyInto), (''Params'', copy_slice assign)]"

definition TaskRunSpec_DeepCopy :: "lib \<Rightarrow> copier" where
  "TaskRunSpec_DeepCopy L = copy_ptr (TaskRunSpec_DeepCopyInto L)"

definition TaskRunStatus_DeepCopyInto :: "lib \<Rightarrow> copier" where
  "TaskRunStatus_DeepCopyInto L = copy_struct [(''StartTime'', if_set (lc_Time_DeepCopy L)), (''CompletionTime'', if_set (lc_Time_DeepCopy L)),
     (''ExitCode'', copy_ptr assign), (''Approval'', copy_ptr (ApprovalStatus_DeepCopyInto L)),
     (''Conditions'', copy_slice (lc_Condition L))]"

definition TaskRunStatus_DeepCopy :: "lib \<Rightarrow> copier" where
  "TaskRunStatus_DeepCopy L = copy_ptr (TaskRunStatus_DeepCopyInto L)"

definition TaskRun_DeepCopyInto :: "lib \<Rightarrow> copier" where
  "TaskRun_DeepCopyInto L = copy_struct [(''TypeMeta'', assign), (''ObjectMeta'', lc_ObjectMeta L), (''Spec'', TaskRunSpec_DeepCopyInto L),
     (''Status'', TaskRunStatus_DeepCopyInto L)]"

definition TaskRun_DeepCopy :: "lib \<Rightarrow> copier" where
  "TaskRun_DeepCopy L = copy_ptr (TaskRun_DeepCopyInto L)"

definition TaskRun_DeepCopyObject :: "lib \<Rightarrow> gval \<Rightarrow> (heap, gval option) state" where
  "TaskRun_DeepCopyObject L v = do {
     c \<leftarrow> TaskRun_DeepCopy L v;
     State_Monad.return (if c \<noteq> Ref None then Some c else None)
   }"

definition TaskRunList_DeepCopyInto :: "lib \<Rightarrow> copier" where
  "TaskRunList_DeepCopyInto L = copy_struct [(''TypeMeta'', assign), (''ListMeta'', lc_ListMeta L), (''Items'', copy_slice (TaskRun_DeepCopyInto L))]"

definition TaskRunList_DeepCopy :: "lib \<Rightarrow> copier" where
  "TaskRunList_DeepCopy L = copy_ptr (TaskRunList_DeepCopyInto L)"

definition TaskRunList_DeepCopyObject :: "lib \<Rightarrow> gval \<Rightarrow> (heap, gval option) state" where
  "TaskRunList_DeepCopyObject L v = do {
     c \<leftarrow> TaskRunList_DeepCopy L v;
     State_Monad.return (if c \<noteq> Ref None then Some c else None)
   }"

text \<open>All of them, with the type they copy.\<close>

definition deep_copies :: "lib \<Rightarrow> (gtype \<times> copier) list" where
  "deep_copies L = [(AgentOpDispatchPayload_type, AgentOpDispatchPayload_DeepCopyInto),
     (TPtr AgentOpDispatchPayload_type, AgentOpDispatchPayload_DeepCopy),
     (AgentOpLogPayload_type, AgentOpLogPayload_DeepCopyInto),
     (TPtr AgentOpLogPayload_type, AgentOpLogPayload_DeepCopy),
     (AgentOpStatusPayload_type, AgentOpStatusPayload_DeepCopyInto),
     (TPtr AgentOpStatusPayload_type, AgentOpStatusPayload_DeepCopy),
     (RepoSource_type, RepoSource_DeepCopyInto), (TPtr RepoSource_type, RepoSource_DeepCopy),
     (RetryPolicy_type, RetryPolicy_DeepCopyInto), (TPtr RetryPolicy_type, RetryPolicy_DeepCopy),
     (ApprovalConfig_type, ApprovalConfig_DeepCopyInto), (TPtr ApprovalConfig_type, ApprovalConfig_DeepCopy),
     (PauseStep_type, PauseStep_DeepCopyInto), (TPtr PauseStep_type, PauseStep_DeepCopy),
     (CanaryStep_type, CanaryStep_DeepCopyInto), (TPtr CanaryStep_type, CanaryStep_DeepCopy),
     (HealthCheckSpec_type, HealthCheckSpec_DeepCopyInto),
     (TPtr HealthCheckSpec_type, HealthCheckSpec_DeepCopy),
     (TrafficRoutingSpec_type, TrafficRoutingSpec_DeepCopyInto),
     (TPtr TrafficRoutingSpec_type, TrafficRoutingSpec_DeepCopy),
     (RolloutSpec_type, RolloutSpec_DeepCopyInto), (TPtr RolloutSpec_type, RolloutSpec_DeepCopy),
     (ChartSource_type, ChartSource_DeepCopyInto), (TPtr ChartSource_type, ChartSource_DeepCopy),
     (ManifestSource_type, ManifestSource_DeepCopyInto), (TPtr ManifestSource_type, ManifestSource_DeepCopy),
     (ReleaseSpec_type, ReleaseSpec_DeepCopyInto), (TPtr ReleaseSpec_type, ReleaseSpec_DeepCopy),
     (PipelineTaskSpec_type, PipelineTaskSpec_DeepCopyInto),
     (TPtr PipelineTaskSpec_type, PipelineTaskSpec_DeepCopy), (Param_type, Param_DeepCopyInto),
     (TPtr Param_type, Param_DeepCopy), (PipelineRunSpec_type, PipelineRunSpec_DeepCopyInto),
     (TPtr PipelineRunSpec_type, PipelineRunSpec_DeepCopy),
     (ApplyPipelineRunPayload_type, ApplyPipelineRunPayload_DeepCopyInto),
     (TPtr ApplyPipelineRunPayload_type, ApplyPipelineRunPayload_DeepCopy),
     (ApprovalStatus_type L, ApprovalStatus_DeepCopyInto L),
     (TPtr (ApprovalStatus_type L), ApprovalStatus_DeepCopy L),
     (ApproveTaskPayload_type, ApproveTaskPayload_DeepCopyInto),
     (TPtr ApproveTaskPayload_type, ApproveTaskPayload_DeepCopy),
     (CancelPipelineRunPayload_type, CancelPipelineRunPayload_DeepCopyInto),
     (TPtr CancelPipelineRunPayload_type, CancelPipelineRunPayload_DeepCopy),
     (LogChunkPayload_type, LogChunkPayload_DeepCopyInto),
     (TPtr LogChunkPayload_type, LogChunkPayload_DeepCopy), (Message_type, Message_DeepCopyInto),
     (TPtr Message_type, Message_DeepCopy), (RolloutStatusSummary_type, RolloutStatusSummary_DeepCopyInto),
     (TPtr RolloutStatusSummary_type, RolloutStatusSummary_DeepCopy),
     (TaskRunStatusSummary_type L, TaskRunStatusSummary_DeepCopyInto L),
     (TPtr (TaskRunStatusSummary_type L), TaskRunStatusSummary_DeepCopy L),
     (PipelineRunStatus_type L, PipelineRunStatus_DeepCopyInto L),
     (TPtr (PipelineRunStatus_type L), PipelineRunStatus_DeepCopy L),
     (PipelineRun_type L, PipelineRun_DeepCopyInto L), (TPtr (PipelineRun_type L), PipelineRun_DeepCopy L),
     (PipelineRunList_type L, PipelineRunList_DeepCopyInto L),
     (TPtr (PipelineRunList_type L), PipelineRunList_DeepCopy L),
     (RerunTaskPayload_type, RerunTaskPayload_DeepCopyInto),
     (TPtr RerunTaskPayload_type, RerunTaskPayload_DeepCopy),
     (RolloutStatus_type L, RolloutStatus_DeepCopyInto L),
     (TPtr (RolloutStatus_type L), RolloutStatus_DeepCopy L), (Rollout_type L, Rollout_DeepCopyInto L),
     (TPtr (Rollout_type L), Rollout_DeepCopy L),
     (RolloutControlPayload_type, RolloutControlPayload_DeepCopyInto),
     (TPtr RolloutControlPayload_type, RolloutControlPayload_DeepCopy),
     (RolloutList_type L, RolloutList_DeepCopyInto L), (TPtr (RolloutList_type L), RolloutList_DeepCopy L),
     (StatusUpdatePayload_type L, StatusUpdatePayload_DeepCopyInto L),
     (TPtr (StatusUpdatePayload_type L), StatusUpdatePayload_DeepCopy L),
     (TaskRunSpec_type L, TaskRunSpec_DeepCopyInto L), (TPtr (TaskRunSpec_type L), TaskRunSpec_DeepCopy L),
     (TaskRunStatus_type L, TaskRunStatus_DeepCopyInto L),
     (TPtr (TaskRunStatus_type L), TaskRunStatus_DeepCopy L), (TaskRun_type L, TaskRun_DeepCopyInto L),
     (TPtr (TaskRun_type L), TaskRun_DeepCopy L), (TaskRunList_type L, TaskRunList_DeepCopyInto L),
     (TPtr (TaskRunList_type L), TaskRunList_DeepCopy L)]"

section \<open>They are deep copies\<close>

lemma AgentOpDispatchPayload_copier [copiers]: "copier_of AgentOpDispatchPayload_type AgentOpDispatchPayload_DeepCopyInto"
  unfolding AgentOpDispatchPayload_type_def AgentOpDispatchPayload_DeepCopyInto_def by (rule copier_struct) (simp_all add: copiers library_def)

lemma AgentOpDispatchPayload_pointer_copier [copiers]: "copier_of (TPtr AgentOpDispatchPayload_type) AgentOpDispatchPayload_DeepCopy"
  by (simp add: AgentOpDispatchPayload_DeepCopy_def copiers)

lemma AgentOpLogPayload_flat [copiers]: "flat AgentOpLogPayload_type"
  by (simp add: AgentOpLogPayload_type_def copiers)

lemma AgentOpLogPayload_copier [copiers]: "copier_of AgentOpLogPayload_type AgentOpLogPayload_DeepCopyInto"
  unfolding AgentOpLogPayload_type_def AgentOpLogPayload_DeepCopyInto_def by (rule copier_struct) (simp_all add: copiers library_def)

lemma AgentOpLogPayload_pointer_copier [copiers]: "copier_of (TPtr AgentOpLogPayload_type) AgentOpLogPayload_DeepCopy"
  by (simp add: AgentOpLogPayload_DeepCopy_def copiers)

lemma AgentOpStatusPayload_flat [copiers]: "flat AgentOpStatusPayload_type"
  by (simp add: AgentOpStatusPayload_type_def copiers)

lemma AgentOpStatusPayload_copier [copiers]: "copier_of AgentOpStatusPayload_type AgentOpStatusPayload_DeepCopyInto"
  unfolding AgentOpStatusPayload_type_def AgentOpStatusPayload_DeepCopyInto_def by (rule copier_struct) (simp_all add: copiers library_def)

lemma AgentOpStatusPayload_pointer_copier [copiers]: "copier_of (TPtr AgentOpStatusPayload_type) AgentOpStatusPayload_DeepCopy"
  by (simp add: AgentOpStatusPayload_DeepCopy_def copiers)

lemma RepoSource_flat [copiers]: "flat RepoSource_type"
  by (simp add: RepoSource_type_def copiers)

lemma RepoSource_copier [copiers]: "copier_of RepoSource_type RepoSource_DeepCopyInto"
  unfolding RepoSource_type_def RepoSource_DeepCopyInto_def by (rule copier_struct) (simp_all add: copiers library_def)

lemma RepoSource_pointer_copier [copiers]: "copier_of (TPtr RepoSource_type) RepoSource_DeepCopy"
  by (simp add: RepoSource_DeepCopy_def copiers)

lemma RetryPolicy_flat [copiers]: "flat RetryPolicy_type"
  by (simp add: RetryPolicy_type_def copiers)

lemma RetryPolicy_copier [copiers]: "copier_of RetryPolicy_type RetryPolicy_DeepCopyInto"
  unfolding RetryPolicy_type_def RetryPolicy_DeepCopyInto_def by (rule copier_struct) (simp_all add: copiers library_def)

lemma RetryPolicy_pointer_copier [copiers]: "copier_of (TPtr RetryPolicy_type) RetryPolicy_DeepCopy"
  by (simp add: RetryPolicy_DeepCopy_def copiers)

lemma ApprovalConfig_copier [copiers]: "copier_of ApprovalConfig_type ApprovalConfig_DeepCopyInto"
  unfolding ApprovalConfig_type_def ApprovalConfig_DeepCopyInto_def by (rule copier_struct) (simp_all add: copiers library_def)

lemma ApprovalConfig_pointer_copier [copiers]: "copier_of (TPtr ApprovalConfig_type) ApprovalConfig_DeepCopy"
  by (simp add: ApprovalConfig_DeepCopy_def copiers)

lemma PauseStep_copier [copiers]: "copier_of PauseStep_type PauseStep_DeepCopyInto"
  unfolding PauseStep_type_def PauseStep_DeepCopyInto_def by (rule copier_struct) (simp_all add: copiers library_def)

lemma PauseStep_pointer_copier [copiers]: "copier_of (TPtr PauseStep_type) PauseStep_DeepCopy"
  by (simp add: PauseStep_DeepCopy_def copiers)

lemma CanaryStep_copier [copiers]: "copier_of CanaryStep_type CanaryStep_DeepCopyInto"
  unfolding CanaryStep_type_def CanaryStep_DeepCopyInto_def by (rule copier_struct) (simp_all add: copiers library_def)

lemma CanaryStep_pointer_copier [copiers]: "copier_of (TPtr CanaryStep_type) CanaryStep_DeepCopy"
  by (simp add: CanaryStep_DeepCopy_def copiers)

lemma HealthCheckSpec_flat [copiers]: "flat HealthCheckSpec_type"
  by (simp add: HealthCheckSpec_type_def copiers)

lemma HealthCheckSpec_copier [copiers]: "copier_of HealthCheckSpec_type HealthCheckSpec_DeepCopyInto"
  unfolding HealthCheckSpec_type_def HealthCheckSpec_DeepCopyInto_def by (rule copier_struct) (simp_all add: copiers library_def)

lemma HealthCheckSpec_pointer_copier [copiers]: "copier_of (TPtr HealthCheckSpec_type) HealthCheckSpec_DeepCopy"
  by (simp add: HealthCheckSpec_DeepCopy_def copiers)

lemma TrafficRoutingSpec_flat [copiers]: "flat TrafficRoutingSpec_type"
  by (simp add: TrafficRoutingSpec_type_def copiers)

lemma TrafficRoutingSpec_copier [copiers]: "copier_of TrafficRoutingSpec_type TrafficRoutingSpec_DeepCopyInto"
  unfolding TrafficRoutingSpec_type_def TrafficRoutingSpec_DeepCopyInto_def by (rule copier_struct) (simp_all add: copiers library_def)

lemma TrafficRoutingSpec_pointer_copier [copiers]: "copier_of (TPtr TrafficRoutingSpec_type) TrafficRoutingSpec_DeepCopy"
  by (simp add: TrafficRoutingSpec_DeepCopy_def copiers)

lemma RolloutSpec_copier [copiers]: "copier_of RolloutSpec_type RolloutSpec_DeepCopyInto"
  unfolding RolloutSpec_type_def RolloutSpec_DeepCopyInto_def by (rule copier_struct) (simp_all add: copiers library_def)

lemma RolloutSpec_pointer_copier [copiers]: "copier_of (TPtr RolloutSpec_type) RolloutSpec_DeepCopy"
  by (simp add: RolloutSpec_DeepCopy_def copiers)

lemma ChartSource_flat [copiers]: "flat ChartSource_type"
  by (simp add: ChartSource_type_def copiers)

lemma ChartSource_copier [copiers]: "copier_of ChartSource_type ChartSource_DeepCopyInto"
  unfolding ChartSource_type_def ChartSource_DeepCopyInto_def by (rule copier_struct) (simp_all add: copiers library_def)

lemma ChartSource_pointer_copier [copiers]: "copier_of (TPtr ChartSource_type) ChartSource_DeepCopy"
  by (simp add: ChartSource_DeepCopy_def copiers)

lemma ManifestSource_flat [copiers]: "flat ManifestSource_type"
  by (simp add: ManifestSource_type_def copiers)

lemma ManifestSource_copier [copiers]: "copier_of ManifestSource_type ManifestSource_DeepCopyInto"
  unfolding ManifestSource_type_def ManifestSource_DeepCopyInto_def by (rule copier_struct) (simp_all add: copiers library_def)

lemma ManifestSource_pointer_copier [copiers]: "copier_of (TPtr ManifestSource_type) ManifestSource_DeepCopy"
  by (simp add: ManifestSource_DeepCopy_def copiers)

lemma ReleaseSpec_copier [copiers]: "copier_of ReleaseSpec_type ReleaseSpec_DeepCopyInto"
  unfolding ReleaseSpec_type_def ReleaseSpec_DeepCopyInto_def by (rule copier_struct) (simp_all add: copiers library_def)

lemma ReleaseSpec_pointer_copier [copiers]: "copier_of (TPtr ReleaseSpec_type) ReleaseSpec_DeepCopy"
  by (simp add: ReleaseSpec_DeepCopy_def copiers)

lemma PipelineTaskSpec_copier [copiers]: "copier_of PipelineTaskSpec_type PipelineTaskSpec_DeepCopyInto"
  unfolding PipelineTaskSpec_type_def PipelineTaskSpec_DeepCopyInto_def by (rule copier_struct) (simp_all add: copiers library_def)

lemma PipelineTaskSpec_pointer_copier [copiers]: "copier_of (TPtr PipelineTaskSpec_type) PipelineTaskSpec_DeepCopy"
  by (simp add: PipelineTaskSpec_DeepCopy_def copiers)

lemma Param_flat [copiers]: "flat Param_type"
  by (simp add: Param_type_def copiers)

lemma Param_copier [copiers]: "copier_of Param_type Param_DeepCopyInto"
  unfolding Param_type_def Param_DeepCopyInto_def by (rule copier_struct) (simp_all add: copiers library_def)

lemma Param_pointer_copier [copiers]: "copier_of (TPtr Param_type) Param_DeepCopy"
  by (simp add: Param_DeepCopy_def copiers)

lemma PipelineRunSpec_copier [copiers]: "copier_of PipelineRunSpec_type PipelineRunSpec_DeepCopyInto"
  unfolding PipelineRunSpec_type_def PipelineRunSpec_DeepCopyInto_def by (rule copier_struct) (simp_all add: copiers library_def)

lemma PipelineRunSpec_pointer_copier [copiers]: "copier_of (TPtr PipelineRunSpec_type) PipelineRunSpec_DeepCopy"
  by (simp add: PipelineRunSpec_DeepCopy_def copiers)

lemma ApplyPipelineRunPayload_copier [copiers]: "copier_of ApplyPipelineRunPayload_type ApplyPipelineRunPayload_DeepCopyInto"
  unfolding ApplyPipelineRunPayload_type_def ApplyPipelineRunPayload_DeepCopyInto_def by (rule copier_struct) (simp_all add: copiers library_def)

lemma ApplyPipelineRunPayload_pointer_copier [copiers]: "copier_of (TPtr ApplyPipelineRunPayload_type) ApplyPipelineRunPayload_DeepCopy"
  by (simp add: ApplyPipelineRunPayload_DeepCopy_def copiers)

lemma ApprovalStatus_copier [copiers]: "library L \<Longrightarrow> copier_of (ApprovalStatus_type L) (ApprovalStatus_DeepCopyInto L)"
  unfolding ApprovalStatus_type_def ApprovalStatus_DeepCopyInto_def by (rule copier_struct) (simp_all add: copiers library_def)

lemma ApprovalStatus_pointer_copier [copiers]: "library L \<Longrightarrow> copier_of (TPtr (ApprovalStatus_type L)) (ApprovalStatus_DeepCopy L)"
  by (simp add: ApprovalStatus_DeepCopy_def copiers)

lemma ApproveTaskPayload_flat [copiers]: "flat ApproveTaskPayload_type"
  by (simp add: ApproveTaskPayload_type_def copiers)

lemma ApproveTaskPayload_copier [copiers]: "copier_of ApproveTaskPayload_type ApproveTaskPayload_DeepCopyInto"
  unfolding ApproveTaskPayload_type_def ApproveTaskPayload_DeepCopyInto_def by (rule copier_struct) (simp_all add: copiers library_def)

lemma ApproveTaskPayload_pointer_copier [copiers]: "copier_of (TPtr ApproveTaskPayload_type) ApproveTaskPayload_DeepCopy"
  by (simp add: ApproveTaskPayload_DeepCopy_def copiers)

lemma CancelPipelineRunPayload_flat [copiers]: "flat CancelPipelineRunPayload_type"
  by (simp add: CancelPipelineRunPayload_type_def copiers)

lemma CancelPipelineRunPayload_copier [copiers]: "copier_of CancelPipelineRunPayload_type CancelPipelineRunPayload_DeepCopyInto"
  unfolding CancelPipelineRunPayload_type_def CancelPipelineRunPayload_DeepCopyInto_def by (rule copier_struct) (simp_all add: copiers library_def)

lemma CancelPipelineRunPayload_pointer_copier [copiers]: "copier_of (TPtr CancelPipelineRunPayload_type) CancelPipelineRunPayload_DeepCopy"
  by (simp add: CancelPipelineRunPayload_DeepCopy_def copiers)

lemma LogChunkPayload_flat [copiers]: "flat LogChunkPayload_type"
  by (simp add: LogChunkPayload_type_def copiers)

lemma LogChunkPayload_copier [copiers]: "copier_of LogChunkPayload_type LogChunkPayload_DeepCopyInto"
  unfolding LogChunkPayload_type_def LogChunkPayload_DeepCopyInto_def by (rule copier_struct) (simp_all add: copiers library_def)

lemma LogChunkPayload_pointer_copier [copiers]: "copier_of (TPtr LogChunkPayload_type) LogChunkPayload_DeepCopy"
  by (simp add: LogChunkPayload_DeepCopy_def copiers)

lemma Message_copier [copiers]: "copier_of Message_type Message_DeepCopyInto"
  unfolding Message_type_def Message_DeepCopyInto_def by (rule copier_struct) (simp_all add: copiers library_def)

lemma Message_pointer_copier [copiers]: "copier_of (TPtr Message_type) Message_DeepCopy"
  by (simp add: Message_DeepCopy_def copiers)

lemma RolloutStatusSummary_flat [copiers]: "flat RolloutStatusSummary_type"
  by (simp add: RolloutStatusSummary_type_def copiers)

lemma RolloutStatusSummary_copier [copiers]: "copier_of RolloutStatusSummary_type RolloutStatusSummary_DeepCopyInto"
  unfolding RolloutStatusSummary_type_def RolloutStatusSummary_DeepCopyInto_def by (rule copier_struct) (simp_all add: copiers library_def)

lemma RolloutStatusSummary_pointer_copier [copiers]: "copier_of (TPtr RolloutStatusSummary_type) RolloutStatusSummary_DeepCopy"
  by (simp add: RolloutStatusSummary_DeepCopy_def copiers)

lemma TaskRunStatusSummary_copier [copiers]: "library L \<Longrightarrow> copier_of (TaskRunStatusSummary_type L) (TaskRunStatusSummary_DeepCopyInto L)"
  unfolding TaskRunStatusSummary_type_def TaskRunStatusSummary_DeepCopyInto_def by (rule copier_struct) (simp_all add: copiers library_def)

lemma TaskRunStatusSummary_pointer_copier [copiers]: "library L \<Longrightarrow> copier_of (TPtr (TaskRunStatusSummary_type L)) (TaskRunStatusSummary_DeepCopy L)"
  by (simp add: TaskRunStatusSummary_DeepCopy_def copiers)

lemma PipelineRunStatus_copier [copiers]: "library L \<Longrightarrow> copier_of (PipelineRunStatus_type L) (PipelineRunStatus_DeepCopyInto L)"
  unfolding PipelineRunStatus_type_def PipelineRunStatus_DeepCopyInto_def by (rule copier_struct) (simp_all add: copiers library_def)

lemma PipelineRunStatus_pointer_copier [copiers]: "library L \<Longrightarrow> copier_of (TPtr (PipelineRunStatus_type L)) (PipelineRunStatus_DeepCopy L)"
  by (simp add: PipelineRunStatus_DeepCopy_def copiers)

lemma PipelineRun_copier [copiers]: "library L \<Longrightarrow> copier_of (PipelineRun_type L) (PipelineRun_DeepCopyInto L)"
  unfolding PipelineRun_type_def PipelineRun_DeepCopyInto_def by (rule copier_struct) (simp_all add: copiers library_def)

lemma PipelineRun_pointer_copier [copiers]: "library L \<Longrightarrow> copier_of (TPtr (PipelineRun_type L)) (PipelineRun_DeepCopy L)"
  by (simp add: PipelineRun_DeepCopy_def copiers)

lemma PipelineRunList_copier [copiers]: "library L \<Longrightarrow> copier_of (PipelineRunList_type L) (PipelineRunList_DeepCopyInto L)"
  unfolding PipelineRunList_type_def PipelineRunList_DeepCopyInto_def by (rule copier_struct) (simp_all add: copiers library_def)

lemma PipelineRunList_pointer_copier [copiers]: "library L \<Longrightarrow> copier_of (TPtr (PipelineRunList_type L)) (PipelineRunList_DeepCopy L)"
  by (simp add: PipelineRunList_DeepCopy_def copiers)

lemma RerunTaskPayload_flat [copiers]: "flat RerunTaskPayload_type"
  by (simp add: RerunTaskPayload_type_def copiers)

lemma RerunTaskPayload_copier [copiers]: "copier_of RerunTaskPayload_type RerunTaskPayload_DeepCopyInto"
  unfolding RerunTaskPayload_type_def RerunTaskPayload_DeepCopyInto_def by (rule copier_struct) (simp_all add: copiers library_def)

lemma RerunTaskPayload_pointer_copier [copiers]: "copier_of (TPtr RerunTaskPayload_type) RerunTaskPayload_DeepCopy"
  by (simp add: RerunTaskPayload_DeepCopy_def copiers)

lemma RolloutStatus_copier [copiers]: "library L \<Longrightarrow> copier_of (RolloutStatus_type L) (RolloutStatus_DeepCopyInto L)"
  unfolding RolloutStatus_type_def RolloutStatus_DeepCopyInto_def by (rule copier_struct) (simp_all add: copiers library_def)

lemma RolloutStatus_pointer_copier [copiers]: "library L \<Longrightarrow> copier_of (TPtr (RolloutStatus_type L)) (RolloutStatus_DeepCopy L)"
  by (simp add: RolloutStatus_DeepCopy_def copiers)

lemma Rollout_copier [copiers]: "library L \<Longrightarrow> copier_of (Rollout_type L) (Rollout_DeepCopyInto L)"
  unfolding Rollout_type_def Rollout_DeepCopyInto_def by (rule copier_struct) (simp_all add: copiers library_def)

lemma Rollout_pointer_copier [copiers]: "library L \<Longrightarrow> copier_of (TPtr (Rollout_type L)) (Rollout_DeepCopy L)"
  by (simp add: Rollout_DeepCopy_def copiers)

lemma RolloutControlPayload_flat [copiers]: "flat RolloutControlPayload_type"
  by (simp add: RolloutControlPayload_type_def copiers)

lemma RolloutControlPayload_copier [copiers]: "copier_of RolloutControlPayload_type RolloutControlPayload_DeepCopyInto"
  unfolding RolloutControlPayload_type_def RolloutControlPayload_DeepCopyInto_def by (rule copier_struct) (simp_all add: copiers library_def)

lemma RolloutControlPayload_pointer_copier [copiers]: "copier_of (TPtr RolloutControlPayload_type) RolloutControlPayload_DeepCopy"
  by (simp add: RolloutControlPayload_DeepCopy_def copiers)

lemma RolloutList_copier [copiers]: "library L \<Longrightarrow> copier_of (RolloutList_type L) (RolloutList_DeepCopyInto L)"
  unfolding RolloutList_type_def RolloutList_DeepCopyInto_def by (rule copier_struct) (simp_all add: copiers library_def)

lemma RolloutList_pointer_copier [copiers]: "library L \<Longrightarrow> copier_of (TPtr (RolloutList_type L)) (RolloutList_DeepCopy L)"
  by (simp add: RolloutList_DeepCopy_def copiers)

lemma StatusUpdatePayload_copier [copiers]: "library L \<Longrightarrow> copier_of (StatusUpdatePayload_type L) (StatusUpdatePayload_DeepCopyInto L)"
  unfolding StatusUpdatePayload_type_def StatusUpdatePayload_DeepCopyInto_def by (rule copier_struct) (simp_all add: copiers library_def)

lemma StatusUpdatePayload_pointer_copier [copiers]: "library L \<Longrightarrow> copier_of (TPtr (StatusUpdatePayload_type L)) (StatusUpdatePayload_DeepCopy L)"
  by (simp add: StatusUpdatePayload_DeepCopy_def copiers)

lemma TaskRunSpec_copier [copiers]: "library L \<Longrightarrow> copier_of (TaskRunSpec_type L) (TaskRunSpec_DeepCopyInto L)"
  unfolding TaskRunSpec_type_def TaskRunSpec_DeepCopyInto_def by (rule copier_struct) (simp_all add: copiers library_def)

lemma TaskRunSpec_pointer_copier [copiers]: "library L \<Longrightarrow> copier_of (TPtr (TaskRunSpec_type L)) (TaskRunSpec_DeepCopy L)"
  by (simp add: TaskRunSpec_DeepCopy_def copiers)

lemma TaskRunStatus_copier [copiers]: "library L \<Longrightarrow> copier_of (TaskRunStatus_type L) (TaskRunStatus_DeepCopyInto L)"
  unfolding TaskRunStatus_type_def TaskRunStatus_DeepCopyInto_def by (rule copier_struct) (simp_all add: copiers library_def)

lemma TaskRunStatus_pointer_copier [copiers]: "library L \<Longrightarrow> copier_of (TPtr (TaskRunStatus_type L)) (TaskRunStatus_DeepCopy L)"
  by (simp add: TaskRunStatus_DeepCopy_def copiers)

lemma TaskRun_copier [copiers]: "library L \<Longrightarrow> copier_of (TaskRun_type L) (TaskRun_DeepCopyInto L)"
  unfolding TaskRun_type_def TaskRun_DeepCopyInto_def by (rule copier_struct) (simp_all add: copiers library_def)

lemma TaskRun_pointer_copier [copiers]: "library L \<Longrightarrow> copier_of (TPtr (TaskRun_type L)) (TaskRun_DeepCopy L)"
  by (simp add: TaskRun_DeepCopy_def copiers)

lemma TaskRunList_copier [copiers]: "library L \<Longrightarrow> copier_of (TaskRunList_type L) (TaskRunList_DeepCopyInto L)"
  unfolding TaskRunList_type_def TaskRunList_DeepCopyInto_def by (rule copier_struct) (simp_all add: copiers library_def)

lemma TaskRunList_pointer_copier [copiers]: "library L \<Longrightarrow> copier_of (TPtr (TaskRunList_type L)) (TaskRunList_DeepCopy L)"
  by (simp add: TaskRunList_DeepCopy_def copiers)

lemma deep_copies_copy: "library L \<Longrightarrow> (ty, c) \<in> set (deep_copies L) \<Longrightarrow> copier_of ty c"
  unfolding deep_copies_def by (elim set_ConsD [THEN disjE] | simp add: copiers)+

definition object_copies :: "lib \<Rightarrow> (gtype \<times> copier \<times> (gval \<Rightarrow> (heap, gval option) state)) list" where
  "object_copies L = [(PipelineRun_type L, PipelineRun_DeepCopy L, PipelineRun_DeepCopyObject L),
     (PipelineRunList_type L, PipelineRunList_DeepCopy L, PipelineRunList_DeepCopyObject L),
     (Rollout_type L, Rollout_DeepCopy L, Rollout_DeepCopyObject L),
     (RolloutList_type L, RolloutList_DeepCopy L, RolloutList_DeepCopyObject L),
     (TaskRun_type L, TaskRun_DeepCopy L, TaskRun_DeepCopyObject L),
     (TaskRunList_type L, TaskRunList_DeepCopy L, TaskRunList_DeepCopyObject L)]"

text \<open>As objects of the runtime: an interface that is nil exactly for a nil pointer, and holds the copy otherwise.\<close>

lemma den_nil_iff: "den h (TPtr ty) v t A \<Longrightarrow> v = Ref None \<longleftrightarrow> t = DNil"
  by (auto elim: den_ptr_cases)

lemma deep_copy_objects:
  assumes "library L" "(ty, d, ob) \<in> set (object_copies L)" "den h (TPtr ty) v t A" "run_state (ob v) h = (r, h')"
  shows "(r = None \<longleftrightarrow> v = Ref None) \<and> (\<forall>x. r = Some x \<longrightarrow> run_state (d v) h = (x, h'))"
proof -
  obtain x h1 where x: "run_state (d v) h = (x, h1)" by fastforce
  have "copier_of (TPtr ty) d" using assms(1,2) by (auto simp: object_copies_def copiers)
  then have "\<exists>A'. den h1 (TPtr ty) x t A'" using assms(3) x unfolding copier_of_def by metis
  then have "x = Ref None \<longleftrightarrow> v = Ref None" using den_nil_iff [OF assms(3)] den_nil_iff by blast
  moreover have "r = (if x \<noteq> Ref None then Some x else None) \<and> h' = h1"
    using assms(2,4) x by (auto simp: object_copies_def PipelineRun_DeepCopyObject_def PipelineRunList_DeepCopyObject_def Rollout_DeepCopyObject_def RolloutList_DeepCopyObject_def TaskRun_DeepCopyObject_def TaskRunList_DeepCopyObject_def)
  ultimately show ?thesis using x by auto
qed

text \<open>C27: The generated copies are deep. A copy of a value of one of the API's types (or, by \<open>DeepCopy\<close>, of a pointer to
  one) only allocates: no cell that was there changes. It stands for the same value, and it shares no cell with
  the original: whatever is written later at the addresses of the one, the other stands for what it stood for.\<close>

theorem deep_copies_isolated:
  assumes "library L" "(ty, c) \<in> set (deep_copies L)" "den h ty v t A" "run_state (c v) h = (v', h')"
  shows "take (length h) h' = h \<and> (\<exists>A'. den h' ty v t A \<and> den h' ty v' t A' \<and> A \<inter> A' = {} \<and>
     (\<forall>h2. length h' \<le> length h2 \<and> (\<forall>a\<in>{..<length h'} - A'. h2 ! a = h' ! a) \<longrightarrow> den h2 ty v t A) \<and>
     (\<forall>h2. length h' \<le> length h2 \<and> (\<forall>a\<in>{..<length h'} - A. h2 ! a = h' ! a) \<longrightarrow> den h2 ty v' t A'))"
proof -
  have c: "copier_of ty c" by (rule deep_copies_copy [OF assms(1,2)])
  from c assms(3,4) have "\<exists>ext. h' = h @ ext" unfolding copier_of_def by metis
  then have "take (length h) h' = h" by auto
  with copy_isolated [OF c assms(3,4)] show ?thesis by blast
qed

text \<open>A library whose metadata has a map of annotations, and a canary step with a weight.\<close>

definition ex_lib :: lib where
  "ex_lib = \<lparr>lt_ObjectMeta = TStruct [(''Name'', TScalar), (''Annotations'', TMap TScalar)],
     lc_ObjectMeta = copy_struct [(''Annotations'', copy_map)], lt_ListMeta = TScalar, lc_ListMeta = assign,
     lt_Time = TScalar, lc_Time = assign, lc_Time_DeepCopy = copy_ptr assign, lt_Condition = TScalar, lc_Condition = assign,
     lt_EnvVar = TScalar, lc_EnvVar = assign, lt_Resources = TScalar, lc_Resources = assign\<rparr>"

lemma ex_library: "library ex_lib"
proof -
  have "copier_of (lt_ObjectMeta ex_lib) (lc_ObjectMeta ex_lib)"
    unfolding ex_lib_def lib.select_convs by (rule copier_struct) (simp_all add: copiers)
  then show ?thesis by (simp add: library_def ex_lib_def copiers)
qed

definition ex_step :: gval where
  "ex_step = Fields ((\<lambda>_. Ref None)(''SetWeight'' := Ref (Some 0)))"

lemma ex_step_den:
  "den [Pointee (Sc (Num 20))] CanaryStep_type ex_step (DFields ((\<lambda>_. DNil)(''SetWeight'' := DPointee (DScalar (Num 20))))) {0}"
proof -
  have "den [Pointee (Sc (Num 20))] (TPtr TScalar) (Ref (Some 0)) (DPointee (DScalar (Num 20))) (insert 0 {})"
    by (rule den_ptr) (simp, simp, rule den_scalar)
  then show ?thesis unfolding CanaryStep_type_def ex_step_def
    by (intro den_struct [where G = "\<lambda>n. if n = ''SetWeight'' then {0} else {}"]) (simp_all add: den_nil_ptr)
qed

lemma deep_copies_isolated_witness:
  "\<exists>v'. run_state (CanaryStep_DeepCopyInto ex_step) [Pointee (Sc (Num 20))] = (v', [Pointee (Sc (Num 20)), Pointee (Sc (Num 20))]) \<and>
     (\<exists>A'. den [Pointee (Sc (Num 50)), Pointee (Sc (Num 20))] CanaryStep_type v'
       (DFields ((\<lambda>_. DNil)(''SetWeight'' := DPointee (DScalar (Num 20))))) A')"
proof -
  let ?h = "[Pointee (Sc (Num 20))]" and ?t = "DFields ((\<lambda>_. DNil)(''SetWeight'' := DPointee (DScalar (Num 20))))"
  let ?v = "Fields ((\<lambda>_. Ref None)(''SetWeight'' := Ref (Some 1)))"
  have run: "run_state (CanaryStep_DeepCopyInto ex_step) ?h = (?v, [Pointee (Sc (Num 20)), Pointee (Sc (Num 20))])"
    by (simp add: CanaryStep_DeepCopyInto_def copy_struct_def ex_step_def field_def set_field_def copy_ptr_def assign_def fun_eq_iff)
  have mem: "(CanaryStep_type, CanaryStep_DeepCopyInto) \<in> set (deep_copies ex_lib)" by (simp add: deep_copies_def)
  obtain A' where A': "{0} \<inter> A' = {}" "den [Pointee (Sc (Num 20)), Pointee (Sc (Num 20))] CanaryStep_type ?v ?t A'"
    "\<forall>h2. length [Pointee (Sc (Num 20)), Pointee (Sc (Num 20))] \<le> length h2 \<and>
       (\<forall>a\<in>{..<length [Pointee (Sc (Num 20)), Pointee (Sc (Num 20))]} - {0}. h2 ! a = [Pointee (Sc (Num 20)), Pointee (Sc (Num 20))] ! a) \<longrightarrow>
       den h2 CanaryStep_type ?v ?t A'"
    using deep_copies_isolated [OF ex_library mem ex_step_den run] by blast
  from A'(3) have d: "den [Pointee (Sc (Num 50)), Pointee (Sc (Num 20))] CanaryStep_type ?v ?t A'"
    by (auto simp: nth_Cons')
  show ?thesis using run d by blast
qed

end
