(* ===== verification/Spec2Isabelle.thy ===== *)
theory Spec2Isabelle
  imports PipelineRun_Props Canary_Props Rollout_Props TaskRun_Props System Deploy_System Ownership Dispatch_Props Hub_Props Process_Props Deep_Copy
begin

text \<open>
  A verification library for the runner of the software distribution platform
  (\<open>software-distribution-platform-runner\<close>, Go).

  The program. The runner sits in a Kubernetes cluster and keeps one long connection to a hub. The hub's commands
  arrive as frames (\<open>src/pkg/connector\<close>, \<open>src/api/v1alpha1/protocol.go\<close>) and are turned into custom resources and annotations by
  the handlers of \<open>src/internal/dispatch\<close>. Three reconcilers (\<open>src/internal/controller\<close>) work on the resources: a
  \<open>PipelineRun\<close> is a graph of tasks, each of which becomes a \<open>TaskRun\<close>; a \<open>TaskRun\<close> becomes a Job, an approval
  that waits for the hub, or a \<open>Rollout\<close>; a \<open>Rollout\<close> shifts replicas and traffic from a stable to a canary Deployment
  step by step, deciding with the pure engine of \<open>src/pkg/canary\<close> and the probes of \<open>src/pkg/health\<close>. Statuses and logs go
  back through the connector. Agent operations (\<open>src/internal/agentops\<close>) run a command of the hub, or the upgrade of
  the runner itself, as a Job, without a reconciler.

  The model. \<open>Prelude\<close> has the Go values (fixed-width integers with their wrap-around written out, errors as a datatype, results as
  sums) and the transcript monad: a reconciler or handler is a program over an arbitrary cluster state, every
  call to the API server and every other effect (a frame for the hub, a metric) is appended with its answer to a
  transcript. The API server is a record of state transformers, \<open>kclient\<close> of theory \<open>Kube\<close>, about which nothing
  is assumed: the theorems say what is requested whatever the server answers, that is over all interleavings with
  other clients that its answers can show. \<open>emits m P\<close> states that every run of \<open>m\<close> ends with a result and a transcript in \<open>P\<close>; the
  rules \<open>wp_intro\<close> prove it along the code, and an inductive predicate per reconciler (\<open>run_path\<close>, \<open>task_path\<close>,
  \<open>rollout_path\<close>, \<open>upgrade_path\<close>) lists the transcripts it can have, one rule per exit of the code. \<open>Mem_Api\<close> is a
  concrete API server for the witnesses only.

  The theories and the code:
    \<^item> \<open>Api_Types\<close>: \<open>src/api/v1alpha1\<close> (records and datatypes of the resources, statuses and payloads), \<open>Go_Std\<close>: what is used of the Go
      standard library (decimal integers, RFC 3339 times), with its round trips.
    \<^item> \<open>Dag\<close>, \<open>PipelineRun_Controller\<close>, \<open>PipelineRun_Props\<close>: \<open>pipelinerun_controller.go\<close>, \<open>pipelinerun_cancel.go\<close>,
      \<open>ensure_rbac.go\<close>. The locale \<open>dag_scheduler\<close> is the contract between the scheduling functions and the reconciler, with
      the reachable executions, their invariant and the completion of acyclic pipelines proved in it once;
      \<open>findRunnableTasks\<close> is its interpretation. The properties are about which task runs are created, which phase is written,
      the cancel path, errors and reports.
    \<^item> \<open>Canary_Engine\<close>, \<open>Canary_Props\<close>: \<open>engine.go\<close>. The locale \<open>canary_engine\<close> is what the rollout controller relies on (steps, gate,
      weights, split, giving up), its \<open>walk\<close> the sequence of statuses; \<open>Evaluate\<close> is its interpretation.
    \<^item> \<open>Health\<close>, \<open>Rollout_Controller\<close>, \<open>Rollout_Props\<close>: \<open>health.go\<close> and \<open>rollout_controller.go\<close>. The reconciler refines the
      walk of the engine, conserves the replicas and writes no status before the cluster was brought to it; commands and holds are treated on their own paths.
    \<^item> \<open>Job_Builder\<close>, \<open>TaskRun_Controller\<close>, \<open>TaskRun_Props\<close>: \<open>job_builder.go\<close>, \<open>taskrun_controller.go\<close>, \<open>hub_ca.go\<close>. The locale
      \<open>job_builder\<close> is what the controller relies on, \<open>Build\<close> its interpretation; the properties are about the Job, its
      uniqueness, the retries, and where a task run cannot make progress or changes its mind.
    \<^item> \<open>System\<close>: the run and the task-run reconciler on one API server, as the histories of its task runs (\<open>sys_reach\<close>): requests
      interleave at every write and lists may be stale. The histories refine the executions of the abstract scheduler, so no
      Job is requested before the dependencies of its task have Succeeded. A schedule is an infinite sequence of histories; a run
      completes in every schedule that is fair to it.
    \<^item> \<open>Deploy_System\<close>: the rollout and the task-run reconciler on one Rollout, as the histories of what is stored of it (\<open>rollout_reach\<close>):
      the invariant that every step behind the Rollout was left for a reason, and what the success of a deploy task rests on.
    \<^item> \<open>Dispatch\<close>, \<open>Rerun\<close>, \<open>Commands\<close>, \<open>Dispatch_Props\<close>: the handlers of \<open>src/internal/dispatch\<close>. The locale \<open>command_mailbox\<close>
      is the contract between handlers and reconcilers (a stamped annotation is pending until it is cleared);
      cancellation and rollout control are its interpretations. The properties compose a handler with the reconcile that follows.
    \<^item> \<open>Logstream\<close>: \<open>logstream.go\<close> and the log goroutine of \<open>taskrun_controller.go\<close>; \<open>Agentops\<close>: \<open>handler.go\<close>, with the
      bytes shipped of a growing log; \<open>Connector\<close>: \<open>client.go\<close>, the outbox and its goroutines as the step relation \<open>conn_step\<close>;
      \<open>Hub_Props\<close>: their properties.
    \<^item> \<open>Manager_Setup\<close>: the scheme and the \<open>SetupWithManager\<close> of the reconcilers, as descriptions of the watches; \<open>Ownership\<close>: the reconcilers against
      their watches, call by call: what they create is owned and watched, what they read is watched, and what is not passed on.
    \<^item> \<open>Runner_Main\<close>: \<open>main.go\<close> and \<open>metrics.go\<close>: the configuration, an attempt to make, set up and start the manager (\<open>startManager\<close>), the
      loop around it and the process as a whole (\<open>runner_main\<close>), over records of what the libraries answer; \<open>Process_Props\<close>: its properties, and
      the configuration of the rollout controller.
    \<^item> \<open>Go_Heap\<close>, \<open>Deep_Copy\<close>: \<open>zz_generated.deepcopy.go\<close>. Values with references on an explicit heap, the statements a deep copy is
      made of, and one definition per generated function. \<open>copier_of\<close> is what a copy of a type promises; each function is shown to keep it from
      its parts. In the other theories copying a value is the identity: what is written to the one never shows in the other,
      which is the isolation shown here.

  State and operations keep the names of the code; a field has the prefix of its record. A panic (an index out of range, a nil
  pointer, a short slice) is a value: \<open>None\<close>, an error or \<open>False\<close> as the text of the definition says. A clock reading \<open>now\<close> stands for
  the readings within one reconcile or handler.

  Bounds and fuel. Recursive functions of the model terminate and are proved to: the line scanner by the length of its input,
  the search for downstream tasks by the unseen names and the queue, the start loop by the attempts left. The polling of an agent operation
  is bounded by the parameter \<open>ticks\<close>, how often its ticker fires before the deadline; its theorems hold for every value.
  The completion theorems give their own bounds: as many scheduling rounds as tasks, \<open>2 * n + 2\<close> reconciles for \<open>n\<close> canary steps.
  Sizes that Go keeps in 32 bits are wrapped, and the theorems that need it assume them in range.

  Parameters, and what is assumed of them where a theorem says so: the API server (that \<open>SetControllerReference\<close> refuses an owner of
  another namespace, as controller-runtime documents, in \<open>cross_namespace_target_never_runs\<close>, and that it keeps the name and the namespace of
  the object, in theory \<open>System\<close>, which also states what it takes of the server's concurrency control, as does \<open>Deploy_System\<close>, and that it accepts the
  references of a Rollout within its namespace, in \<open>reconcilers_watch_their_work\<close>), the deep copies of the Kubernetes types (\<open>library\<close>: that they are
  deep copies), \<open>sort.Slice\<close> (a sorted permutation,
  \<open>sort_slice_law\<close>), the JSON encoder and the digest, HTTP and IEEE floats, file reads, environment variables, the websocket, and the order in
  which Go ranges over a map.

  Not modelled: the manager and the delivery of the events it watches (the answers of its calls are parameters), logging, the formatted
  values inside error messages, and the charts, manifests and scripts.
\<close>

end
